(* ===== verification/Prelude.thy ===== *)
theory Prelude
  imports Main "HOL-Library.Word"
begin

unbundle bit_operations_syntax

text \<open>
  Shared material of the development: the machine integers of the C code, the result type
  whose left summand records why a run of the code has no defined outcome, the byte order
  of the host (little-endian, as on the x86 Linux machines the programs are written for),
  and the accesses to a byte array that fail outside its bounds.
\<close>

section \<open>Machine integers and results\<close>

type_synonym u8 = "8 word"
type_synonym u16 = "16 word"
type_synonym u32 = "32 word"

text \<open>
  An \<open>int\<close> that the code counts with and that the input can drive past its range is a word too, read
  by \<open>sint\<close>. C leaves the overflow undefined; the model has the wrap-around of the machine.
\<close>

type_synonym i32 = "32 word"

named_theorems res_simps \<open>evaluation of the result monad\<close>
named_theorems mem_simps \<open>accesses to byte arrays\<close>

text \<open>
  A C function may read outside an array, read a variable that nothing has written, loop
  for ever, or leave the process by \<open>exit\<close>. Each is a value of \<open>fault\<close>.
\<close>

datatype fault = OutOfBounds | Uninitialised | Diverges | Exited

type_synonym 'a res = "fault + 'a"

definition bind_res :: "'a res \<Rightarrow> ('a \<Rightarrow> 'b res) \<Rightarrow> 'b res" where
  "bind_res m f = (case m of Inl e \<Rightarrow> Inl e | Inr a \<Rightarrow> f a)"

lemma bind_res_Inl [simp]: "bind_res (Inl e) f = Inl e"
  by (simp add: bind_res_def)

lemma bind_res_Inr [simp]: "bind_res (Inr a) f = f a"
  by (simp add: bind_res_def)

lemma bind_res_assoc: "bind_res (bind_res m f) g = bind_res m (\<lambda>a. bind_res (f a) g)"
  by (simp add: bind_res_def split: sum.splits)

lemma bind_res_if: "bind_res (if c then m else n) f = (if c then bind_res m f else bind_res n f)"
  by simp

lemma bind_res_eq_Inr [res_simps]:
  "bind_res m f = Inr b \<longleftrightarrow> (\<exists>a. m = Inr a \<and> f a = Inr b)"
  by (simp add: bind_res_def split: sum.splits)

lemma bind_res_cong [fundef_cong]:
  "m = m' \<Longrightarrow> (\<And>a. m' = Inr a \<Longrightarrow> f a = f' a) \<Longrightarrow> bind_res m f = bind_res m' f'"
  by (simp add: bind_res_def split: sum.splits)

lemma bind_res_InrE:
  assumes "bind_res m f = Inr b"
  obtains a where "m = Inr a" "f a = Inr b"
  using assms by (auto simp: res_simps)

lemma ucast_16_32_eq_0 [simp]: "(ucast (x :: u16) :: u32) = 0 \<longleftrightarrow> x = 0"
proof -
  have "uint (ucast x :: u32) = uint x" by (rule uint_up_ucast) (simp add: is_up)
  then show ?thesis by (metis uint_0_iff)
qed

lemma unat_u8_less: "unat (x :: u8) < 256"
  using unsigned_less [of x, where 'a = nat] by simp

lemma unat_u16_less: "unat (x :: u16) < 65536"
  using unsigned_less [of x, where 'a = nat] by simp

text \<open>A counter as a signed number: exact below \<open>2^31\<close>, and never more than what was counted.\<close>

lemma sint_of_nat_i32: "sint (of_nat n :: i32) = signed_take_bit 31 (int n)"
  using sint_sbintrunc' [of "int n", where 'a = 32] by simp

lemma sint_count_exact [simp]: "n < 2 ^ 31 \<Longrightarrow> sint (of_nat n :: i32) = int n"
  unfolding sint_of_nat_i32 by (rule signed_take_bit_int_eq_self) simp_all

lemma sint_count_le: "sint (of_nat n :: i32) \<le> int n"
  unfolding sint_of_nat_i32 by (simp add: signed_take_bit_int_less_eq_self_iff)

section \<open>Byte order\<close>

definition bytes_le16 :: "u16 \<Rightarrow> u8 list" where
  "bytes_le16 x = [ucast x, ucast (drop_bit 8 x)]"

definition word_le16 :: "u8 list \<Rightarrow> u16" where
  "word_le16 bs = ucast (bs ! 0) OR push_bit 8 (ucast (bs ! 1))"

definition bytes_le32 :: "u32 \<Rightarrow> u8 list" where
  "bytes_le32 x =
     [ucast x, ucast (drop_bit 8 x), ucast (drop_bit 16 x), ucast (drop_bit 24 x)]"

definition word_le32 :: "u8 list \<Rightarrow> u32" where
  "word_le32 bs =
     ucast (bs ! 0) OR push_bit 8 (ucast (bs ! 1)) OR
     push_bit 16 (ucast (bs ! 2)) OR push_bit 24 (ucast (bs ! 3))"

lemma length_bytes_le16 [simp]: "length (bytes_le16 x) = 2"
  by (simp add: bytes_le16_def)

lemma length_bytes_le32 [simp]: "length (bytes_le32 x) = 4"
  by (simp add: bytes_le32_def)

lemma word_le16_bytes [simp]: "word_le16 (bytes_le16 x) = x"
  by (rule bit_word_eqI) (auto simp: word_le16_def bytes_le16_def bit_simps)


lemma word_le32_bytes [simp]: "word_le32 (bytes_le32 x) = x"
proof (rule bit_word_eqI)
  fix n assume "n < LENGTH(32)"
  then have "n < 8 \<or> 8 \<le> n \<and> n < 16 \<or> 16 \<le> n \<and> n < 24 \<or> 24 \<le> n \<and> n < 32"
    by auto
  then show "bit (word_le32 (bytes_le32 x)) n = bit x n"
    by (elim disjE) (auto simp: word_le32_def bytes_le32_def bit_simps)
qed

lemma list_eq2: "length bs = 2 \<Longrightarrow> bs = [bs ! 0, bs ! 1]"
  by (rule nth_equalityI) (auto simp: less_Suc_eq numeral_2_eq_2)

lemma list_eq4: "length bs = 4 \<Longrightarrow> bs = [bs ! 0, bs ! 1, bs ! 2, bs ! 3]"
  by (rule nth_equalityI) (auto simp: less_Suc_eq numeral_eq_Suc)

lemma bit_u8_high: "8 \<le> n \<Longrightarrow> bit (b :: u8) n = False"
  using bit_imp_le_length [of b n] by auto

lemma bytes_le16_word:
  assumes "length bs = 2"
  shows "bytes_le16 (word_le16 bs) = bs"
proof -
  obtain a b where bs: "bs = [a, b]" using list_eq2 [OF assms] by blast
  show ?thesis
    unfolding bs bytes_le16_def word_le16_def
    by (auto intro!: bit_word_eqI simp: bit_simps bit_u8_high)
qed

lemma bytes_le32_word:
  assumes "length bs = 4"
  shows "bytes_le32 (word_le32 bs) = bs"
proof -
  obtain a b c d where bs: "bs = [a, b, c, d]" using list_eq4 [OF assms] by blast
  show ?thesis
    unfolding bs bytes_le32_def word_le32_def
    by (auto intro!: bit_word_eqI simp: bit_simps bit_u8_high)
qed

text \<open>
  \<open>htonl\<close>, \<open>ntohl\<close>, \<open>htons\<close> and \<open>ntohs\<close> on a little-endian host reverse the bytes.
\<close>

definition htonl :: "u32 \<Rightarrow> u32" where
  "htonl x = word_le32 (rev (bytes_le32 x))"

definition ntohl :: "u32 \<Rightarrow> u32" where
  "ntohl x = word_le32 (rev (bytes_le32 x))"

definition htons :: "u16 \<Rightarrow> u16" where
  "htons x = word_le16 (rev (bytes_le16 x))"

definition ntohs :: "u16 \<Rightarrow> u16" where
  "ntohs x = word_le16 (rev (bytes_le16 x))"

text \<open>What the programs use of a pair of conversions: each undoes the other.\<close>

locale byte_order =
  fixes hton :: "'a \<Rightarrow> 'a" and ntoh :: "'a \<Rightarrow> 'a"
  assumes ntoh_hton: "ntoh (hton x) = x"
    and hton_ntoh: "hton (ntoh x) = x"
begin

lemma hton_inject: "hton x = hton y \<longleftrightarrow> x = y"
  by (metis ntoh_hton)

lemma ntoh_inject: "ntoh x = ntoh y \<longleftrightarrow> x = y"
  by (metis hton_ntoh)

lemma hton_eq_iff: "hton x = y \<longleftrightarrow> x = ntoh y"
  by (metis ntoh_hton hton_ntoh)

lemma bij_hton: "bij hton"
  by (rule bijI') (auto simp: hton_inject, metis hton_ntoh)

end

interpretation net32: byte_order htonl ntohl
  by unfold_locales (simp_all add: htonl_def ntohl_def bytes_le32_word)

interpretation net16: byte_order htons ntohs
  by unfold_locales (simp_all add: htons_def ntohs_def bytes_le16_word)

declare net32.ntoh_hton [simp] net32.hton_ntoh [simp] net32.hton_inject [simp]
  net32.ntoh_inject [simp]

declare net16.ntoh_hton [simp] net16.hton_ntoh [simp] net16.hton_inject [simp]
  net16.ntoh_inject [simp]

lemma htonl_0 [simp]: "htonl 0 = 0"
  by (simp add: htonl_def bytes_le32_def word_le32_def)

lemma ntohl_0 [simp]: "ntohl 0 = 0"
  by (simp add: ntohl_def bytes_le32_def word_le32_def)

lemma htons_0 [simp]: "htons 0 = 0"
  by (simp add: htons_def bytes_le16_def word_le16_def)

lemma htonl_eq_0 [simp]: "htonl x = 0 \<longleftrightarrow> x = 0"
  by (metis htonl_0 net32.hton_inject)

lemma ntohl_eq_0 [simp]: "ntohl x = 0 \<longleftrightarrow> x = 0"
  by (metis ntohl_0 net32.ntoh_inject)

section \<open>Byte arrays\<close>

text \<open>
  \<open>strcpy(ifr_name, name)\<close>: the field of \<open>struct ifreq\<close> has \<open>IFNAMSIZ\<close> bytes, and the copy
  writes the characters of the name and a zero.
\<close>

abbreviation (input) IFNAMSIZ :: nat where "IFNAMSIZ \<equiv> 16"

definition copy_ifr_name :: "string \<Rightarrow> string res" where
  "copy_ifr_name name = (if IFNAMSIZ < length name + 1 then Inl OutOfBounds else Inr name)"

lemma copy_ifr_name_Inr [simp]: "copy_ifr_name name = Inr n \<longleftrightarrow> n = name \<and> length name < IFNAMSIZ"
  by (auto simp: copy_ifr_name_def)

text \<open>
  \<open>load8\<close> is a read through a pointer to an element of the array, \<open>load32\<close> a
  \<open>memcpy\<close> of four bytes into a \<open>uint32_t\<close>, and \<open>store_bytes\<close> a \<open>memcpy\<close> into
  the array. A pointer is an index of the array; \<open>None\<close> is one that was never set.
\<close>

definition load8 :: "u8 list \<Rightarrow> nat option \<Rightarrow> u8 res" where
  "load8 m p = (case p of None \<Rightarrow> Inl Uninitialised
     | Some i \<Rightarrow> if i < length m then Inr (m ! i) else Inl OutOfBounds)"

definition load_bytes :: "u8 list \<Rightarrow> nat option \<Rightarrow> nat \<Rightarrow> u8 list res" where
  "load_bytes m p n = (case p of None \<Rightarrow> Inl Uninitialised
     | Some i \<Rightarrow> if i + n \<le> length m then Inr (take n (drop i m)) else Inl OutOfBounds)"

definition load32 :: "u8 list \<Rightarrow> nat option \<Rightarrow> u32 res" where
  "load32 m p = bind_res (load_bytes m p 4) (\<lambda>bs. Inr (word_le32 bs))"

definition store_bytes :: "u8 list \<Rightarrow> nat \<Rightarrow> u8 list \<Rightarrow> u8 list res" where
  "store_bytes m i bs =
     (if i + length bs \<le> length m then Inr (take i m @ bs @ drop (i + length bs) m)
      else Inl OutOfBounds)"

lemma load8_middle [mem_simps]:
  "i = length pre \<Longrightarrow> load8 (pre @ b # post) (Some i) = Inr b"
  by (simp add: load8_def)

lemma load_bytes_middle [mem_simps]:
  "i = length pre \<Longrightarrow> n = length bs \<Longrightarrow> load_bytes (pre @ bs @ post) (Some i) n = Inr bs"
  by (simp add: load_bytes_def)

lemma load32_middle [mem_simps]:
  "i = length pre \<Longrightarrow> length bs = 4 \<Longrightarrow>
   load32 (pre @ bs @ post) (Some i) = Inr (word_le32 bs)"
  by (simp add: load32_def load_bytes_middle)

lemma store_bytes_length: "store_bytes m i bs = Inr m' \<Longrightarrow> length m' = length m"
  by (auto simp: store_bytes_def split: if_splits)

lemma load32_None [simp]: "load32 m None = Inl Uninitialised"
  by (simp add: load32_def load_bytes_def)

lemma load8_None [simp]: "load8 m None = Inl Uninitialised"
  by (simp add: load8_def)

lemma load32_fault: "load32 m p = Inl e \<Longrightarrow> e = OutOfBounds \<or> e = Uninitialised"
  by (auto simp: load32_def load_bytes_def split: option.splits if_splits)

lemma load_bytes_length: "load_bytes m p n = Inr bs \<Longrightarrow> length bs = n"
  by (auto simp: load_bytes_def split: option.splits if_splits)

lemma load32_SomeD:
  "load32 m p = Inr w \<Longrightarrow> \<exists>i. p = Some i \<and> i + 4 \<le> length m \<and> w = word_le32 (take 4 (drop i m))"
  by (auto simp: load32_def load_bytes_def split: option.splits if_splits)

end
