(* ===== verification/Dhcp_Options.thy ===== *)
theory Dhcp_Options
  imports Prelude
begin

text \<open>
  The option area of a DHCP message (\<open>src/dhcp-project.h\<close>): the constants, the scan
  \<open>get_dhcp_option\<close> through the area as it is written, and \<open>fill_dhcp_option\<close>. The
  area is the array \<open>options\<close> of \<open>struct dhcp_t\<close>, a list of bytes; a pointer into it is
  an index. The second half relates the scan to a parser of the area into a list of codes
  and values, and the writes to the encoding of such a list.
\<close>

section \<open>Constants\<close>

abbreviation (input) OPTION_SUBNET_MASK :: u8 where "OPTION_SUBNET_MASK \<equiv> 1"
abbreviation (input) OPTION_ROUTER :: u8 where "OPTION_ROUTER \<equiv> 3"
abbreviation (input) OPTION_DOMAIN_NAME_SERVER :: u8 where "OPTION_DOMAIN_NAME_SERVER \<equiv> 6"
abbreviation (input) OPTION_REQUESTED_IP :: u8 where "OPTION_REQUESTED_IP \<equiv> 50"
abbreviation (input) OPTION_IP_ADDRESS_LEASE_TIME :: u8 where "OPTION_IP_ADDRESS_LEASE_TIME \<equiv> 51"
abbreviation (input) OPTION_DHCP_MESSAGE_TYPE :: u8 where "OPTION_DHCP_MESSAGE_TYPE \<equiv> 53"
abbreviation (input) OPTION_DHCP_SERVER_IDENTIFIER :: u8 where "OPTION_DHCP_SERVER_IDENTIFIER \<equiv> 54"
abbreviation (input) OPTION_PARAMETER_REQUEST_LIST :: u8 where "OPTION_PARAMETER_REQUEST_LIST \<equiv> 55"
abbreviation (input) OPTION_IP_T1_RENEWAL_TIME :: u8 where "OPTION_IP_T1_RENEWAL_TIME \<equiv> 58"
abbreviation (input) OPTION_IP_T2_REBIND_TIME :: u8 where "OPTION_IP_T2_REBIND_TIME \<equiv> 59"
abbreviation (input) OPTION_VENDOR_CLASS_IDENTIFIER :: u8 where "OPTION_VENDOR_CLASS_IDENTIFIER \<equiv> 60"
abbreviation (input) OPTION_END :: u8 where "OPTION_END \<equiv> 255"

abbreviation (input) DHCPDISCOVER :: u8 where "DHCPDISCOVER \<equiv> 1"
abbreviation (input) DHCPOFFER :: u8 where "DHCPOFFER \<equiv> 2"
abbreviation (input) DHCPREQUEST :: u8 where "DHCPREQUEST \<equiv> 3"
abbreviation (input) DHCPDECLINE :: u8 where "DHCPDECLINE \<equiv> 4"
abbreviation (input) DHCPACK :: u8 where "DHCPACK \<equiv> 5"
abbreviation (input) DHCPNAK :: u8 where "DHCPNAK \<equiv> 6"
abbreviation (input) DHCPRELEASE :: u8 where "DHCPRELEASE \<equiv> 7"
abbreviation (input) DHCPINFORM :: u8 where "DHCPINFORM \<equiv> 8"

section \<open>Reading an option\<close>

text \<open>
  The loop of \<open>get_dhcp_option\<close>: it stops at the wanted code or at a zero byte, and
  otherwise skips the code, the length byte and as many bytes as the length says. The
  code \<open>OPTION_END\<close> has no special role. Nothing bounds the pointer, so a read past the
  array is a fault.
\<close>

function scan_option :: "u8 list \<Rightarrow> u8 \<Rightarrow> nat \<Rightarrow> nat res" where
  "scan_option opts option_type i =
     (if length opts \<le> i then Inl OutOfBounds
      else if opts ! i \<noteq> option_type \<and> opts ! i \<noteq> 0 then
        (if length opts \<le> i + 1 then Inl OutOfBounds
         else scan_option opts option_type (i + 1 + unat (opts ! (i + 1)) + 1))
      else Inr i)"
  by pat_completeness auto
termination
  by (relation "measure (\<lambda>(opts, ty, i). length opts - i)") auto

declare scan_option.simps [simp del]

text \<open>
  The result: no option, in which case the C function returns 0 and leaves
  \<open>*option_value\<close> as it was, or the length byte and the pointer to the value.
\<close>

datatype opt_lookup = OptAbsent | OptAt u8 nat

definition get_dhcp_option :: "u8 list \<Rightarrow> u8 \<Rightarrow> opt_lookup res" where
  "get_dhcp_option opts option_type =
     bind_res (scan_option opts option_type 0) (\<lambda>i.
       if opts ! i = 0 then Inr OptAbsent
       else if length opts \<le> i + 1 then Inl OutOfBounds
       else Inr (OptAt (opts ! (i + 1)) (i + 2)))"

fun opt_ret :: "opt_lookup \<Rightarrow> u8" where
  "opt_ret OptAbsent = 0"
| "opt_ret (OptAt n i) = n"

fun opt_set :: "opt_lookup \<Rightarrow> nat option \<Rightarrow> nat option" where
  "opt_set OptAbsent p = p"
| "opt_set (OptAt n i) p = Some i"

section \<open>Writing an option\<close>

text \<open>
  \<open>fill_dhcp_option (packet + off) code data len\<close>: code, length byte, then a
  \<open>memcpy\<close> of \<open>len\<close> bytes. It returns the area and the number of bytes written.
\<close>

definition fill_dhcp_option ::
    "u8 list \<Rightarrow> nat \<Rightarrow> u8 \<Rightarrow> u8 list \<Rightarrow> u16 \<Rightarrow> (u8 list \<times> u16) res" where
  "fill_dhcp_option packet off code data len =
     (if length data < unat len then Inl OutOfBounds
      else bind_res (store_bytes packet off (code # ucast len # take (unat len) data))
        (\<lambda>packet'. Inr (packet', len + 2)))"

text \<open>The statement \<open>len += fill_dhcp_option(&dhcp->options[len], code, data, sizeof data)\<close>.\<close>

definition add_option :: "u8 \<Rightarrow> u8 list \<Rightarrow> u8 list \<times> u16 \<Rightarrow> (u8 list \<times> u16) res" where
  "add_option code data st =
     bind_res (fill_dhcp_option (fst st) (unat (snd st)) code data (of_nat (length data)))
       (\<lambda>(opts', n). Inr (opts', snd st + n))"

section \<open>The area as a list of options\<close>

text \<open>
  The reference: an area that a zero byte ends within its bounds is the list of its
  options, code and value, in order.
\<close>

function tlvs :: "u8 list \<Rightarrow> (u8 \<times> u8 list) list option" where
  "tlvs [] = None"
| "tlvs [c] = (if c = 0 then Some [] else None)"
| "tlvs (c # n # rest) =
     (if c = 0 then Some []
      else if unat n \<le> length rest then
        map_option ((#) (c, take (unat n) rest)) (tlvs (drop (unat n) rest))
      else None)"
  by pat_completeness auto
termination
  by (relation "measure length") auto

definition enc_opt :: "u8 \<times> u8 list \<Rightarrow> u8 list" where
  "enc_opt o1 = fst o1 # of_nat (length (snd o1)) # snd o1"

definition enc_opts :: "(u8 \<times> u8 list) list \<Rightarrow> u8 list" where
  "enc_opts os = concat (map enc_opt os)"

definition enc_ok :: "(u8 \<times> u8 list) list \<Rightarrow> bool" where
  "enc_ok os \<longleftrightarrow> (\<forall>(c, d) \<in> set os. c \<noteq> 0 \<and> length d < 256)"

lemma enc_opts_simps [simp]:
  "enc_opts [] = []"
  "enc_opts (o1 # os) = enc_opt o1 @ enc_opts os"
  "enc_opts (os @ os') = enc_opts os @ enc_opts os'"
  by (simp_all add: enc_opts_def)

lemma enc_ok_simps [simp]:
  "enc_ok []"
  "enc_ok ((c, d) # os) \<longleftrightarrow> c \<noteq> 0 \<and> length d < 256 \<and> enc_ok os"
  "enc_ok (os @ os') \<longleftrightarrow> enc_ok os \<and> enc_ok os'"
  by (auto simp: enc_ok_def)

lemma unat_length_u8 [simp]: "n < 256 \<Longrightarrow> unat (of_nat n :: u8) = n"
  by (simp add: unat_of_nat take_bit_eq_mod)

lemma unat_length_u16 [simp]: "n < 65536 \<Longrightarrow> unat (of_nat n :: u16) = n"
  by (simp add: unat_of_nat take_bit_eq_mod)

lemma length_enc_opt [simp]: "length (enc_opt (c, d)) = 2 + length d"
  by (simp add: enc_opt_def)

subsection \<open>The scan\<close>

lemma scan_stop: "i < length opts \<Longrightarrow> opts ! i = ty \<or> opts ! i = 0 \<Longrightarrow> scan_option opts ty i = Inr i"
  by (subst scan_option.simps) auto

lemma scan_skip:
  "i + 1 < length opts \<Longrightarrow> opts ! i \<noteq> ty \<Longrightarrow> opts ! i \<noteq> 0 \<Longrightarrow>
   scan_option opts ty i = scan_option opts ty (i + 1 + unat (opts ! (i + 1)) + 1)"
  by (subst scan_option.simps) auto

lemma scan_result:
  "scan_option opts ty i = Inr j \<Longrightarrow> j < length opts \<and> i \<le> j \<and> (opts ! j = ty \<or> opts ! j = 0)"
proof (induction opts ty i rule: scan_option.induct)
  case (1 opts ty i)
  show ?case
    using "1.prems" "1.IH"
    by (subst (asm) scan_option.simps) (auto split: if_splits)
qed

lemma scan_fault: "scan_option opts ty i = Inl e \<Longrightarrow> e = OutOfBounds"
proof (induction opts ty i rule: scan_option.induct)
  case (1 opts ty i)
  then show ?case
    by (subst (asm) scan_option.simps) (auto split: if_splits)
qed

text \<open>An area that no zero byte ends.\<close>

lemma scan_ones: "scan_option (replicate n 1) OPTION_DHCP_MESSAGE_TYPE i = Inl OutOfBounds"
proof (induction "n - i" arbitrary: i rule: less_induct)
  case less
  show ?case
    by (cases "i + 1 < n") (use less in \<open>auto simp: scan_option.simps [of _ _ i]\<close>)
qed

text \<open>One option that is not the wanted one is skipped, wherever it stands.\<close>

lemma scan_skip_opt:
  assumes "c \<noteq> ty" "c \<noteq> 0" "unat n = length d"
  shows "scan_option (pre @ c # n # d @ post) ty (length pre) =
         scan_option (pre @ c # n # d @ post) ty (length pre + 2 + length d)"
  using assms by (subst scan_skip) (auto simp: nth_append)

lemma scan_skip_opts:
  assumes "enc_ok os" "\<forall>(c, d) \<in> set os. c \<noteq> ty"
  shows "scan_option (pre @ enc_opts os @ post) ty (length pre) =
         scan_option (pre @ enc_opts os @ post) ty (length pre + length (enc_opts os))"
  using assms
proof (induction os arbitrary: pre)
  case Nil
  then show ?case by simp
next
  case (Cons o1 os)
  obtain c d where o1: "o1 = (c, d)" by (cases o1)
  have cd: "c \<noteq> ty" "c \<noteq> 0" "length d < 256" "enc_ok os" "\<forall>(c, d) \<in> set os. c \<noteq> ty"
    using Cons.prems by (auto simp: o1)
  let ?opts = "pre @ enc_opts (o1 # os) @ post"
  have "scan_option ?opts ty (length pre) = scan_option ?opts ty (length pre + 2 + length d)"
    using scan_skip_opt [of c ty "of_nat (length d)" d pre "enc_opts os @ post"] cd
    by (simp add: o1 enc_opt_def)
  also have "\<dots> = scan_option ?opts ty (length (pre @ enc_opt o1) + length (enc_opts os))"
    using Cons.IH [OF cd(4,5), of "pre @ enc_opt o1"] by (simp add: o1 add.assoc)
  finally show ?case by (simp add: o1 add.assoc)
qed

subsection \<open>Lookups in an encoded area\<close>

lemma get_dhcp_option_found:
  assumes "enc_ok os" "ty \<notin> fst ` set os" "ty \<noteq> 0" "length d < 256"
  shows "get_dhcp_option (enc_opts os @ enc_opt (ty, d) @ rest) ty =
         Inr (OptAt (of_nat (length d)) (length (enc_opts os) + 2))"
proof -
  let ?opts = "enc_opts os @ enc_opt (ty, d) @ rest"
  have "scan_option ?opts ty 0 = scan_option ?opts ty (length (enc_opts os))"
    using scan_skip_opts [of os ty "[]" "enc_opt (ty, d) @ rest"] assms(1,2) by force
  also have "\<dots> = Inr (length (enc_opts os))"
    by (rule scan_stop) (simp_all add: enc_opt_def nth_append)
  finally show ?thesis
    using assms(3) by (simp add: get_dhcp_option_def enc_opt_def nth_append)
qed

lemma get_dhcp_option_absent:
  assumes "enc_ok os" "ty \<notin> fst ` set os"
  shows "get_dhcp_option (enc_opts os @ 0 # rest) ty = Inr OptAbsent"
proof -
  let ?opts = "enc_opts os @ 0 # rest"
  have "scan_option ?opts ty 0 = scan_option ?opts ty (length (enc_opts os))"
    using scan_skip_opts [of os ty "[]" "0 # rest"] assms by force
  also have "\<dots> = Inr (length (enc_opts os))"
    by (rule scan_stop) (simp_all add: nth_append)
  finally show ?thesis
    by (simp add: get_dhcp_option_def nth_append)
qed

lemma enc_ok_split:
  assumes "map_of os ty = Some d"
  obtains pre post where "os = pre @ (ty, d) # post" "ty \<notin> fst ` set pre"
  using assms
proof (induction os arbitrary: thesis)
  case Nil
  then show ?case by simp
next
  case (Cons o1 os)
  show ?case
  proof (cases "fst o1 = ty")
    case True
    then show ?thesis using Cons.prems(1) [of "[]" os] Cons.prems(2) by (cases o1) auto
  next
    case False
    then obtain pre post where "os = pre @ (ty, d) # post" "ty \<notin> fst ` set pre"
      using Cons.IH Cons.prems(2) by (cases o1) auto
    then show ?thesis using Cons.prems(1) [of "o1 # pre" post] False by auto
  qed
qed

text \<open>The lookup in an encoded area, whatever follows the options.\<close>

lemma get_dhcp_option_enc:
  assumes "enc_ok os" "ty \<noteq> 0" "map_of os ty = Some d"
  obtains i where
    "get_dhcp_option (enc_opts os @ rest) ty = Inr (OptAt (of_nat (length d)) i)"
    "load_bytes (enc_opts os @ rest) (Some i) (length d) = Inr d"
proof -
  obtain pre post where os: "os = pre @ (ty, d) # post" and new: "ty \<notin> fst ` set pre"
    using enc_ok_split [OF assms(3)] by blast
  let ?i = "length (enc_opts pre) + 2"
  have "get_dhcp_option (enc_opts os @ rest) ty = Inr (OptAt (of_nat (length d)) ?i)"
    using get_dhcp_option_found [of pre ty d "enc_opts post @ rest"] assms(1,2) new
    by (simp add: os)
  moreover have "load_bytes (enc_opts os @ rest) (Some ?i) (length d) = Inr d"
    using load_bytes_middle
      [of ?i "enc_opts pre @ [ty, of_nat (length d)]" "length d" d "enc_opts post @ rest"]
    by (simp add: os enc_opt_def)
  ultimately show thesis by (rule that)
qed

subsection \<open>The parser\<close>

lemma tlvs_enc:
  "enc_ok os \<Longrightarrow> tlvs (enc_opts os @ 0 # rest) = Some os"
proof (induction os)
  case Nil
  then show ?case by (cases rest) auto
next
  case (Cons o1 os)
  then show ?case by (cases o1) (simp add: enc_opt_def)
qed

lemma tlvs_inv:
  assumes "tlvs opts = Some os"
  obtains rest where "opts = enc_opts os @ 0 # rest" "enc_ok os"
  using assms
proof (induction opts arbitrary: os thesis rule: tlvs.induct)
  case 1
  then show ?case by simp
next
  case (2 c)
  then show ?case by (auto split: if_splits)
next
  case (3 c n r)
  show ?case
  proof (cases "c = 0")
    case True
    then show ?thesis using "3.prems" by auto
  next
    case False
    with "3.prems"(2) obtain os' where len: "unat n \<le> length r"
      and os': "tlvs (drop (unat n) r) = Some os'" and os: "os = (c, take (unat n) r) # os'"
      by (auto split: if_splits)
    obtain rest where rest: "drop (unat n) r = enc_opts os' @ 0 # rest" "enc_ok os'"
      using "3.IH" [OF False len _ os'] by blast
    have "c # n # r = enc_opts os @ 0 # rest"
      using rest(1) append_take_drop_id [of "unat n" r] len
      by (simp add: os enc_opt_def min_absorb2)
    moreover have "enc_ok os"
      using rest(2) False len unat_u8_less [of n] by (simp add: os min_absorb2)
    ultimately show ?thesis by (rule "3.prems"(1))
  qed
qed

text \<open>Lookups in an area that parses.\<close>

lemma tlvs_lookup_Some:
  assumes "tlvs opts = Some os" "ty \<noteq> 0" "map_of os ty = Some d"
  obtains i where
    "get_dhcp_option opts ty = Inr (OptAt (of_nat (length d)) i)"
    "load_bytes opts (Some i) (length d) = Inr d" "length d < 256"
proof -
  obtain rest where opts: "opts = enc_opts os @ 0 # rest" and ok: "enc_ok os"
    using tlvs_inv [OF assms(1)] by blast
  have "length d < 256" using ok map_of_SomeD [OF assms(3)] by (auto simp: enc_ok_def)
  with get_dhcp_option_enc [OF ok assms(2,3), of "0 # rest"] that show thesis
    by (auto simp: opts)
qed

lemma tlvs_lookup_None:
  assumes "tlvs opts = Some os" "map_of os ty = None"
  shows "get_dhcp_option opts ty = Inr OptAbsent"
  using assms(2) by - (rule tlvs_inv [OF assms(1)],
    auto simp: map_of_eq_None_iff get_dhcp_option_absent)

lemma tlvs_lookup_total:
  assumes "tlvs opts = Some os" "ty \<noteq> 0"
  shows "\<exists>r. get_dhcp_option opts ty = Inr r"
  by (cases "map_of os ty") (use tlvs_lookup_None [OF assms(1)] tlvs_lookup_Some [OF assms] in metis)+

subsection \<open>Writing\<close>

text \<open>The options written so far, and the rest of the area behind them.\<close>

definition written :: "(u8 \<times> u8 list) list \<Rightarrow> u8 list \<Rightarrow> u8 list \<times> u16" where
  "written os area = (enc_opts os @ drop (length (enc_opts os)) area, of_nat (length (enc_opts os)))"

lemma written_Nil: "written [] area = (area, 0)"
  by (simp add: written_def)

lemma add_option_written:
  assumes "length (enc_opts os) + 2 + length d \<le> length area"
    and "length area < 65536" and "length d < 256"
  shows "add_option c d (written os area) = Inr (written (os @ [(c, d)]) area)"
proof -
  have len: "unat (of_nat (length d) :: u16) = length d"
    "unat (of_nat (length (enc_opts os)) :: u16) = length (enc_opts os)"
    using assms by (simp_all del: of_nat_numeral)
  have "ucast (of_nat (length d) :: u16) = (of_nat (length d) :: u8)"
    using assms(3) by (simp add: unsigned_of_nat take_bit_eq_mod)
  then show ?thesis
    using assms(1) len
    by (simp add: add_option_def fill_dhcp_option_def written_def store_bytes_def enc_opt_def
        add.commute add.left_commute)
qed

section \<open>Properties\<close>

text \<open>
  C10: On every option area that a zero byte ends within its bounds, the scan of the code
  returns what the parser of the area says: the first option of that code with its length
  and a pointer to its value, or nothing. In particular it reads nothing outside the area.
\<close>

theorem get_dhcp_option_parses:
  assumes "tlvs opts = Some os" and "ty \<noteq> 0"
  shows "case map_of os ty of
           None \<Rightarrow> get_dhcp_option opts ty = Inr OptAbsent
         | Some d \<Rightarrow> (\<exists>i. get_dhcp_option opts ty = Inr (OptAt (of_nat (length d)) i)
                        \<and> load_bytes opts (Some i) (length d) = Inr d)"
proof (cases "map_of os ty")
  case None
  with tlvs_lookup_None [OF assms(1)] show ?thesis by simp
next
  case (Some d)
  with tlvs_lookup_Some [OF assms] show ?thesis by (simp (no_asm_simp)) metis
qed

theorem get_dhcp_option_parses_witness:
  "get_dhcp_option [53, 1, 3, 54, 2, 7, 8, 0, 9] 54 = Inr (OptAt 2 5)"
proof -
  have "tlvs [53, 1, 3, 54, 2, 7, 8, 0, 9] = Some [(53, [3]), (54, [7, 8])]"
    by simp
  from get_dhcp_option_parses [OF this, of 54]
  have "\<exists>i. get_dhcp_option [53, 1, 3, 54, 2, 7, 8, 0, 9] 54 = Inr (OptAt 2 i)"
    by auto
  then show ?thesis
    by (simp add: get_dhcp_option_def scan_option.simps)
qed

text \<open>
  C21: An option appended by the statement \<open>len += fill_dhcp_option(...)\<close> to a zeroed area
  is found again by \<open>get_dhcp_option\<close> with the value written, if the area holds no option of
  that code yet; the options already written parse as before, and the length returned is that of
  the area used.
\<close>

theorem fill_then_get:
  assumes "enc_ok os" "c \<noteq> 0" "c \<notin> fst ` set os" "length d < 256"
    and "length (enc_opts os) + 2 + length d < n" "n < 65536"
  obtains opts' len' i where
    "add_option c d (enc_opts os @ replicate (n - length (enc_opts os)) 0,
       of_nat (length (enc_opts os))) = Inr (opts', len')"
    "unat len' = length (enc_opts os) + 2 + length d"
    "get_dhcp_option opts' c = Inr (OptAt (of_nat (length d)) i)"
    "load_bytes opts' (Some i) (length d) = Inr d"
    "tlvs opts' = Some (os @ [(c, d)])"
proof -
  let ?area = "enc_opts os @ replicate (n - length (enc_opts os)) 0"
  let ?os = "os @ [(c, d)]"
  let ?z = "replicate (n - length (enc_opts ?os)) (0 :: u8)"
  have z: "?z = 0 # replicate (n - length (enc_opts ?os) - 1) 0"
    using assms(5) by (simp flip: replicate_Suc)
  have ok: "enc_ok ?os" using assms(1,2,4) by simp
  have new: "map_of ?os c = Some d"
    using assms(3) by (simp add: map_add_def map_of_eq_None_iff [THEN iffD2])
  obtain i where i: "get_dhcp_option (enc_opts ?os @ ?z) c = Inr (OptAt (of_nat (length d)) i)"
    "load_bytes (enc_opts ?os @ ?z) (Some i) (length d) = Inr d"
    using get_dhcp_option_enc [OF ok assms(2) new] by blast
  have "add_option c d (written os ?area) = Inr (written ?os ?area)"
    by (rule add_option_written) (use assms(4-6) in auto)
  moreover have "written os ?area = (?area, of_nat (length (enc_opts os)))"
    by (simp add: written_def)
  moreover have "written ?os ?area = (enc_opts ?os @ ?z, of_nat (length (enc_opts ?os)))"
    by (simp add: written_def)
  moreover have "tlvs (enc_opts ?os @ ?z) = Some ?os"
    unfolding z by (rule tlvs_enc [OF ok])
  moreover have "unat (of_nat (length (enc_opts ?os)) :: u16) = length (enc_opts os) + 2 + length d"
    using assms(5,6) by (subst unat_length_u16) auto
  ultimately show thesis
    using that [of "enc_opts ?os @ ?z" "of_nat (length (enc_opts ?os))" i] i by simp
qed

theorem fill_then_get_witness:
  "\<exists>opts' len' i. add_option 54 [7, 8] ([53, 1, 3] @ replicate 9 0, 3) = Inr (opts', len')
     \<and> get_dhcp_option opts' 54 = Inr (OptAt 2 i) \<and> unat len' = 7"
proof -
  have e: "enc_opts [(53, [3 :: u8])] = [53, 1, 3]" by (simp add: enc_opt_def)
  show ?thesis
    by (rule fill_then_get [of "[(53, [3])]" 54 "[7, 8]" 12])
      (simp_all only: e, auto simp: replicate_eq_replicate)
qed

text \<open>
  The scan has no bound but the zero byte: on an area without one (here any number of
  bytes 1) it runs past the end of the array, whatever code other than 1 and 0 it looks for.
\<close>

theorem get_dhcp_option_overrun:
  "get_dhcp_option (replicate n 1) OPTION_DHCP_MESSAGE_TYPE = Inl OutOfBounds"
  by (simp add: get_dhcp_option_def scan_ones)

text \<open>
  \<open>OPTION_END\<close> does not end the scan: an option that stands behind it, as bytes that a
  previous message left in the buffer do, is returned like any other.
\<close>

theorem get_dhcp_option_past_end:
  assumes "enc_ok os" "ty \<notin> fst ` set os" "ty \<noteq> 0" "ty \<noteq> OPTION_END"
    and "length skipped < 256" "length d < 256"
  shows "get_dhcp_option
           (enc_opts os @ OPTION_END # of_nat (length skipped) # skipped @ enc_opt (ty, d) @ rest) ty =
         Inr (OptAt (of_nat (length d)) (length (enc_opts os) + length skipped + 4))"
  using get_dhcp_option_found [of "os @ [(OPTION_END, skipped)]" ty d rest] assms
  by (simp add: enc_opt_def)

theorem get_dhcp_option_past_end_witness:
  "get_dhcp_option [53, 1, 1, OPTION_END, 1, 0, 50, 4, 192, 168, 0, 9, 0] OPTION_REQUESTED_IP =
   Inr (OptAt 4 8)"
  using get_dhcp_option_past_end [of "[(53, [1])]" OPTION_REQUESTED_IP "[0]" "[192, 168, 0, 9]" "[0]"]
  by (simp add: enc_opt_def)

end
