(* ===== verification/Dhcp_Packet.thy ===== *)
theory Dhcp_Packet
  imports Dhcp_Options
begin

text \<open>
  \<open>struct dhcp_t\<close> of \<open>src/dhcp-project.h\<close>: its fields, its layout in memory and the effect
  of \<open>recvfrom\<close> into it. Multi-byte fields hold the value the C code sees when it reads the
  field, so a field that the network carries in network order is compared with \<open>htonl(...)\<close>
  as the code does.
\<close>

section \<open>Constants\<close>

abbreviation (input) DHCP_SERVER_PORT :: u16 where "DHCP_SERVER_PORT \<equiv> 67"
abbreviation (input) DHCP_CLIENT_PORT :: u16 where "DHCP_CLIENT_PORT \<equiv> 68"

abbreviation (input) BOOTP_MESSAGE_TYPE_REQUEST :: u8 where "BOOTP_MESSAGE_TYPE_REQUEST \<equiv> 1"
abbreviation (input) BOOTP_MESSAGE_TYPE_REPLY :: u8 where "BOOTP_MESSAGE_TYPE_REPLY \<equiv> 2"
abbreviation (input) HARDWARE_TYPE :: u8 where "HARDWARE_TYPE \<equiv> 1"
abbreviation (input) HARDWARE_ADDRESS_LENGTH :: nat where "HARDWARE_ADDRESS_LENGTH \<equiv> 6"
abbreviation (input) DHCP_HOPS :: u8 where "DHCP_HOPS \<equiv> 0"
abbreviation (input) SECONDS_ELAPSED :: u16 where "SECONDS_ELAPSED \<equiv> 0"
abbreviation (input) BOOTP_FLAGS_UNICAST :: u16 where "BOOTP_FLAGS_UNICAST \<equiv> 0"
abbreviation (input) BOOTP_FLAGS_BROADCAST :: u16 where "BOOTP_FLAGS_BROADCAST \<equiv> 0x8000"
abbreviation (input) BOOTP_FLAGS :: u16 where "BOOTP_FLAGS \<equiv> BOOTP_FLAGS_BROADCAST"
abbreviation (input) DHCP_MAGIC_COOKIE :: u32 where "DHCP_MAGIC_COOKIE \<equiv> 0x63825363"

abbreviation (input) DHCP_UDP_OVERHEAD :: nat where "DHCP_UDP_OVERHEAD \<equiv> 20 + 8"
abbreviation (input) DHCP_FIXED_NON_UDP :: nat where "DHCP_FIXED_NON_UDP \<equiv> 240"
abbreviation (input) DHCP_FIXED_LEN :: nat where "DHCP_FIXED_LEN \<equiv> DHCP_FIXED_NON_UDP + DHCP_UDP_OVERHEAD"
abbreviation (input) DHCP_MTU_MAX :: nat where "DHCP_MTU_MAX \<equiv> 1500"
abbreviation (input) DHCP_MAX_OPTION_LEN :: nat where "DHCP_MAX_OPTION_LEN \<equiv> DHCP_MTU_MAX - DHCP_FIXED_LEN"

text \<open>The addresses and times the server hands out; addresses in host order.\<close>

abbreviation (input) INADDR_ANY :: u32 where "INADDR_ANY \<equiv> 0"
abbreviation (input) INADDR_BROADCAST :: u32 where "INADDR_BROADCAST \<equiv> 0xFFFFFFFF"
abbreviation (input) IP_ADDRESS_POOL_START :: u32 where "IP_ADDRESS_POOL_START \<equiv> 0xC0A80002"
abbreviation (input) IP_ADDRESS_LEASE_TIME :: u32 where "IP_ADDRESS_LEASE_TIME \<equiv> 32"
abbreviation (input) DHCP_SERVER_IP_ADDRESS :: u32 where "DHCP_SERVER_IP_ADDRESS \<equiv> 0xC0A80001"
abbreviation (input) RELAY_AGENT_IP_ADDRESS :: u32 where "RELAY_AGENT_IP_ADDRESS \<equiv> DHCP_SERVER_IP_ADDRESS"
abbreviation (input) SUBNET_MASK :: u32 where "SUBNET_MASK \<equiv> 0xFFFFFF00"
abbreviation (input) ROUTER_IP_ADDRESS :: u32 where "ROUTER_IP_ADDRESS \<equiv> DHCP_SERVER_IP_ADDRESS"
abbreviation (input) DOMAIN_NAME_SERVER_ADDRESS :: u32 where
  "DOMAIN_NAME_SERVER_ADDRESS \<equiv> DHCP_SERVER_IP_ADDRESS"

text \<open>
  \<open>(uint32_t) (IP_ADDRESS_LEASE_TIME * 0.5)\<close> and \<open>(uint32_t) (IP_ADDRESS_LEASE_TIME * 0.875)\<close>:
  both products are exact in floating point, and the casts truncate.
\<close>

definition T1_RENEWAL_TIME :: u32 where
  "T1_RENEWAL_TIME = of_nat (unat IP_ADDRESS_LEASE_TIME * 1 div 2)"

definition T2_REBIND_TIME :: u32 where
  "T2_REBIND_TIME = of_nat (unat IP_ADDRESS_LEASE_TIME * 7 div 8)"

definition DHCP_SERVER_VENDOR_CLASS_ID :: "u8 list" where
  "DHCP_SERVER_VENDOR_CLASS_ID = map (\<lambda>n. of_nat (48 + n)) [2, 0, 1, 4, 2, 1, 2, 8, 7, 3]"

definition DHCP_CLIENT_VENDOR_CLASS_ID :: "u8 list" where
  "DHCP_CLIENT_VENDOR_CLASS_ID = map (\<lambda>n. of_nat (48 + n)) [2, 0, 1, 4, 2, 1, 2, 8, 8, 0]"

definition parameter_req_list :: "u8 list" where
  "parameter_req_list =
     [OPTION_SUBNET_MASK, OPTION_ROUTER, OPTION_DOMAIN_NAME_SERVER,
      OPTION_IP_ADDRESS_LEASE_TIME, OPTION_IP_T1_RENEWAL_TIME, OPTION_IP_T2_REBIND_TIME,
      OPTION_VENDOR_CLASS_IDENTIFIER]"

lemma T1_T2_values [simp]: "T1_RENEWAL_TIME = 16" "T2_REBIND_TIME = 28"
  by (simp_all add: T1_RENEWAL_TIME_def T2_REBIND_TIME_def)

lemma length_vendor [simp]:
  "length DHCP_SERVER_VENDOR_CLASS_ID = 10" "length DHCP_CLIENT_VENDOR_CLASS_ID = 10"
  "length parameter_req_list = 7"
  by (simp_all add: DHCP_SERVER_VENDOR_CLASS_ID_def DHCP_CLIENT_VENDOR_CLASS_ID_def
      parameter_req_list_def)

section \<open>The message\<close>

record dhcp_t =
  opcode :: u8
  htype :: u8
  hlen :: u8
  hops :: u8
  xid :: u32
  secs :: u16
  flags :: u16
  ciaddr :: u32
  yiaddr :: u32
  siaddr :: u32
  giaddr :: u32
  chaddr :: "u8 list"
  sname :: "u8 list"
  fname :: "u8 list"
  magic_cookie :: u32
  options :: "u8 list"

definition wf_dhcp :: "dhcp_t \<Rightarrow> bool" where
  "wf_dhcp d \<longleftrightarrow> length (chaddr d) = 16 \<and> length (sname d) = 64 \<and> length (fname d) = 128
     \<and> length (options d) = DHCP_MAX_OPTION_LEN"

abbreviation sizeof_dhcp_t :: nat where
  "sizeof_dhcp_t \<equiv> DHCP_FIXED_NON_UDP + DHCP_MAX_OPTION_LEN"

text \<open>The struct as the bytes of its memory, in the order of its fields; it has no padding.\<close>

definition dhcp_header :: "dhcp_t \<Rightarrow> u8 list" where
  "dhcp_header d =
     [opcode d, htype d, hlen d, hops d] @ bytes_le32 (xid d) @ bytes_le16 (secs d) @
     bytes_le16 (flags d) @ bytes_le32 (ciaddr d) @ bytes_le32 (yiaddr d) @
     bytes_le32 (siaddr d) @ bytes_le32 (giaddr d) @ chaddr d @ sname d @ fname d @
     bytes_le32 (magic_cookie d)"

definition dhcp_bytes :: "dhcp_t \<Rightarrow> u8 list" where
  "dhcp_bytes d = dhcp_header d @ options d"

definition dhcp_of_bytes :: "u8 list \<Rightarrow> dhcp_t" where
  "dhcp_of_bytes m = \<lparr>
     opcode = m ! 0, htype = m ! 1, hlen = m ! 2, hops = m ! 3,
     xid = word_le32 (take 4 (drop 4 m)),
     secs = word_le16 (take 2 (drop 8 m)),
     flags = word_le16 (take 2 (drop 10 m)),
     ciaddr = word_le32 (take 4 (drop 12 m)),
     yiaddr = word_le32 (take 4 (drop 16 m)),
     siaddr = word_le32 (take 4 (drop 20 m)),
     giaddr = word_le32 (take 4 (drop 24 m)),
     chaddr = take 16 (drop 28 m),
     sname = take 64 (drop 44 m),
     fname = take 128 (drop 108 m),
     magic_cookie = word_le32 (take 4 (drop 236 m)),
     options = drop 240 m\<rparr>"

text \<open>
  \<open>recvfrom(sock, &dhcp, sizeof(struct dhcp_t), ...)\<close>: the datagram, cut to the size of the
  struct, overwrites the front of the struct's memory; the bytes behind it stay.
\<close>

definition recv_dhcp :: "dhcp_t \<Rightarrow> u8 list \<Rightarrow> dhcp_t" where
  "recv_dhcp d dgram =
     dhcp_of_bytes (take sizeof_dhcp_t dgram @ drop (length dgram) (dhcp_bytes d))"

lemma length_dhcp_header: "wf_dhcp d \<Longrightarrow> length (dhcp_header d) = DHCP_FIXED_NON_UDP"
  by (simp add: wf_dhcp_def dhcp_header_def)

lemma length_dhcp_bytes: "wf_dhcp d \<Longrightarrow> length (dhcp_bytes d) = sizeof_dhcp_t"
  by (simp add: dhcp_bytes_def length_dhcp_header wf_dhcp_def)

lemma wf_dhcp_of_bytes: "length m = sizeof_dhcp_t \<Longrightarrow> wf_dhcp (dhcp_of_bytes m)"
  by (simp add: wf_dhcp_def dhcp_of_bytes_def)

lemma wf_recv_dhcp: "wf_dhcp d \<Longrightarrow> wf_dhcp (recv_dhcp d dgram)"
  unfolding recv_dhcp_def by (rule wf_dhcp_of_bytes) (auto simp: length_dhcp_bytes)

lemma dhcp_of_bytes_bytes: "wf_dhcp d \<Longrightarrow> dhcp_of_bytes (dhcp_bytes d) = d"
  by (simp add: wf_dhcp_def dhcp_of_bytes_def dhcp_bytes_def dhcp_header_def nth_append)

lemma take_drop_step: "i + n = j \<Longrightarrow> take n (drop i m) @ drop j m = drop i m"
  by (metis append_take_drop_id drop_drop add.commute)

lemma four_bytes: "4 \<le> length m \<Longrightarrow> [m ! 0, m ! 1, m ! 2, m ! 3] @ drop 4 m = m"
  by (cases m; cases "tl m"; cases "tl (tl m)"; cases "tl (tl (tl m))")
    (auto simp: numeral_eq_Suc)

lemma dhcp_bytes_of_bytes:
  assumes "length m = sizeof_dhcp_t"
  shows "dhcp_bytes (dhcp_of_bytes m) = m"
  using assms
  by (simp add: dhcp_of_bytes_def dhcp_bytes_def dhcp_header_def bytes_le32_word bytes_le16_word
      take_drop_step four_bytes [simplified])

text \<open>
  The receiver's view of a datagram that is the front of a message: the fixed part is the
  sender's, the options are the sender's as far as the datagram goes, and what the buffer held
  before from there on.
\<close>

lemma recv_dhcp_prefix:
  assumes "wf_dhcp d" "wf_dhcp d'" "DHCP_FIXED_NON_UDP \<le> n" "n \<le> sizeof_dhcp_t"
  shows "recv_dhcp d (take n (dhcp_bytes d')) =
         d'\<lparr>options := take (n - DHCP_FIXED_NON_UDP) (options d')
                      @ drop (n - DHCP_FIXED_NON_UDP) (options d)\<rparr>"
proof -
  let ?r = "d'\<lparr>options := take (n - DHCP_FIXED_NON_UDP) (options d')
                      @ drop (n - DHCP_FIXED_NON_UDP) (options d)\<rparr>"
  have r: "wf_dhcp ?r" using assms by (simp add: wf_dhcp_def)
  have h: "length (dhcp_header d') = 240" "length (dhcp_header d) = 240"
    using length_dhcp_header assms(1,2) by simp_all
  have "dhcp_header ?r = dhcp_header d'" by (simp add: dhcp_header_def)
  then have "take sizeof_dhcp_t (take n (dhcp_bytes d')) @ drop n (dhcp_bytes d) = dhcp_bytes ?r"
    using assms(3,4) h by (simp add: dhcp_bytes_def)
  moreover have "length (take n (dhcp_bytes d')) = n"
    using assms(4) by (simp add: length_dhcp_bytes [OF assms(2)])
  ultimately show ?thesis
    by (simp add: recv_dhcp_def dhcp_of_bytes_bytes [OF r])
qed

text \<open>A message whose memory is all zero bytes: a global variable, or one after \<open>memset\<close>.\<close>

definition zero_msg :: dhcp_t where
  "zero_msg = dhcp_of_bytes (replicate sizeof_dhcp_t 0)"

lemma wf_zero_msg: "wf_dhcp zero_msg"
  unfolding zero_msg_def by (rule wf_dhcp_of_bytes) simp

lemma zero_msg_arrays: "chaddr zero_msg = replicate 16 0" "options zero_msg = replicate DHCP_MAX_OPTION_LEN 0"
  by (simp_all add: zero_msg_def dhcp_of_bytes_def)

section \<open>Options of a message\<close>

text \<open>Option \<open>ty\<close> of the message is the four bytes of \<open>v\<close>.\<close>

definition addr_option :: "dhcp_t \<Rightarrow> u8 \<Rightarrow> u32 \<Rightarrow> bool" where
  "addr_option d ty v \<longleftrightarrow>
     (\<exists>i. get_dhcp_option (options d) ty = Inr (OptAt 4 i) \<and> load32 (options d) (Some i) = Inr v)"

text \<open>Option 53 of the message is the byte \<open>m\<close>.\<close>

definition type_option :: "dhcp_t \<Rightarrow> u8 \<Rightarrow> bool" where
  "type_option d m \<longleftrightarrow>
     (\<exists>i. get_dhcp_option (options d) OPTION_DHCP_MESSAGE_TYPE = Inr (OptAt 1 i) \<and>
          load8 (options d) (Some i) = Inr m)"

lemma type_option_first: "options d = OPTION_DHCP_MESSAGE_TYPE # 1 # m # rest \<Longrightarrow> type_option d m"
  using get_dhcp_option_found [of "[]" OPTION_DHCP_MESSAGE_TYPE "[m]" rest]
  by (simp add: type_option_def enc_opt_def load8_def)

section \<open>Printing a message\<close>

text \<open>
  \<open>dhcp_dump\<close> as the list of the lines it prints: label and number (decimal or hexadecimal) or
  address (the four bytes of \<open>s_addr\<close> in memory order, which \<open>inet_ntoa\<close> prints dotted).
\<close>

datatype printed = Dec nat | Hex nat | Addr "u8 list"

definition dhcp_dump :: "dhcp_t \<Rightarrow> (string \<times> printed) list" where
  "dhcp_dump dhcp_reply =
     [(''op'', Dec (unat (opcode dhcp_reply))),
      (''htype'', Dec (unat (htype dhcp_reply))),
      (''hlen'', Dec (unat (hlen dhcp_reply))),
      (''hops'', Dec (unat (hops dhcp_reply))),
      (''xid'', Hex (unat (ntohl (xid dhcp_reply)))),
      (''secs'', Dec (unat (secs dhcp_reply))),
      (''flags'', Hex (unat (flags dhcp_reply))),
      (''ciaddr'', Addr (bytes_le32 (ciaddr dhcp_reply))),
      (''yiaddr'', Addr (bytes_le32 (yiaddr dhcp_reply))),
      (''ciaddr'', Addr (bytes_le32 (siaddr dhcp_reply))),
      (''ciaddr'', Addr (bytes_le32 (giaddr dhcp_reply)))]"

section \<open>Properties\<close>

text \<open>
  A datagram shorter than the struct leaves the rest of the receive buffer as it was: the
  message the program then reads has the sender's fixed part and, behind the options that
  arrived, the options of the message received before.
\<close>

theorem recv_dhcp_keeps_tail:
  assumes "wf_dhcp old" "wf_dhcp d" "DHCP_FIXED_NON_UDP + k \<le> sizeof_dhcp_t"
  shows "recv_dhcp old (take (DHCP_FIXED_NON_UDP + k) (dhcp_bytes d)) =
         d\<lparr>options := take k (options d) @ drop k (options old)\<rparr>"
  using recv_dhcp_prefix [OF assms(1,2), of "DHCP_FIXED_NON_UDP + k"] assms(3) by simp

theorem recv_dhcp_keeps_tail_witness:
  "let old = dhcp_of_bytes (replicate sizeof_dhcp_t 7);
       d = dhcp_of_bytes (replicate sizeof_dhcp_t 0)
   in options (recv_dhcp old (take (DHCP_FIXED_NON_UDP + 3) (dhcp_bytes d))) ! 3 = 7"
proof -
  let ?old = "dhcp_of_bytes (replicate sizeof_dhcp_t 7)"
  let ?d = "dhcp_of_bytes (replicate sizeof_dhcp_t 0)"
  have "recv_dhcp ?old (take (DHCP_FIXED_NON_UDP + 3) (dhcp_bytes ?d)) =
        ?d\<lparr>options := take 3 (options ?d) @ drop 3 (options ?old)\<rparr>"
    by (rule recv_dhcp_keeps_tail) (simp_all add: wf_dhcp_of_bytes)
  then show ?thesis by (simp add: dhcp_of_bytes_def nth_append)
qed

text \<open>
  What \<open>dhcp_dump\<close> prints of a message with the broadcast flag: the flag in host order,
  and the server and relay addresses under the label of the client address.
\<close>

theorem dhcp_dump_labels:
  "flags d = htons BOOTP_FLAGS_BROADCAST \<Longrightarrow>
   (''flags'', Hex 0x80) \<in> set (dhcp_dump d) \<and>
   map snd (filter (\<lambda>p. fst p = ''ciaddr'') (dhcp_dump d)) =
     map (Addr \<circ> bytes_le32) [ciaddr d, siaddr d, giaddr d]"
  by (simp add: dhcp_dump_def htons_def word_le16_def bytes_le16_def)

theorem dhcp_dump_labels_witness:
  "(''flags'', Hex 0x80) \<in>
     set (dhcp_dump ((dhcp_of_bytes (replicate sizeof_dhcp_t 0))\<lparr>flags := htons BOOTP_FLAGS_BROADCAST\<rparr>))"
  using dhcp_dump_labels
    [of "(dhcp_of_bytes (replicate sizeof_dhcp_t 0))\<lparr>flags := htons BOOTP_FLAGS_BROADCAST\<rparr>"]
  by simp

end
