(* ===== verification/Lease_Table.thy ===== *)
theory Lease_Table
  imports Dhcp_Packet
begin

text \<open>
  The server's table of leases (\<open>src/dhcp-server.c\<close>): the list behind \<open>lease_head\<close> without
  its dummy node, and the counter \<open>num_of_lease\<close>. The values of \<open>time(NULL)\<close> are arguments,
  one for each call, and so are the numbers that \<open>rand()\<close> returns after \<open>srand\<close>. \<open>malloc\<close>
  is taken to succeed, as the code does.
\<close>

section \<open>The table\<close>

abbreviation (input) IP_ADDRESS_POOL_AMOUNT :: nat where "IP_ADDRESS_POOL_AMOUNT \<equiv> 100"

record lease_t =
  time_stamp :: int
  addr :: u32
  lease_chaddr :: "u8 list"

record lease_table =
  leases :: "lease_t list"
  num_of_lease :: i32

definition empty_table :: lease_table where
  "empty_table = \<lparr>leases = [], num_of_lease = 0\<rparr>"

lemma empty_table_simps [simp]: "leases empty_table = []" "num_of_lease empty_table = 0"
  by (simp_all add: empty_table_def)

text \<open>\<open>memcmp(a, b, HARDWARE_ADDRESS_LENGTH) == 0\<close>.\<close>

definition same_mac :: "u8 list \<Rightarrow> u8 list \<Rightarrow> bool" where
  "same_mac a b \<longleftrightarrow> take HARDWARE_ADDRESS_LENGTH a = take HARDWARE_ADDRESS_LENGTH b"

section \<open>check_ipaddr\<close>

fun check_leases :: "lease_t list \<Rightarrow> int \<Rightarrow> u32 \<Rightarrow> u8 list \<Rightarrow> int" where
  "check_leases [] now req_ip mac = 1"
| "check_leases (l # ls) now req_ip mac =
     (if addr l = req_ip then
        if time_stamp l + uint IP_ADDRESS_LEASE_TIME > now then
          if \<not> same_mac (lease_chaddr l) mac then -1 else 1
        else 1
      else check_leases ls now req_ip mac)"

definition check_ipaddr :: "lease_table \<Rightarrow> int \<Rightarrow> u32 \<Rightarrow> u8 list \<Rightarrow> int" where
  "check_ipaddr t now ip mac =
     (let req_ip = ntohl ip in
      if req_ip < IP_ADDRESS_POOL_START \<or>
         IP_ADDRESS_POOL_START + of_nat IP_ADDRESS_POOL_AMOUNT - 1 < req_ip then -1
      else check_leases (leases t) now req_ip mac)"

section \<open>allocate_ip\<close>

text \<open>The search for a lease of the same MAC: its address, and the list with its time renewed.\<close>

fun renew_mac :: "lease_t list \<Rightarrow> int \<Rightarrow> u8 list \<Rightarrow> (u32 \<times> lease_t list) option" where
  "renew_mac [] now mac = None"
| "renew_mac (l # ls) now mac =
     (if same_mac (lease_chaddr l) mac then Some (addr l, l\<lparr>time_stamp := now\<rparr> # ls)
      else map_option (\<lambda>(a, ls'). (a, l # ls')) (renew_mac ls now mac))"

fun addr_taken :: "lease_t list \<Rightarrow> u32 \<Rightarrow> bool" where
  "addr_taken [] ip = False"
| "addr_taken (l # ls) ip = (if addr l = ip then True else addr_taken ls ip)"

text \<open>
  The loop \<open>outer: ... goto outer\<close>, with the \<open>k\<close>-th value of \<open>rand()\<close>. Nothing in the code
  bounds it; \<open>None\<close> is a run that never leaves it.
\<close>

partial_function (option) pick_ip :: "lease_t list \<Rightarrow> (nat \<Rightarrow> nat) \<Rightarrow> nat \<Rightarrow> u32 option" where
  "pick_ip ls rnd k =
     (let num = rnd k mod IP_ADDRESS_POOL_AMOUNT;
          new_ip = IP_ADDRESS_POOL_START + of_nat num
      in if addr_taken ls new_ip then pick_ip ls rnd (Suc k) else Some new_ip)"

text \<open>The result is the return value, \<open>*new_ip\<close> if it was written, and the table.\<close>

definition allocate_ip ::
    "lease_table \<Rightarrow> int \<Rightarrow> (nat \<Rightarrow> nat) \<Rightarrow> u8 list \<Rightarrow> (int \<times> u32 option \<times> lease_table) res" where
  "allocate_ip t now rnd mac =
     (case renew_mac (leases t) now mac of
        Some (a, ls) \<Rightarrow> Inr (0, Some a, t\<lparr>leases := ls\<rparr>)
      | None \<Rightarrow>
          if sint (num_of_lease t) > int IP_ADDRESS_POOL_AMOUNT - 1 then Inr (-1, None, t)
          else (case pick_ip (leases t) rnd 0 of
                  None \<Rightarrow> Inl Diverges
                | Some new_ip \<Rightarrow> Inr (0, Some new_ip, t)))"

section \<open>add_lease and delete_lease\<close>

fun renew_addr :: "lease_t list \<Rightarrow> int \<Rightarrow> u32 \<Rightarrow> lease_t list option" where
  "renew_addr [] now ip = None"
| "renew_addr (l # ls) now ip =
     (if addr l = ip then Some (l\<lparr>time_stamp := now\<rparr> # ls)
      else map_option ((#) l) (renew_addr ls now ip))"

definition add_lease :: "lease_table \<Rightarrow> int \<Rightarrow> u32 \<Rightarrow> u8 list \<Rightarrow> lease_table" where
  "add_lease t now new_ip mac =
     (case renew_addr (leases t) now (ntohl new_ip) of
        Some ls \<Rightarrow> t\<lparr>leases := ls\<rparr>
      | None \<Rightarrow>
          t\<lparr>leases := leases t @ [\<lparr>time_stamp = now, addr = ntohl new_ip,
                                   lease_chaddr = take HARDWARE_ADDRESS_LENGTH mac\<rparr>],
            num_of_lease := num_of_lease t + 1\<rparr>)"

fun remove_lease :: "lease_t list \<Rightarrow> u32 \<Rightarrow> u8 list \<Rightarrow> lease_t list option" where
  "remove_lease [] ip mac = None"
| "remove_lease (l # ls) ip mac =
     (if addr l = ip \<and> same_mac (lease_chaddr l) mac then Some ls
      else map_option ((#) l) (remove_lease ls ip mac))"

definition delete_lease :: "lease_table \<Rightarrow> u32 \<Rightarrow> u8 list \<Rightarrow> lease_table" where
  "delete_lease t ip mac =
     (case remove_lease (leases t) (ntohl ip) mac of
        Some ls \<Rightarrow> t\<lparr>leases := ls, num_of_lease := num_of_lease t - 1\<rparr>
      | None \<Rightarrow> t)"

section \<open>The table as a map\<close>

text \<open>
  Abstractly the table is a finite map from addresses to the MAC that holds the address and the
  time of the grant. The invariant under which the list is that map: no address twice, and the
  counter counts, modulo \<open>2^32\<close>.
\<close>

definition lease_inv :: "lease_table \<Rightarrow> bool" where
  "lease_inv t \<longleftrightarrow> distinct (map addr (leases t)) \<and> num_of_lease t = of_nat (length (leases t))
     \<and> (\<forall>l \<in> set (leases t). length (lease_chaddr l) \<le> HARDWARE_ADDRESS_LENGTH)"

definition lease_entry :: "lease_t \<Rightarrow> u32 \<times> u8 list \<times> int" where
  "lease_entry l = (addr l, lease_chaddr l, time_stamp l)"

definition lease_map :: "lease_table \<Rightarrow> u32 \<rightharpoonup> u8 list \<times> int" where
  "lease_map t = map_of (map lease_entry (leases t))"

definition in_pool :: "u32 \<Rightarrow> bool" where
  "in_pool a \<longleftrightarrow> IP_ADDRESS_POOL_START \<le> a \<and> a < IP_ADDRESS_POOL_START + of_nat IP_ADDRESS_POOL_AMOUNT"

text \<open>What \<open>check_ipaddr\<close> promises: the address is of the pool and no other MAC holds it now.\<close>

definition may_use :: "(u32 \<rightharpoonup> u8 list \<times> int) \<Rightarrow> int \<Rightarrow> u32 \<Rightarrow> u8 list \<Rightarrow> bool" where
  "may_use m now a mac \<longleftrightarrow> in_pool a \<and>
     (case m a of None \<Rightarrow> True
      | Some (mac', ts) \<Rightarrow> ts + uint IP_ADDRESS_LEASE_TIME \<le> now \<or> same_mac mac' mac)"

text \<open>
  The abstract operations. Granting an address that has an entry renews the entry's time and
  keeps its MAC; revoking removes the entry if the MAC is the one recorded.
\<close>

definition grant_map ::
    "(u32 \<rightharpoonup> u8 list \<times> int) \<Rightarrow> int \<Rightarrow> u32 \<Rightarrow> u8 list \<Rightarrow> u32 \<rightharpoonup> u8 list \<times> int" where
  "grant_map m now a mac =
     m(a \<mapsto> (case m a of None \<Rightarrow> take HARDWARE_ADDRESS_LENGTH mac | Some (mac', ts) \<Rightarrow> mac', now))"

definition revoke_map ::
    "(u32 \<rightharpoonup> u8 list \<times> int) \<Rightarrow> u32 \<Rightarrow> u8 list \<Rightarrow> u32 \<rightharpoonup> u8 list \<times> int" where
  "revoke_map m a mac =
     (case m a of Some (mac', ts) \<Rightarrow> if same_mac mac' mac then m(a := None) else m | None \<Rightarrow> m)"

lemma lease_entry_simps [simp]:
  "fst (lease_entry l) = addr l"
  "lease_entry (l\<lparr>time_stamp := now\<rparr>) = (addr l, lease_chaddr l, now)"
  by (simp_all add: lease_entry_def)

lemma same_mac_refl [simp]: "same_mac a a"
  by (simp add: same_mac_def)

lemma same_mac_take [simp]:
  "same_mac (take HARDWARE_ADDRESS_LENGTH a) b = same_mac a b"
  "same_mac b (take HARDWARE_ADDRESS_LENGTH a) = same_mac b a"
  by (simp_all add: same_mac_def)

lemma same_mac_sym: "same_mac a b \<longleftrightarrow> same_mac b a"
  by (auto simp: same_mac_def)

lemma same_mac_trans: "same_mac a b \<Longrightarrow> same_mac b c \<Longrightarrow> same_mac a c"
  by (simp add: same_mac_def)

lemma in_pool_alt:
  "in_pool a \<longleftrightarrow> \<not> (a < IP_ADDRESS_POOL_START \<or>
                   IP_ADDRESS_POOL_START + of_nat IP_ADDRESS_POOL_AMOUNT - 1 < a)"
  unfolding in_pool_def by unat_arith

lemma map_addr_entries: "map fst (map lease_entry ls) = map addr ls"
  by simp

subsection \<open>The loops over the list\<close>

lemma check_leases_spec:
  "0 < check_leases ls now a mac \<longleftrightarrow>
   (case map_of (map lease_entry ls) a of None \<Rightarrow> True
    | Some (mac', ts) \<Rightarrow> ts + uint IP_ADDRESS_LEASE_TIME \<le> now \<or> same_mac mac' mac)"
  by (induction ls) (auto simp: lease_entry_def)

lemma check_leases_range: "check_leases ls now a mac \<in> {-1, 1}"
  by (induction ls) auto

lemma renew_mac_SomeD:
  assumes "renew_mac ls now mac = Some (a, ls')"
  obtains pre l post where "ls = pre @ l # post" "ls' = pre @ l\<lparr>time_stamp := now\<rparr> # post"
    "a = addr l" "same_mac (lease_chaddr l) mac" "\<forall>x \<in> set pre. \<not> same_mac (lease_chaddr x) mac"
  using assms
proof (induction ls arbitrary: ls' thesis)
  case Nil
  then show ?case by simp
next
  case (Cons x ls)
  show ?case
  proof (cases "same_mac (lease_chaddr x) mac")
    case True
    then show ?thesis using Cons.prems(1) [of "[]" x ls] Cons.prems(2) by auto
  next
    case False
    then obtain ls1 where 1: "renew_mac ls now mac = Some (a, ls1)" and ls': "ls' = x # ls1"
      using Cons.prems(2) by auto
    obtain pre l post where "ls = pre @ l # post" "ls1 = pre @ l\<lparr>time_stamp := now\<rparr> # post"
      "a = addr l" "same_mac (lease_chaddr l) mac" "\<forall>y \<in> set pre. \<not> same_mac (lease_chaddr y) mac"
      using Cons.IH [OF _ 1] by blast
    then show ?thesis using Cons.prems(1) [of "x # pre" l post] False ls' by auto
  qed
qed

lemma renew_mac_None:
  "renew_mac ls now mac = None \<longleftrightarrow> (\<forall>l \<in> set ls. \<not> same_mac (lease_chaddr l) mac)"
  by (induction ls) auto

lemma renew_mac_Some_iff: "(\<exists>r. renew_mac ls now mac = Some r) \<longleftrightarrow> renew_mac ls now mac \<noteq> None"
  by auto

lemma addr_taken_iff: "addr_taken ls ip \<longleftrightarrow> ip \<in> addr ` set ls"
  by (induction ls) auto

lemma renew_addr_SomeD:
  assumes "renew_addr ls now ip = Some ls'"
  obtains pre l post where "ls = pre @ l # post" "ls' = pre @ l\<lparr>time_stamp := now\<rparr> # post"
    "addr l = ip" "ip \<notin> addr ` set pre"
  using assms
proof (induction ls arbitrary: ls' thesis)
  case Nil
  then show ?case by simp
next
  case (Cons x ls)
  show ?case
  proof (cases "addr x = ip")
    case True
    then show ?thesis using Cons.prems(1) [of "[]" x ls] Cons.prems(2) by auto
  next
    case False
    then obtain ls1 where 1: "renew_addr ls now ip = Some ls1" and ls': "ls' = x # ls1"
      using Cons.prems(2) by auto
    obtain pre l post where "ls = pre @ l # post" "ls1 = pre @ l\<lparr>time_stamp := now\<rparr> # post"
      "addr l = ip" "ip \<notin> addr ` set pre"
      using Cons.IH [OF _ 1] by blast
    then show ?thesis using Cons.prems(1) [of "x # pre" l post] False ls' by auto
  qed
qed

lemma renew_addr_None: "renew_addr ls now ip = None \<longleftrightarrow> ip \<notin> addr ` set ls"
  by (induction ls) auto

lemma remove_lease_SomeD:
  assumes "remove_lease ls ip mac = Some ls'"
  obtains pre l post where "ls = pre @ l # post" "ls' = pre @ post"
    "addr l = ip" "same_mac (lease_chaddr l) mac"
  using assms
proof (induction ls arbitrary: ls' thesis)
  case Nil
  then show ?case by simp
next
  case (Cons x ls)
  show ?case
  proof (cases "addr x = ip \<and> same_mac (lease_chaddr x) mac")
    case True
    then show ?thesis using Cons.prems(1) [of "[]" x ls] Cons.prems(2) by auto
  next
    case False
    then obtain ls1 where 1: "remove_lease ls ip mac = Some ls1" and ls': "ls' = x # ls1"
      using Cons.prems(2) by (auto split: if_splits)
    obtain pre l post where "ls = pre @ l # post" "ls1 = pre @ post"
      "addr l = ip" "same_mac (lease_chaddr l) mac"
      using Cons.IH [OF _ 1] by blast
    then show ?thesis using Cons.prems(1) [of "x # pre" l post] ls' by auto
  qed
qed

lemma remove_lease_None:
  "remove_lease ls ip mac = None \<longleftrightarrow> (\<forall>l \<in> set ls. \<not> (addr l = ip \<and> same_mac (lease_chaddr l) mac))"
  by (induction ls) auto

subsection \<open>The random search\<close>

lemma pick_ip_step:
  "pick_ip ls rnd k =
     (let new_ip = IP_ADDRESS_POOL_START + of_nat (rnd k mod IP_ADDRESS_POOL_AMOUNT)
      in if addr_taken ls new_ip then pick_ip ls rnd (Suc k) else Some new_ip)"
  by (subst pick_ip.simps) (simp add: Let_def)

lemma in_pool_offset: "n < IP_ADDRESS_POOL_AMOUNT \<Longrightarrow> in_pool (IP_ADDRESS_POOL_START + of_nat n)"
proof -
  assume n: "n < IP_ADDRESS_POOL_AMOUNT"
  then have "unat (of_nat n :: u32) = n"
    by (simp add: unat_of_nat take_bit_eq_mod)
  then show ?thesis
    using n by (simp add: in_pool_def word_le_nat_alt word_less_nat_alt unat_word_ariths)
qed

lemma in_poolE:
  assumes "in_pool a"
  obtains n where "n < IP_ADDRESS_POOL_AMOUNT" "a = IP_ADDRESS_POOL_START + of_nat n"
proof
  show "a = IP_ADDRESS_POOL_START + of_nat (unat (a - IP_ADDRESS_POOL_START))"
    by simp
  show "unat (a - IP_ADDRESS_POOL_START) < IP_ADDRESS_POOL_AMOUNT"
    using assms unfolding in_pool_def by unat_arith
qed

lemma pick_ip_result:
  assumes "pick_ip ls rnd k = Some a"
  shows "in_pool a \<and> a \<notin> addr ` set ls"
proof (rule pick_ip.raw_induct
    [where P = "\<lambda>ls rnd k a. in_pool a \<and> a \<notin> addr ` set ls", OF _ assms])
  fix f :: "lease_t list \<Rightarrow> (nat \<Rightarrow> nat) \<Rightarrow> nat \<Rightarrow> u32 option" and ls rnd k a
  assume IH: "\<And>ls rnd k a. f ls rnd k = Some a \<Longrightarrow> in_pool a \<and> a \<notin> addr ` set ls"
    and eq: "(let num = rnd k mod IP_ADDRESS_POOL_AMOUNT; new_ip = IP_ADDRESS_POOL_START + of_nat num
              in if addr_taken ls new_ip then f ls rnd (Suc k) else Some new_ip) = Some a"
  show "in_pool a \<and> a \<notin> addr ` set ls"
    using eq IH [of ls rnd "Suc k" a] in_pool_offset [of "rnd k mod IP_ADDRESS_POOL_AMOUNT"]
    by (auto simp: Let_def addr_taken_iff split: if_splits)
qed

text \<open>The search ends as soon as the random numbers hit a free address.\<close>

lemma pick_ip_terminates:
  assumes "\<not> addr_taken ls (IP_ADDRESS_POOL_START + of_nat (rnd n mod IP_ADDRESS_POOL_AMOUNT))"
    and "k \<le> n"
  shows "\<exists>a. pick_ip ls rnd k = Some a"
  using assms(2)
proof (induction "n - k" arbitrary: k)
  case 0
  then show ?case using assms(1) by (subst pick_ip_step) (simp add: Let_def)
next
  case (Suc d)
  then have "\<exists>a. pick_ip ls rnd (Suc k) = Some a" by simp
  then show ?case by (subst pick_ip_step) (simp add: Let_def)
qed

lemma pool_offset_inj: "inj_on (\<lambda>n. IP_ADDRESS_POOL_START + of_nat n :: u32) {..<IP_ADDRESS_POOL_AMOUNT}"
proof (rule inj_onI)
  fix i j assume "i \<in> {..<IP_ADDRESS_POOL_AMOUNT}" "j \<in> {..<IP_ADDRESS_POOL_AMOUNT}"
    and "IP_ADDRESS_POOL_START + of_nat i = (IP_ADDRESS_POOL_START + of_nat j :: u32)"
  then have "unat (of_nat i :: u32) = unat (of_nat j :: u32)" "i < 100" "j < 100"
    by auto
  then show "i = j" by (simp add: unat_of_nat take_bit_eq_mod)
qed

lemma pool_has_free_address:
  assumes "length ls < IP_ADDRESS_POOL_AMOUNT"
  shows "\<exists>n < IP_ADDRESS_POOL_AMOUNT. \<not> addr_taken ls (IP_ADDRESS_POOL_START + of_nat n)"
proof (rule ccontr)
  assume "\<not> ?thesis"
  then have "(\<lambda>n. IP_ADDRESS_POOL_START + of_nat n) ` {..<IP_ADDRESS_POOL_AMOUNT} \<subseteq> addr ` set ls"
    by (auto simp: addr_taken_iff)
  then have "card ((\<lambda>n. IP_ADDRESS_POOL_START + of_nat n :: u32) ` {..<IP_ADDRESS_POOL_AMOUNT})
      \<le> card (addr ` set ls)"
    by (intro card_mono) auto
  also have "\<dots> \<le> length ls"
    using card_image_le [of "set ls" addr] card_length [of ls] by simp
  finally show False
    using assms by (simp add: card_image [OF pool_offset_inj])
qed

text \<open>A random source that produces every residue is enough for the search to end.\<close>

definition covers_pool :: "(nat \<Rightarrow> nat) \<Rightarrow> bool" where
  "covers_pool rnd \<longleftrightarrow> (\<forall>n < IP_ADDRESS_POOL_AMOUNT. \<exists>k. rnd k mod IP_ADDRESS_POOL_AMOUNT = n)"

lemma pick_ip_total:
  assumes "length ls < IP_ADDRESS_POOL_AMOUNT" "covers_pool rnd"
  obtains a where "pick_ip ls rnd 0 = Some a" "in_pool a" "a \<notin> addr ` set ls"
proof -
  obtain n where n: "n < IP_ADDRESS_POOL_AMOUNT"
    "\<not> addr_taken ls (IP_ADDRESS_POOL_START + of_nat n)"
    using pool_has_free_address [OF assms(1)] by blast
  obtain k where k: "rnd k mod IP_ADDRESS_POOL_AMOUNT = n"
    using assms(2) n(1) unfolding covers_pool_def by blast
  have "\<not> addr_taken ls (IP_ADDRESS_POOL_START + of_nat (rnd k mod IP_ADDRESS_POOL_AMOUNT))"
    using n(2) by (simp only: k not_False_eq_True)
  then obtain a where "pick_ip ls rnd 0 = Some a"
    using pick_ip_terminates [of ls rnd k 0] by blast
  with pick_ip_result [OF this] that show thesis by blast
qed

subsection \<open>The operations on the map\<close>

lemma map_of_renewed:
  assumes "distinct (map addr (pre @ l # post))"
  shows "map_of (map lease_entry (pre @ l\<lparr>time_stamp := now\<rparr> # post)) =
         (map_of (map lease_entry (pre @ l # post)))(addr l \<mapsto> (lease_chaddr l, now))"
proof -
  have "map_of (map lease_entry pre) (addr l) = None"
    using assms by (simp add: map_of_eq_None_iff image_image)
  then show ?thesis
    by (simp add: fun_eq_iff map_add_def lease_entry_def split: option.splits)
qed

lemma lease_map_dom: "dom (lease_map t) = addr ` set (leases t)"
  by (simp add: lease_map_def dom_map_of_conv_image_fst image_image)

lemma lease_map_middle:
  assumes "leases t = pre @ l # post" "distinct (map addr (leases t))"
  shows "lease_map t (addr l) = Some (lease_chaddr l, time_stamp l)"
proof -
  have "map_of (map lease_entry pre) (addr l) = None"
    using assms by (simp add: map_of_eq_None_iff image_image)
  then show ?thesis
    by (simp add: assms(1) lease_map_def map_add_def lease_entry_def)
qed

lemma lease_map_SomeD:
  assumes "lease_map t a = Some (mac, ts)"
  shows "\<lparr>time_stamp = ts, addr = a, lease_chaddr = mac\<rparr> \<in> set (leases t)"
proof -
  obtain l where "l \<in> set (leases t)" "lease_entry l = (a, mac, ts)"
    using map_of_SomeD [OF assms [unfolded lease_map_def]] by auto
  moreover from this(2) have "l = \<lparr>time_stamp = ts, addr = a, lease_chaddr = mac\<rparr>"
    by (cases l) (simp add: lease_entry_def)
  ultimately show ?thesis by simp
qed

lemma add_lease_map:
  assumes "lease_inv t"
  shows "lease_map (add_lease t now ip mac) =
         grant_map (lease_map t) now (ntohl ip) mac"
proof (cases "renew_addr (leases t) now (ntohl ip)")
  case None
  then have "lease_map t (ntohl ip) = None"
    using lease_map_dom [of t] by (auto simp: renew_addr_None)
  with None show ?thesis
    by (simp add: add_lease_def lease_map_def grant_map_def lease_entry_def fun_eq_iff map_add_def
        split: option.splits)
next
  case (Some ls)
  then obtain pre l post where "leases t = pre @ l # post" "ls = pre @ l\<lparr>time_stamp := now\<rparr> # post"
    "addr l = ntohl ip"
    by (rule renew_addr_SomeD)
  with Some assms show ?thesis
    using map_of_renewed [of pre l post now] lease_map_middle [of t pre l post]
    by (simp add: add_lease_def lease_map_def grant_map_def lease_inv_def)
qed

lemma add_lease_inv:
  assumes "lease_inv t"
  shows "lease_inv (add_lease t now ip mac)"
proof (cases "renew_addr (leases t) now (ntohl ip)")
  case None
  with assms renew_addr_None [THEN iffD1, OF None] show ?thesis
    by (simp add: add_lease_def lease_inv_def ball_Un)
next
  case (Some ls)
  then have "add_lease t now ip mac = t\<lparr>leases := ls\<rparr>" by (simp add: add_lease_def)
  then show ?thesis
    by - (rule renew_addr_SomeD [OF Some], use assms in \<open>simp add: lease_inv_def ball_Un\<close>)
qed

lemma delete_lease_inv:
  assumes "lease_inv t"
  shows "lease_inv (delete_lease t ip mac)"
proof (cases "remove_lease (leases t) (ntohl ip) mac")
  case None
  with assms show ?thesis by (simp add: delete_lease_def)
next
  case (Some ls)
  then have "delete_lease t ip mac = t\<lparr>leases := ls, num_of_lease := num_of_lease t - 1\<rparr>"
    by (simp add: delete_lease_def)
  then show ?thesis
    by - (rule remove_lease_SomeD [OF Some], use assms in \<open>simp add: lease_inv_def ball_Un\<close>)
qed

lemma delete_lease_map:
  assumes "lease_inv t"
  shows "lease_map (delete_lease t ip mac) =
         revoke_map (lease_map t) (ntohl ip) mac"
proof (cases "remove_lease (leases t) (ntohl ip) mac")
  case None
  have "\<not> same_mac mac' mac" if "lease_map t (ntohl ip) = Some (mac', ts)" for mac' ts
    using lease_map_SomeD [OF that] None by (force simp: remove_lease_None)
  with None show ?thesis
    by (auto simp: delete_lease_def revoke_map_def split: option.splits)
next
  case (Some ls)
  then obtain pre l post where l: "leases t = pre @ l # post" "ls = pre @ post"
    "addr l = ntohl ip" "same_mac (lease_chaddr l) mac"
    by (rule remove_lease_SomeD)
  have none: "map_of (map lease_entry pre) (addr l) = None" "map_of (map lease_entry post) (addr l) = None"
    using assms l(1) by (auto simp: lease_inv_def map_of_eq_None_iff image_image)
  have "lease_map t (ntohl ip) = Some (lease_chaddr l, time_stamp l)"
    using lease_map_middle [OF l(1)] assms l(3) by (simp add: lease_inv_def)
  with Some l none show ?thesis
    by (auto simp: delete_lease_def lease_map_def revoke_map_def lease_entry_def fun_eq_iff map_add_def
        split: option.splits)
qed

lemma lease_inv_count:
  assumes "lease_inv t"
  shows "finite (dom (lease_map t)) \<and> num_of_lease t = of_nat (card (dom (lease_map t)))"
proof -
  have "card (addr ` set (leases t)) = length (leases t)"
    using assms distinct_card [of "map addr (leases t)"] by (simp add: lease_inv_def)
  with assms show ?thesis by (simp add: lease_map_dom lease_inv_def)
qed

lemma check_ipaddr_spec: "0 < check_ipaddr t now ip mac \<longleftrightarrow> may_use (lease_map t) now (ntohl ip) mac"
  using check_leases_spec [of "leases t" now "ntohl ip" mac]
  by (simp add: check_ipaddr_def Let_def may_use_def in_pool_alt lease_map_def)

lemma lease_map_empty [simp]: "lease_map empty_table = Map.empty"
  by (simp add: lease_map_def empty_table_def)

lemma lease_inv_empty: "lease_inv empty_table"
  by (simp add: lease_inv_def empty_table_def)

subsection \<open>Allocation\<close>

text \<open>The three outcomes of \<open>allocate_ip\<close> on a table that satisfies the invariant.\<close>

lemma allocate_ip_known:
  assumes "lease_inv t" "\<exists>l \<in> set (leases t). same_mac (lease_chaddr l) mac"
  obtains a mac' ts t' where
    "allocate_ip t now rnd mac = Inr (0, Some a, t')" "lease_inv t'"
    "lease_map t a = Some (mac', ts)" "same_mac mac' mac"
    "lease_map t' = (lease_map t)(a \<mapsto> (mac', now))" "num_of_lease t' = num_of_lease t"
proof -
  obtain a ls where r: "renew_mac (leases t) now mac = Some (a, ls)"
    using assms(2) renew_mac_None [of "leases t" now mac] by fastforce
  obtain pre l post where l: "leases t = pre @ l # post" "ls = pre @ l\<lparr>time_stamp := now\<rparr> # post"
    "a = addr l" "same_mac (lease_chaddr l) mac"
    using renew_mac_SomeD [OF r] by blast
  let ?t = "t\<lparr>leases := ls\<rparr>"
  have d: "distinct (map addr (pre @ l # post))"
    using assms(1) l(1) by (simp add: lease_inv_def)
  have "lease_inv ?t" using assms(1) by (simp add: lease_inv_def l(1,2) ball_Un)
  moreover have "lease_map ?t = (lease_map t)(a \<mapsto> (lease_chaddr l, now))"
    using map_of_renewed [OF d] by (simp add: lease_map_def l)
  moreover have "lease_map t a = Some (lease_chaddr l, time_stamp l)"
    using lease_map_middle [OF l(1)] d by (simp add: l(1,3))
  ultimately show thesis
    using that [of a ?t "lease_chaddr l" "time_stamp l"] l(4) r by (simp add: allocate_ip_def)
qed

lemma allocate_ip_full:
  assumes "\<forall>l \<in> set (leases t). \<not> same_mac (lease_chaddr l) mac"
    and "int IP_ADDRESS_POOL_AMOUNT \<le> sint (num_of_lease t)"
  shows "allocate_ip t now rnd mac = Inr (-1, None, t)"
  using assms renew_mac_None [of "leases t" now mac] by (simp add: allocate_ip_def)

lemma allocate_ip_new:
  assumes "\<forall>l \<in> set (leases t). \<not> same_mac (lease_chaddr l) mac"
    and "length (leases t) < IP_ADDRESS_POOL_AMOUNT" "lease_inv t" "covers_pool rnd"
  obtains a where "allocate_ip t now rnd mac = Inr (0, Some a, t)" "in_pool a"
    "a \<notin> dom (lease_map t)"
proof -
  from pick_ip_total [OF assms(2,4)] obtain a where
    "pick_ip (leases t) rnd 0 = Some a" "in_pool a" "a \<notin> addr ` set (leases t)" by blast
  moreover have "sint (num_of_lease t) < int IP_ADDRESS_POOL_AMOUNT"
    using assms(2,3) by (simp add: lease_inv_def)
  ultimately show thesis
    using assms(1) renew_mac_None [of "leases t" now mac]
    by (intro that [of a]) (auto simp: allocate_ip_def lease_map_dom)
qed

text \<open>The search finds a free address if there is one, and ends in no other case.\<close>

lemma allocate_ip_free:
  assumes "\<forall>l \<in> set (leases t). \<not> same_mac (lease_chaddr l) mac"
    and "\<not> int IP_ADDRESS_POOL_AMOUNT \<le> sint (num_of_lease t)"
    and "in_pool b" "b \<notin> dom (lease_map t)" "covers_pool rnd"
  shows "\<exists>a. allocate_ip t now rnd mac = Inr (0, Some a, t) \<and> in_pool a \<and> a \<notin> dom (lease_map t)"
proof -
  obtain n where n: "n < IP_ADDRESS_POOL_AMOUNT" "b = IP_ADDRESS_POOL_START + of_nat n"
    using assms(3) by (rule in_poolE)
  obtain k where k: "rnd k mod IP_ADDRESS_POOL_AMOUNT = n" using assms(5) n(1) by (auto simp: covers_pool_def)
  have "\<not> addr_taken (leases t) (IP_ADDRESS_POOL_START + of_nat (rnd k mod IP_ADDRESS_POOL_AMOUNT))"
    using assms(4) n(2) by (simp only: k addr_taken_iff lease_map_dom) simp
  then obtain a where a: "pick_ip (leases t) rnd 0 = Some a" using pick_ip_terminates [of _ _ k 0] by blast
  with pick_ip_result [OF a] assms(1,2) renew_mac_None [of "leases t" now mac] show ?thesis
    by (simp add: allocate_ip_def lease_map_dom)
qed

lemma allocate_ip_stuck:
  assumes "\<forall>l \<in> set (leases t). \<not> same_mac (lease_chaddr l) mac"
    and "\<not> int IP_ADDRESS_POOL_AMOUNT \<le> sint (num_of_lease t)" "lease_inv t"
    and "\<nexists>a. in_pool a \<and> a \<notin> dom (lease_map t)"
  shows "allocate_ip t now rnd mac = Inl Diverges \<and> 2 ^ 31 \<le> length (leases t)"
proof -
  have "pick_ip (leases t) rnd 0 = None"
    using pick_ip_result [of "leases t" rnd 0] assms(4) by (cases "pick_ip (leases t) rnd 0") (auto simp: lease_map_dom)
  moreover have "IP_ADDRESS_POOL_AMOUNT \<le> length (leases t)"
    using pool_has_free_address [of "leases t"] in_pool_offset assms(4)
    by (force simp: addr_taken_iff lease_map_dom not_less)
  then have "2 ^ 31 \<le> length (leases t)"
    using assms(2,3) by (intro leI notI) (simp add: lease_inv_def)
  ultimately show ?thesis
    using assms(1,2) renew_mac_None [of "leases t" now mac] by (simp add: allocate_ip_def)
qed

text \<open>What holds of every outcome, whatever the random numbers are.\<close>

lemma allocate_ip_cases:
  assumes "allocate_ip t now rnd mac = Inr (rc, ip, t')" "lease_inv t"
  shows "(rc = -1 \<and> ip = None \<and> t' = t \<and> int IP_ADDRESS_POOL_AMOUNT \<le> sint (num_of_lease t)) \<or>
    (\<exists>a. rc = 0 \<and> ip = Some a \<and> t' = t \<and> in_pool a \<and> a \<notin> dom (lease_map t)) \<or>
    (\<exists>a mac' ts. rc = 0 \<and> ip = Some a \<and> lease_inv t' \<and> lease_map t a = Some (mac', ts)
      \<and> same_mac mac' mac \<and> lease_map t' = (lease_map t)(a \<mapsto> (mac', now))
      \<and> num_of_lease t' = num_of_lease t)"
proof (cases "\<exists>l \<in> set (leases t). same_mac (lease_chaddr l) mac")
  case True
  from allocate_ip_known [OF assms(2) this, of now rnd] assms(1) show ?thesis
    by (metis Inr_inject Pair_inject)
next
  case False
  then have "renew_mac (leases t) now mac = None" by (simp add: renew_mac_None)
  with assms(1) pick_ip_result [of "leases t" rnd 0] show ?thesis
    by (auto simp: allocate_ip_def lease_map_dom split: if_splits option.splits)
qed

lemma allocate_ip_inv:
  "allocate_ip t now rnd mac = Inr (rc, ip, t') \<Longrightarrow> lease_inv t \<Longrightarrow> lease_inv t'"
  using allocate_ip_cases by blast

lemma allocate_ip_dom:
  assumes "allocate_ip t now rnd mac = Inr (rc, ip, t')" "lease_inv t"
  shows "dom (lease_map t') = dom (lease_map t) \<and> num_of_lease t' = num_of_lease t"
  using allocate_ip_cases [OF assms]
  by (elim disjE exE conjE) (simp_all add: insert_absorb domI)

section \<open>The interface of the table\<close>

text \<open>
  What the server relies on: an invariant, the map the table stands for, and the effect of the
  three operations on that map. The lemmas of the block are about every such store.
\<close>

locale lease_store =
  fixes inv :: "'t \<Rightarrow> bool"
    and view :: "'t \<Rightarrow> u32 \<rightharpoonup> u8 list \<times> int"
    and permits :: "'t \<Rightarrow> int \<Rightarrow> u32 \<Rightarrow> u8 list \<Rightarrow> bool"
    and grant :: "'t \<Rightarrow> int \<Rightarrow> u32 \<Rightarrow> u8 list \<Rightarrow> 't"
    and revoke :: "'t \<Rightarrow> u32 \<Rightarrow> u8 list \<Rightarrow> 't"
    and count :: "'t \<Rightarrow> i32"
  assumes permits_view: "permits t now a mac \<longleftrightarrow> may_use (view t) now a mac"
    and inv_grant: "inv t \<Longrightarrow> inv (grant t now a mac)"
    and inv_revoke: "inv t \<Longrightarrow> inv (revoke t a mac)"
    and view_grant: "inv t \<Longrightarrow> view (grant t now a mac) = grant_map (view t) now a mac"
    and view_revoke: "inv t \<Longrightarrow> view (revoke t a mac) = revoke_map (view t) a mac"
    and count_view: "inv t \<Longrightarrow> finite (dom (view t)) \<and> count t = of_nat (card (dom (view t)))"
begin

lemma grant_frame: "inv t \<Longrightarrow> b \<noteq> a \<Longrightarrow> view (grant t now a mac) b = view t b"
  by (simp add: view_grant grant_map_def)

lemma grant_count:
  "inv t \<Longrightarrow> count (grant t now a mac) = count t + (if view t a = None then 1 else 0)"
  using count_view [of t] count_view [OF inv_grant, of t now a mac]
  by (auto simp: view_grant grant_map_def card_insert_if)

lemma grant_excludes:
  "inv t \<Longrightarrow> view t a = None \<Longrightarrow> \<not> same_mac mac mac' \<Longrightarrow> now' < now + uint IP_ADDRESS_LEASE_TIME \<Longrightarrow>
   \<not> permits (grant t now a mac) now' a mac'"
  by (simp add: permits_view view_grant grant_map_def may_use_def)

lemma grant_renewable:
  "inv t \<Longrightarrow> view t a = None \<Longrightarrow> in_pool a \<Longrightarrow> permits (grant t now a mac) now' a mac"
  by (simp add: permits_view view_grant grant_map_def may_use_def)

lemma revoke_grant:
  "inv t \<Longrightarrow> view t a = None \<Longrightarrow> view (revoke (grant t now a mac) a mac) = view t"
  by (auto simp: view_revoke revoke_map_def inv_grant view_grant grant_map_def)

lemma revoke_count:
  "inv t \<Longrightarrow> count (revoke t a mac) =
     count t - (case view t a of Some (mac', ts) \<Rightarrow> if same_mac mac' mac then 1 else 0 | None \<Rightarrow> 0)"
  using count_view [of t] count_view [OF inv_revoke, of t a mac] card_gt_0_iff [of "dom (view t)"]
  by (auto simp: view_revoke revoke_map_def card_Diff_singleton_if split: option.splits if_splits)

lemma take_over:
  assumes "inv t" "view t a = Some (mac', ts)" "ts + uint IP_ADDRESS_LEASE_TIME \<le> now" "in_pool a"
    "\<not> same_mac mac' mac" "now' < now + uint IP_ADDRESS_LEASE_TIME"
  shows "permits t now a mac \<and> \<not> permits (grant t now a mac) now' a mac
         \<and> permits (grant t now a mac) now' a mac'"
  using assms by (simp add: permits_view view_grant grant_map_def may_use_def)

end

interpretation lt: lease_store lease_inv lease_map
  "\<lambda>t now a mac. 0 < check_ipaddr t now (htonl a) mac"
  "\<lambda>t now a mac. add_lease t now (htonl a) mac"
  "\<lambda>t a mac. delete_lease t (htonl a) mac"
  num_of_lease
  by unfold_locales
    (simp_all add: check_ipaddr_spec add_lease_inv delete_lease_inv add_lease_map delete_lease_map
      lease_inv_count)

section \<open>Properties\<close>

text \<open>
  C2: The list implements the map: on a table that satisfies the invariant, \<open>add_lease\<close> and
  \<open>delete_lease\<close> keep the invariant and act on the map as granting and revoking do, and
  \<open>check_ipaddr\<close> returns a positive number exactly when the address is of the pool and no
  other MAC holds an unexpired lease of it.
\<close>

theorem lease_table_refines_map:
  assumes "lease_inv t"
  shows "lease_inv (add_lease t now ip mac) \<and>
         lease_map (add_lease t now ip mac) = grant_map (lease_map t) now (ntohl ip) mac \<and>
         lease_inv (delete_lease t ip mac) \<and>
         lease_map (delete_lease t ip mac) = revoke_map (lease_map t) (ntohl ip) mac \<and>
         (0 < check_ipaddr t now ip mac \<longleftrightarrow> may_use (lease_map t) now (ntohl ip) mac)"
  using assms
  by (simp add: add_lease_inv add_lease_map delete_lease_inv delete_lease_map check_ipaddr_spec)

theorem lease_table_refines_map_witness:
  "lease_map (add_lease empty_table 5 (htonl 0xC0A80007) [1, 2, 3, 4, 5, 6, 0]) 0xC0A80007 =
   Some ([1, 2, 3, 4, 5, 6], 5)"
  using lease_table_refines_map [OF lease_inv_empty, of 5 "htonl 0xC0A80007" "[1, 2, 3, 4, 5, 6, 0]"]
  by (simp add: grant_map_def lease_map_def empty_table_def)

text \<open>
  C20: \<open>allocate_ip\<close> has four outcomes, if the random numbers reach every residue of the pool size: a
  client with a lease gets the address of its lease, renewed; otherwise a counter of 100 or more
  refuses; otherwise the search finds an address of the pool that no lease records, if there is
  one, and leaves the table as it is; and it searches for ever only when there is none although the
  counter is below 100, which takes \<open>2^31\<close> leases, so that the counter has become negative.
\<close>

theorem allocate_ip_total:
  assumes "lease_inv t" "covers_pool rnd"
  shows "if \<exists>l \<in> set (leases t). same_mac (lease_chaddr l) mac
         then \<exists>a mac' ts t'. allocate_ip t now rnd mac = Inr (0, Some a, t') \<and> lease_inv t' \<and>
                lease_map t a = Some (mac', ts) \<and> same_mac mac' mac \<and>
                lease_map t' = (lease_map t)(a \<mapsto> (mac', now))
         else if int IP_ADDRESS_POOL_AMOUNT \<le> sint (num_of_lease t)
         then allocate_ip t now rnd mac = Inr (-1, None, t)
         else if \<exists>a. in_pool a \<and> a \<notin> dom (lease_map t)
         then \<exists>a. allocate_ip t now rnd mac = Inr (0, Some a, t) \<and> in_pool a \<and> a \<notin> dom (lease_map t)
         else allocate_ip t now rnd mac = Inl Diverges \<and> 2 ^ 31 \<le> length (leases t)"
proof (cases "\<exists>l \<in> set (leases t). same_mac (lease_chaddr l) mac")
  case True
  from allocate_ip_known [OF assms(1) True, of now rnd] True show ?thesis by (simp (no_asm_simp)) metis
next
  case False
  then have none: "\<forall>l \<in> set (leases t). \<not> same_mac (lease_chaddr l) mac" by blast
  show ?thesis
  proof (cases "int IP_ADDRESS_POOL_AMOUNT \<le> sint (num_of_lease t)")
    case True
    with False allocate_ip_full [OF none True] show ?thesis by auto
  next
    case small: False
    show ?thesis
    proof (cases "\<exists>a. in_pool a \<and> a \<notin> dom (lease_map t)")
      case True
      with allocate_ip_free [OF none small _ _ assms(2)] small False show ?thesis by metis
    next
      case full: False
      with allocate_ip_stuck [OF none small assms(1)] small False show ?thesis by simp
    qed
  qed
qed

theorem allocate_ip_total_witness:
  "\<exists>a. allocate_ip empty_table 5 (\<lambda>k. k) [1, 2, 3, 4, 5, 6] = Inr (0, Some a, empty_table) \<and> in_pool a"
proof -
  have "covers_pool (\<lambda>k. k)"
    unfolding covers_pool_def by (meson mod_less)
  from allocate_ip_total [OF lease_inv_empty this, of "[1, 2, 3, 4, 5, 6]" 5]
  moreover have "in_pool IP_ADDRESS_POOL_START" by (simp add: in_pool_def)
  moreover have "leases empty_table = []" "num_of_lease empty_table = 0" by (simp_all add: empty_table_def)
  ultimately show ?thesis by (auto split: if_splits)
qed

text \<open>
  An address granted from the free part of the pool is refused to every other MAC for the
  32 seconds of the lease, and never to the MAC it was granted to.
\<close>

theorem granted_address_is_exclusive:
  assumes "lease_inv t" "lease_map t a = None" "in_pool a"
  shows "0 < check_ipaddr (add_lease t now (htonl a) mac) now' (htonl a) mac \<and>
         (\<not> same_mac mac mac' \<longrightarrow> now' < now + uint IP_ADDRESS_LEASE_TIME \<longrightarrow>
          check_ipaddr (add_lease t now (htonl a) mac) now' (htonl a) mac' \<le> 0)"
  using lt.grant_renewable [OF assms] lt.grant_excludes [OF assms(1,2)] by (simp add: not_less)

theorem granted_address_is_exclusive_witness:
  "check_ipaddr (add_lease empty_table 100 (htonl 0xC0A80009) [1, 1, 1, 1, 1, 1]) 131
     (htonl 0xC0A80009) [2, 2, 2, 2, 2, 2] \<le> 0"
  using granted_address_is_exclusive
    [OF lease_inv_empty, of "0xC0A80009" 100 "[1, 1, 1, 1, 1, 1]" 131 "[2, 2, 2, 2, 2, 2]"]
  by (simp add: same_mac_def lease_map_def empty_table_def in_pool_def)

text \<open>
  A lease that has run out is handed to another MAC without recording the new holder:
  \<open>check_ipaddr\<close> lets the new MAC have the address, but after \<open>add_lease\<close> the new holder is
  refused and the former holder accepted until the lease runs out again.
\<close>

theorem expired_lease_keeps_old_mac:
  assumes "lease_inv t" "lease_map t a = Some (old, ts)" "in_pool a"
    and "ts + uint IP_ADDRESS_LEASE_TIME \<le> now" "\<not> same_mac old mac"
    and "now' < now + uint IP_ADDRESS_LEASE_TIME"
  shows "0 < check_ipaddr t now (htonl a) mac \<and>
         check_ipaddr (add_lease t now (htonl a) mac) now' (htonl a) mac \<le> 0 \<and>
         0 < check_ipaddr (add_lease t now (htonl a) mac) now' (htonl a) old"
  using lt.take_over [OF assms(1,2,4,3,5,6)] by (simp add: not_less)

theorem expired_lease_keeps_old_mac_witness:
  "let t = add_lease empty_table 0 (htonl 0xC0A80009) [1, 1, 1, 1, 1, 1];
       t' = add_lease t 40 (htonl 0xC0A80009) [2, 2, 2, 2, 2, 2]
   in 0 < check_ipaddr t 40 (htonl 0xC0A80009) [2, 2, 2, 2, 2, 2] \<and>
      check_ipaddr t' 41 (htonl 0xC0A80009) [2, 2, 2, 2, 2, 2] \<le> 0"
proof -
  let ?t = "add_lease empty_table 0 (htonl 0xC0A80009) [1, 1, 1, 1, 1, 1]"
  have "lease_inv ?t" by (rule add_lease_inv [OF lease_inv_empty])
  moreover have "lease_map ?t 0xC0A80009 = Some ([1, 1, 1, 1, 1, 1], 0)"
    by (simp add: add_lease_map [OF lease_inv_empty] grant_map_def)
  ultimately show ?thesis
    using expired_lease_keeps_old_mac
      [of ?t "0xC0A80009" "[1, 1, 1, 1, 1, 1]" 0 40 "[2, 2, 2, 2, 2, 2]" 41]
    by (simp add: in_pool_def same_mac_def Let_def)
qed

text \<open>
  Releasing a lease undoes its grant: after \<open>add_lease\<close> of an address without a lease and
  \<open>delete_lease\<close> of the same address and MAC, the map and the counter are as before.
\<close>

theorem delete_undoes_add:
  assumes "lease_inv t" "lease_map t a = None"
  shows "lease_map (delete_lease (add_lease t now (htonl a) mac) (htonl a) mac) = lease_map t \<and>
         num_of_lease (delete_lease (add_lease t now (htonl a) mac) (htonl a) mac) = num_of_lease t"
proof -
  let ?t = "add_lease t now (htonl a) mac"
  have inv: "lease_inv ?t" by (rule add_lease_inv [OF assms(1)])
  have view: "lease_map ?t a = Some (take HARDWARE_ADDRESS_LENGTH mac, now)"
    using add_lease_map [OF assms(1), of now "htonl a" mac] assms(2) by (simp add: grant_map_def)
  show ?thesis
    using lt.revoke_grant [OF assms, of now mac] lt.revoke_count [OF inv, of a mac]
      lt.grant_count [OF assms(1), of now a mac] view assms(2)
    by simp
qed

theorem delete_undoes_add_witness:
  "num_of_lease (delete_lease (add_lease empty_table 7 (htonl 0xC0A80009) [1, 2, 3, 4, 5, 6])
     (htonl 0xC0A80009) [1, 2, 3, 4, 5, 6]) = 0"
  using delete_undoes_add [OF lease_inv_empty, of "0xC0A80009" 7 "[1, 2, 3, 4, 5, 6]"]
  by (simp add: lease_map_def empty_table_def)

end
