(* ===== verification/Dhcp_Server.thy ===== *)
theory Dhcp_Server
  imports Lease_Table
begin

text \<open>
  The server (\<open>src/dhcp-server.c\<close>). Its state is the lease table, the one message buffer
  \<open>dhcp_recv\<close>, in which a request arrives and the reply is built over it, the two socket
  addresses, and the datagrams handed to \<open>sendto\<close> so far. The handlers take the outside world
  as an argument: the values of \<open>time(NULL)\<close> at the calls that matter and the numbers of
  \<open>rand()\<close>. What a handler does after a fault is not defined.
\<close>

section \<open>State\<close>

record sockaddr_in =
  sin_port :: u16
  sin_addr :: u32

record datagram =
  dest :: sockaddr_in
  payload :: "u8 list"

record server =
  table :: lease_table
  dhcp_recv :: dhcp_t
  dhcp_server_addr :: sockaddr_in
  dhcp_client_addr :: sockaddr_in
  sent :: "datagram list"

text \<open>
  The clock at the call of \<open>check_ipaddr\<close> for a unicast reply, at the call that decides the
  reply, and where a lease is stamped; and the random numbers.
\<close>

record env =
  t_unicast :: int
  t_check :: int
  t_lease :: int
  rnd :: "nat \<Rightarrow> nat"

section \<open>Building a reply\<close>

text \<open>
  The requested address, if option 50 has four bytes and the address passes the check: the
  condition of \<open>construct_dhcp_packet\<close> and of the two tests for a unicast reply.
\<close>

definition requested_ip_ok :: "int \<Rightarrow> server \<Rightarrow> u32 option res" where
  "requested_ip_ok now s =
     (let d = dhcp_recv s in
      bind_res (get_dhcp_option (options d) OPTION_REQUESTED_IP) (\<lambda>r.
        if opt_ret r = 4 then
          bind_res (load32 (options d) (opt_set r None)) (\<lambda>ip.
            Inr (if 0 < check_ipaddr (table s) now ip (chaddr d) then Some ip else None))
        else Inr None))"

text \<open>The address of the reply, the part of \<open>construct_dhcp_packet\<close> that may return early
  (\<open>False\<close>) because the pool is used up.\<close>

definition set_yiaddr_srv :: "env \<Rightarrow> u8 \<Rightarrow> server \<Rightarrow> (bool \<times> server) res" where
  "set_yiaddr_srv e state s =
     (let d = dhcp_recv s in
      if state = DHCPNAK then
        Inr (True, s\<lparr>dhcp_recv := d\<lparr>yiaddr := htonl INADDR_ANY\<rparr>\<rparr>)
      else if state = DHCPOFFER then
        bind_res (requested_ip_ok (t_check e) s) (\<lambda>r. case r of
          Some ip \<Rightarrow> Inr (True, s\<lparr>dhcp_recv := d\<lparr>yiaddr := ip\<rparr>\<rparr>)
        | None \<Rightarrow>
            bind_res (allocate_ip (table s) (t_lease e) (rnd e) (chaddr d)) (\<lambda>(rc, offer_ip, t').
              if rc < 0 then Inr (False, s\<lparr>table := t'\<rparr>)
              else (case offer_ip of
                  None \<Rightarrow> Inl Uninitialised
                | Some ip \<Rightarrow> Inr (True, s\<lparr>table := t', dhcp_recv := d\<lparr>yiaddr := htonl ip\<rparr>\<rparr>))))
      else if state = DHCPACK \<and> ciaddr d = htonl INADDR_ANY then
        bind_res (get_dhcp_option (options d) OPTION_REQUESTED_IP) (\<lambda>r.
        bind_res (load32 (options d) (opt_set r None)) (\<lambda>ip.
          Inr (True, s\<lparr>table := add_lease (table s) (t_lease e) ip (chaddr d),
                       dhcp_recv := d\<lparr>yiaddr := ip\<rparr>\<rparr>)))
      else
        bind_res (allocate_ip (table s) (t_lease e) (rnd e) (chaddr d)) (\<lambda>(rc, offer_ip, t').
          case offer_ip of
            None \<Rightarrow> Inl Uninitialised
          | Some ip \<Rightarrow> Inr (True, s\<lparr>table := t', dhcp_recv := d\<lparr>yiaddr := htonl ip\<rparr>\<rparr>)))"

text \<open>
  The options of the reply, written over those of the request. \<open>msg_type\<close> is the pointer to the
  value of option 53 that was looked up before; it is read only after the first options of the
  reply have been written.
\<close>

definition server_options :: "u8 \<Rightarrow> nat option \<Rightarrow> u8 list \<Rightarrow> (u8 list \<times> u16) res" where
  "server_options state msg_type opts =
     bind_res (add_option OPTION_DHCP_MESSAGE_TYPE [state] (opts, 0)) (\<lambda>a1.
     bind_res (add_option OPTION_DHCP_SERVER_IDENTIFIER
       (bytes_le32 (htonl DHCP_SERVER_IP_ADDRESS)) a1) (\<lambda>a2.
     bind_res (add_option OPTION_VENDOR_CLASS_IDENTIFIER DHCP_SERVER_VENDOR_CLASS_ID a2) (\<lambda>a3.
     bind_res
       (if state \<noteq> DHCPNAK then
          bind_res (add_option OPTION_SUBNET_MASK (bytes_le32 (htonl SUBNET_MASK)) a3) (\<lambda>a4.
          bind_res (add_option OPTION_ROUTER (bytes_le32 (htonl ROUTER_IP_ADDRESS)) a4) (\<lambda>a5.
          bind_res (add_option OPTION_DOMAIN_NAME_SERVER
            (bytes_le32 (htonl DOMAIN_NAME_SERVER_ADDRESS)) a5) (\<lambda>a6.
          bind_res (load8 (fst a6) msg_type) (\<lambda>m.
            if m \<noteq> DHCPINFORM then
              bind_res (add_option OPTION_IP_ADDRESS_LEASE_TIME
                (bytes_le32 (htonl IP_ADDRESS_LEASE_TIME)) a6) (\<lambda>a7.
              bind_res (add_option OPTION_IP_T1_RENEWAL_TIME
                (bytes_le32 (htonl T1_RENEWAL_TIME)) a7) (\<lambda>a8.
              add_option OPTION_IP_T2_REBIND_TIME (bytes_le32 (htonl T2_REBIND_TIME)) a8))
            else Inr a6))))
        else Inr a3) (\<lambda>a9.
     add_option OPTION_END [0] a9))))"

definition construct_dhcp_packet_srv :: "env \<Rightarrow> u8 \<Rightarrow> server \<Rightarrow> (u16 \<times> server) res" where
  "construct_dhcp_packet_srv e state s =
     (let s1 = s\<lparr>dhcp_recv := (dhcp_recv s)\<lparr>opcode := BOOTP_MESSAGE_TYPE_REPLY\<rparr>\<rparr> in
      bind_res (set_yiaddr_srv e state s1) (\<lambda>(ok, s2).
        if \<not> ok then Inr (0, s2)
        else
          let d = (dhcp_recv s2)\<lparr>giaddr := htonl RELAY_AGENT_IP_ADDRESS\<rparr> in
          bind_res (get_dhcp_option (options d) OPTION_DHCP_MESSAGE_TYPE) (\<lambda>r.
          bind_res (server_options state (opt_set r None) (options d)) (\<lambda>(opts, len).
            Inr (of_nat (sizeof_dhcp_t - DHCP_MAX_OPTION_LEN) + len,
                 s2\<lparr>dhcp_recv := d\<lparr>options := opts\<rparr>\<rparr>)))))"

section \<open>Handlers\<close>

definition change_socket_setup_srv :: "u32 \<Rightarrow> u32 \<Rightarrow> server \<Rightarrow> server" where
  "change_socket_setup_srv server_addr client_addr s =
     s\<lparr>dhcp_server_addr := (dhcp_server_addr s)\<lparr>sin_addr := htonl server_addr\<rparr>,
       dhcp_client_addr := (dhcp_client_addr s)\<lparr>sin_addr := htonl client_addr\<rparr>\<rparr>"

text \<open>\<open>sendto\<close> of the first \<open>n\<close> bytes of the buffer to the client's address.\<close>

definition send_reply :: "u16 \<Rightarrow> server \<Rightarrow> server" where
  "send_reply n s =
     s\<lparr>sent := sent s @ [\<lparr>dest = dhcp_client_addr s,
                          payload = take (unat n) (dhcp_bytes (dhcp_recv s))\<rparr>]\<rparr>"

text \<open>The test that turns a reply into a unicast to \<open>ciaddr\<close>.\<close>

definition unicast_setup :: "int \<Rightarrow> server \<Rightarrow> server res" where
  "unicast_setup now s =
     (if (ucast (flags (dhcp_recv s)) :: u32) = htonl (ucast BOOTP_FLAGS_UNICAST) then
        bind_res (requested_ip_ok now s) (\<lambda>r. Inr (case r of
          Some ip \<Rightarrow> change_socket_setup_srv DHCP_SERVER_IP_ADDRESS (ntohl (ciaddr (dhcp_recv s))) s
        | None \<Rightarrow> s))
      else Inr s)"

definition dhcp_handle_discover :: "env \<Rightarrow> server \<Rightarrow> server res" where
  "dhcp_handle_discover e s =
     bind_res (unicast_setup (t_unicast e) (change_socket_setup_srv INADDR_ANY INADDR_BROADCAST s))
       (\<lambda>s1. bind_res (construct_dhcp_packet_srv e DHCPOFFER s1)
          (\<lambda>(dhcp_offer_size, s2). Inr (send_reply dhcp_offer_size s2)))"

definition dhcp_handle_request :: "env \<Rightarrow> server \<Rightarrow> server res" where
  "dhcp_handle_request e s =
     (let d = dhcp_recv s in
      bind_res (get_dhcp_option (options d) OPTION_DHCP_SERVER_IDENTIFIER) (\<lambda>r.
      if opt_ret r \<noteq> 4 then Inr s
      else
        let option_value = opt_set r None in
        bind_res (load32 (options d) option_value) (\<lambda>selected_server.
        if DHCP_SERVER_IP_ADDRESS \<noteq> ntohl selected_server then Inr s
        else bind_res
          (if ciaddr d = htonl INADDR_ANY then
             bind_res (unicast_setup (t_unicast e)
                         (change_socket_setup_srv INADDR_ANY INADDR_BROADCAST s)) (\<lambda>s1.
             bind_res (get_dhcp_option (options d) OPTION_REQUESTED_IP) (\<lambda>r.
             bind_res (load32 (options d) (opt_set r option_value)) (\<lambda>ip.
               construct_dhcp_packet_srv e
                 (if 0 < check_ipaddr (table s1) (t_check e) ip (chaddr d)
                  then DHCPACK else DHCPNAK) s1)))
           else
             let s1 = change_socket_setup_srv DHCP_SERVER_IP_ADDRESS (ntohl (ciaddr d)) s in
             construct_dhcp_packet_srv e
               (if 0 < check_ipaddr (table s1) (t_check e) (ciaddr d) (chaddr d)
                then DHCPACK else DHCPNAK) s1)
          (\<lambda>(dhcp_nack_size, s2). Inr (send_reply dhcp_nack_size s2)))))"

definition dhcp_handle_release :: "server \<Rightarrow> server res" where
  "dhcp_handle_release s =
     (let d = dhcp_recv s in
      bind_res (get_dhcp_option (options d) OPTION_DHCP_SERVER_IDENTIFIER) (\<lambda>r.
      if opt_ret r \<noteq> 4 then Inr s
      else bind_res (load32 (options d) (opt_set r None)) (\<lambda>selected_server.
        if DHCP_SERVER_IP_ADDRESS \<noteq> ntohl selected_server then Inr s
        else Inr (s\<lparr>table := delete_lease (table s) (ciaddr d) (chaddr d)\<rparr>))))"

definition dhcp_handle_inform :: "env \<Rightarrow> server \<Rightarrow> server res" where
  "dhcp_handle_inform e s =
     bind_res (construct_dhcp_packet_srv e DHCPACK
       (change_socket_setup_srv DHCP_SERVER_IP_ADDRESS (ntohl (ciaddr (dhcp_recv s))) s))
       (\<lambda>(dhcp_ack_size, s1). Inr (send_reply dhcp_ack_size s1))"

section \<open>The main loop\<close>

text \<open>
  One turn of the loop of \<open>main\<close>: \<open>None\<close> is a failing \<open>recvfrom\<close>, \<open>Some\<close> the datagram that
  arrived.
\<close>

definition dispatch :: "env \<Rightarrow> server \<Rightarrow> server res" where
  "dispatch e s =
     (let d = dhcp_recv s in
      if opcode d \<noteq> BOOTP_MESSAGE_TYPE_REQUEST then Inr s
      else bind_res (get_dhcp_option (options d) OPTION_DHCP_MESSAGE_TYPE) (\<lambda>r.
        if opt_ret r \<noteq> 1 then Inr s
        else bind_res (load8 (options d) (opt_set r None)) (\<lambda>m.
          if m = DHCPDISCOVER then dhcp_handle_discover e s
          else if m = DHCPREQUEST then dhcp_handle_request e s
          else if m = DHCPRELEASE then dhcp_handle_release s
          else if m = DHCPINFORM then dhcp_handle_inform e s
          else Inr s)))"

definition server_step :: "env \<Rightarrow> u8 list option \<Rightarrow> server \<Rightarrow> server res" where
  "server_step e input s =
     (let s0 = change_socket_setup_srv INADDR_ANY INADDR_BROADCAST s in
      case input of
        None \<Rightarrow> Inr s0
      | Some dgram \<Rightarrow> dispatch e (s0\<lparr>dhcp_recv := recv_dhcp (dhcp_recv s0) dgram\<rparr>))"

fun server_run :: "(env \<times> u8 list option) list \<Rightarrow> server \<Rightarrow> server res" where
  "server_run [] s = Inr s"
| "server_run ((e, input) # is) s = bind_res (server_step e input s) (server_run is)"

text \<open>
  \<open>dhcp_setup\<close>: the copy of the device's name into \<open>if_eth\<close>, the calls that end the program when
  they fail, and the state they leave. The global buffer starts zeroed; a failing \<open>socket\<close> is only
  reported.
\<close>

datatype setup_call = Bind_To_Device | Set_Broadcast | Bind_Address

definition dhcp_setup_srv :: "string \<Rightarrow> (setup_call \<Rightarrow> bool) \<Rightarrow> server res" where
  "dhcp_setup_srv dev_name succeeds =
     bind_res (copy_ifr_name dev_name) (\<lambda>ifr_name.
      if \<not> succeeds Bind_To_Device then Inl Exited
      else if \<not> succeeds Set_Broadcast then Inl Exited
      else if \<not> succeeds Bind_Address then Inl Exited
      else Inr \<lparr>table = empty_table,
                dhcp_recv = zero_msg,
                dhcp_server_addr = \<lparr>sin_port = htons DHCP_SERVER_PORT, sin_addr = htonl INADDR_ANY\<rparr>,
                dhcp_client_addr = \<lparr>sin_port = htons DHCP_CLIENT_PORT, sin_addr = htonl INADDR_BROADCAST\<rparr>,
                sent = []\<rparr>)"

definition main_srv ::
    "nat \<Rightarrow> string list \<Rightarrow> (setup_call \<Rightarrow> bool) \<Rightarrow> (env \<times> u8 list option) list \<Rightarrow> server res" where
  "main_srv euid argv succeeds inputs =
     (if euid \<noteq> 0 then Inl Exited
      else if length argv \<noteq> 2 \<or> argv ! 1 = ''-h'' then Inl Exited
      else bind_res (dhcp_setup_srv (argv ! 1) succeeds) (server_run inputs))"

end
