(* ===== verification/Server_Replies.thy ===== *)
theory Server_Replies
  imports Dhcp_Server
begin

text \<open>
  What the server writes into a reply: the options of each kind of reply as a list, the size of
  the datagram, and the fields a reply keeps from the request it overwrites.
\<close>

section \<open>The options of a reply\<close>

definition reply_head :: "u8 \<Rightarrow> (u8 \<times> u8 list) list" where
  "reply_head state =
     [(OPTION_DHCP_MESSAGE_TYPE, [state]),
      (OPTION_DHCP_SERVER_IDENTIFIER, bytes_le32 (htonl DHCP_SERVER_IP_ADDRESS)),
      (OPTION_VENDOR_CLASS_IDENTIFIER, DHCP_SERVER_VENDOR_CLASS_ID)]"

definition reply_net :: "(u8 \<times> u8 list) list" where
  "reply_net =
     [(OPTION_SUBNET_MASK, bytes_le32 (htonl SUBNET_MASK)),
      (OPTION_ROUTER, bytes_le32 (htonl ROUTER_IP_ADDRESS)),
      (OPTION_DOMAIN_NAME_SERVER, bytes_le32 (htonl DOMAIN_NAME_SERVER_ADDRESS))]"

definition reply_times :: "(u8 \<times> u8 list) list" where
  "reply_times =
     [(OPTION_IP_ADDRESS_LEASE_TIME, bytes_le32 (htonl IP_ADDRESS_LEASE_TIME)),
      (OPTION_IP_T1_RENEWAL_TIME, bytes_le32 (htonl T1_RENEWAL_TIME)),
      (OPTION_IP_T2_REBIND_TIME, bytes_le32 (htonl T2_REBIND_TIME))]"

definition reply_options :: "u8 \<Rightarrow> bool \<Rightarrow> (u8 \<times> u8 list) list" where
  "reply_options state with_times =
     reply_head state @ (if state = DHCPNAK then [] else reply_net @ (if with_times then reply_times else []))
     @ [(OPTION_END, [0])]"

lemmas reply_defs = reply_head_def reply_net_def reply_times_def

lemma length_enc_reply [simp]:
  "length (enc_opts (reply_head st)) = 21" "length (enc_opts reply_net) = 18"
  "length (enc_opts reply_times) = 18"
  by (simp_all add: reply_defs)

lemma length_enc_reply_options:
  "length (enc_opts (reply_options st w)) =
     (if st = DHCPNAK then 24 else if w then 60 else 42)"
  by (simp add: reply_options_def)

lemma enc_ok_reply: "enc_ok (reply_options st w)"
  by (simp add: reply_options_def reply_defs)

lemma add_options_written:
  assumes "length (enc_opts os) + 2 + length d \<le> length area" "length area = DHCP_MAX_OPTION_LEN"
    "length d < 256"
  shows "add_option c d (written os area) = Inr (written (os @ [(c, d)]) area)"
  using add_option_written [OF assms(1) _ assms(3)] assms(2) by simp

lemma server_options_eq:
  assumes "length opts = DHCP_MAX_OPTION_LEN"
  shows "server_options st p opts =
    (if st = DHCPNAK then Inr (written (reply_options st False) opts)
     else bind_res (load8 (enc_opts (reply_head st @ reply_net) @ drop 39 opts) p) (\<lambda>m.
       Inr (written (reply_options st (m \<noteq> DHCPINFORM)) opts)))"
proof -
  have start: "(opts, 0) = written [] opts" by (simp add: written_Nil)
  have six: "fst (written (reply_head st @ reply_net) opts) =
      enc_opts (reply_head st @ reply_net) @ drop 39 opts"
    by (simp add: written_def)
  show ?thesis
    unfolding server_options_def start
    using assms six
    by (simp add: add_options_written bind_res_assoc reply_options_def reply_defs
        cong: bind_res_cong if_cong) (auto simp: bind_res_def add_options_written split: sum.split)
qed

section \<open>The reply as a message\<close>

text \<open>
  The reply of kind \<open>state\<close> to the request \<open>d\<close>, with the address \<open>y\<close> in network order and with
  or without the lease times, and the number of its bytes that are sent.
\<close>

definition reply_msg :: "u8 \<Rightarrow> bool \<Rightarrow> u32 \<Rightarrow> dhcp_t \<Rightarrow> dhcp_t" where
  "reply_msg state w y d =
     d\<lparr>opcode := BOOTP_MESSAGE_TYPE_REPLY, yiaddr := y, giaddr := htonl RELAY_AGENT_IP_ADDRESS,
       options := enc_opts (reply_options state w) @
                  drop (length (enc_opts (reply_options state w))) (options d)\<rparr>"

definition reply_size :: "u8 \<Rightarrow> bool \<Rightarrow> nat" where
  "reply_size state w = DHCP_FIXED_NON_UDP + length (enc_opts (reply_options state w))"

lemma reply_size_eq: "reply_size st w = (if st = DHCPNAK then 264 else if w then 300 else 282)"
  by (simp add: reply_size_def length_enc_reply_options)

lemma wf_reply_msg: "wf_dhcp d \<Longrightarrow> wf_dhcp (reply_msg st w y d)"
  by (simp add: wf_dhcp_def reply_msg_def length_enc_reply_options)

text \<open>The address step changes the table and one field of the message, nothing else.\<close>

lemma set_yiaddr_frame:
  assumes "set_yiaddr_srv e st s = Inr (ok, s')"
  shows "s' = s\<lparr>table := table s', dhcp_recv := (dhcp_recv s)\<lparr>yiaddr := yiaddr (dhcp_recv s')\<rparr>\<rparr>
         \<and> (lease_inv (table s) \<longrightarrow> lease_inv (table s'))"
  using assms
  by (auto simp: set_yiaddr_srv_def Let_def res_simps intro: add_lease_inv
      split: if_splits option.splits) (blast dest: allocate_ip_inv)+

lemma set_yiaddr_options:
  assumes "set_yiaddr_srv e st s = Inr (ok, s')"
  shows "options (dhcp_recv s') = options (dhcp_recv s)"
  using arg_cong [OF conjunct1 [OF set_yiaddr_frame [OF assms]], of "\<lambda>s. options (dhcp_recv s)"]
  by simp

lemma set_yiaddr_False:
  assumes "set_yiaddr_srv e st s = Inr (False, s')"
  shows "st = DHCPOFFER \<and> s' = s \<and> (\<forall>l \<in> set (leases (table s)). \<not> same_mac (lease_chaddr l) (chaddr (dhcp_recv s)))
         \<and> int IP_ADDRESS_POOL_AMOUNT \<le> sint (num_of_lease (table s))"
  using assms renew_mac_None [of "leases (table s)" "t_lease e" "chaddr (dhcp_recv s)"]
  by (auto simp: set_yiaddr_srv_def Let_def res_simps allocate_ip_def split: if_splits option.splits)

lemma construct_cases:
  assumes "construct_dhcp_packet_srv e st s = Inr (n, s')" "wf_dhcp (dhcp_recv s)"
  obtains
    (exhausted) "n = 0" "st = DHCPOFFER" "int IP_ADDRESS_POOL_AMOUNT \<le> sint (num_of_lease (table s))"
      "s' = s\<lparr>dhcp_recv := (dhcp_recv s)\<lparr>opcode := BOOTP_MESSAGE_TYPE_REPLY\<rparr>\<rparr>"
      "set_yiaddr_srv e st s' = Inr (False, s')"
  | (reply) t y w where
      "set_yiaddr_srv e st (s\<lparr>dhcp_recv := (dhcp_recv s)\<lparr>opcode := BOOTP_MESSAGE_TYPE_REPLY\<rparr>\<rparr>) =
         Inr (True, s\<lparr>table := t, dhcp_recv := (dhcp_recv s)\<lparr>opcode := BOOTP_MESSAGE_TYPE_REPLY, yiaddr := y\<rparr>\<rparr>)"
      "lease_inv (table s) \<longrightarrow> lease_inv t"
      "s' = s\<lparr>table := t, dhcp_recv := reply_msg st w y (dhcp_recv s)\<rparr>"
      "unat n = reply_size st w"
      "st \<noteq> DHCPNAK \<Longrightarrow> \<exists>r m. get_dhcp_option (options (dhcp_recv s)) OPTION_DHCP_MESSAGE_TYPE = Inr r \<and>
         load8 (enc_opts (reply_head st @ reply_net) @ drop 39 (options (dhcp_recv s))) (opt_set r None) = Inr m \<and>
         w = (m \<noteq> DHCPINFORM)"
proof -
  let ?s1 = "s\<lparr>dhcp_recv := (dhcp_recv s)\<lparr>opcode := BOOTP_MESSAGE_TYPE_REPLY\<rparr>\<rparr>"
  obtain ok s2 where 1: "set_yiaddr_srv e st ?s1 = Inr (ok, s2)"
    using assms(1) by (auto simp: construct_dhcp_packet_srv_def Let_def res_simps)
  show thesis
  proof (cases ok)
    case False
    with 1 assms(1) set_yiaddr_False [of e st ?s1 s2] show ?thesis
      by (intro exhausted) (auto simp: construct_dhcp_packet_srv_def Let_def)
  next
    case True
    obtain t y where t: "t = table s2" and y: "y = yiaddr (dhcp_recv s2)" by blast
    from set_yiaddr_frame [OF 1] have
      s2: "s2 = s\<lparr>table := t, dhcp_recv := (dhcp_recv s)\<lparr>opcode := BOOTP_MESSAGE_TYPE_REPLY, yiaddr := y\<rparr>\<rparr>"
      and inv: "lease_inv (table s) \<longrightarrow> lease_inv t" by (simp_all add: t y)
    have len: "length (options (dhcp_recv s)) = DHCP_MAX_OPTION_LEN"
      using assms(2) by (simp add: wf_dhcp_def)
    obtain w where s': "s' = s\<lparr>table := t, dhcp_recv := reply_msg st w y (dhcp_recv s)\<rparr>"
      and n: "n = of_nat 240 + of_nat (length (enc_opts (reply_options st w)))"
      and w: "st \<noteq> DHCPNAK \<Longrightarrow> \<exists>r m. get_dhcp_option (options (dhcp_recv s)) OPTION_DHCP_MESSAGE_TYPE = Inr r \<and>
         load8 (enc_opts (reply_head st @ reply_net) @ drop 39 (options (dhcp_recv s))) (opt_set r None) = Inr m \<and>
         w = (m \<noteq> DHCPINFORM)"
      using assms(1) 1 True s2
      by (auto simp: construct_dhcp_packet_srv_def Let_def res_simps server_options_eq [OF len]
          written_def reply_msg_def split: if_splits)
    have "unat n = reply_size st w"
      by (simp add: n reply_size_eq length_enc_reply_options split: if_splits)
    moreover have "set_yiaddr_srv e st ?s1 = Inr (True,
        s\<lparr>table := t, dhcp_recv := (dhcp_recv s)\<lparr>opcode := BOOTP_MESSAGE_TYPE_REPLY, yiaddr := y\<rparr>\<rparr>)"
      using 1 True s2 by simp
    ultimately show ?thesis using reply [OF _ inv s' _ w] by simp
  qed
qed

lemma construct_inv:
  assumes "construct_dhcp_packet_srv e st s = Inr (n, s')" "wf_dhcp (dhcp_recv s)" "lease_inv (table s)"
  shows "wf_dhcp (dhcp_recv s') \<and> lease_inv (table s') \<and> sent s' = sent s
    \<and> dhcp_client_addr s' = dhcp_client_addr s"
  using assms(1,2)
proof (cases rule: construct_cases)
  case exhausted
  with assms show ?thesis by (simp add: wf_dhcp_def)
next
  case (reply t y w)
  with assms show ?thesis by (simp add: wf_reply_msg)
qed

section \<open>The reply on the wire\<close>

text \<open>The datagram is the front of the reply and holds all the options written.\<close>

definition reply_dgram :: "u8 \<Rightarrow> bool \<Rightarrow> u32 \<Rightarrow> dhcp_t \<Rightarrow> u8 list" where
  "reply_dgram state w y d =
     dhcp_header (reply_msg state w y d) @ enc_opts (reply_options state w)"

lemma reply_dgram_eq:
  assumes "wf_dhcp d"
  shows "take (reply_size st w) (dhcp_bytes (reply_msg st w y d)) = reply_dgram st w y d"
  using length_dhcp_header [OF wf_reply_msg [OF assms, of st w y]]
  by (simp add: reply_dgram_def dhcp_bytes_def reply_size_def)
    (simp add: reply_msg_def)

lemma length_reply_dgram: "wf_dhcp d \<Longrightarrow> length (reply_dgram st w y d) = reply_size st w"
  using length_dhcp_header [OF wf_reply_msg, of d st w y]
  by (simp add: reply_dgram_def reply_size_def)

text \<open>A reply's options as its receiver looks them up.\<close>

lemma reply_lookup:
  assumes "map_of (reply_options st w) ty = Some v" "ty \<noteq> 0"
  obtains i where
    "get_dhcp_option (options (reply_msg st w y d)) ty = Inr (OptAt (of_nat (length v)) i)"
    "load_bytes (options (reply_msg st w y d)) (Some i) (length v) = Inr v"
  using get_dhcp_option_enc [OF enc_ok_reply assms(2,1)] by (auto simp: reply_msg_def)

lemma map_of_reply_options:
  "map_of (reply_options st w) OPTION_DHCP_MESSAGE_TYPE = Some [st]"
  "map_of (reply_options st w) OPTION_DHCP_SERVER_IDENTIFIER = Some (bytes_le32 (htonl DHCP_SERVER_IP_ADDRESS))"
  "st \<noteq> DHCPNAK \<Longrightarrow> map_of (reply_options st w) OPTION_SUBNET_MASK = Some (bytes_le32 (htonl SUBNET_MASK))"
  "st \<noteq> DHCPNAK \<Longrightarrow> map_of (reply_options st w) OPTION_ROUTER = Some (bytes_le32 (htonl ROUTER_IP_ADDRESS))"
  "map_of (reply_options st w) OPTION_IP_ADDRESS_LEASE_TIME =
     (if st \<noteq> DHCPNAK \<and> w then Some (bytes_le32 (htonl IP_ADDRESS_LEASE_TIME)) else None)"
  "map_of (reply_options st w) OPTION_IP_T1_RENEWAL_TIME =
     (if st \<noteq> DHCPNAK \<and> w then Some (bytes_le32 (htonl T1_RENEWAL_TIME)) else None)"
  "map_of (reply_options st w) OPTION_IP_T2_REBIND_TIME =
     (if st \<noteq> DHCPNAK \<and> w then Some (bytes_le32 (htonl T2_REBIND_TIME)) else None)"
  by (simp_all add: reply_options_def reply_defs)

text \<open>The message that a receiver finds in its buffer after the datagram has arrived.\<close>

lemma recv_reply:
  assumes "wf_dhcp buf" "wf_dhcp d"
  shows "recv_dhcp buf (reply_dgram st w y d) = (reply_msg st w y d)\<lparr>options :=
      enc_opts (reply_options st w) @ drop (length (enc_opts (reply_options st w))) (options buf)\<rparr>"
proof -
  have n: "DHCP_FIXED_NON_UDP \<le> reply_size st w" "reply_size st w \<le> sizeof_dhcp_t"
    by (simp_all add: reply_size_eq)
  have "take (reply_size st w - DHCP_FIXED_NON_UDP) (options (reply_msg st w y d)) = enc_opts (reply_options st w)"
    by (simp add: reply_size_def reply_msg_def)
  with recv_dhcp_prefix [OF assms(1) wf_reply_msg [OF assms(2), of st w y] n] show ?thesis
    by (simp add: reply_dgram_eq [OF assms(2)]) (simp add: reply_size_def)
qed

lemma recv_reply_fields:
  assumes "wf_dhcp buf" "wf_dhcp d" "r = recv_dhcp buf (reply_dgram st w y d)"
  shows "opcode r = BOOTP_MESSAGE_TYPE_REPLY" "xid r = xid d" "chaddr r = chaddr d" "yiaddr r = y"
    "ciaddr r = ciaddr d" "magic_cookie r = magic_cookie d" "wf_dhcp r" "type_option r st"
proof -
  have "options r = OPTION_DHCP_MESSAGE_TYPE # 1 # st # drop 3 (options r)"
    by (simp add: assms(3) recv_reply [OF assms(1,2)] reply_options_def reply_head_def enc_opt_def
        numeral_eq_Suc)
  then show "type_option r st"
    by (rule type_option_first)
  show "wf_dhcp r" using assms(1) by (simp add: assms(3) wf_recv_dhcp)
qed (simp_all add: assms(3) recv_reply [OF assms(1,2)] reply_msg_def)

lemma recv_reply_addr:
  assumes "wf_dhcp buf" "wf_dhcp d" "map_of (reply_options st w) ty = Some (bytes_le32 v)" "ty \<noteq> 0"
  shows "addr_option (recv_dhcp buf (reply_dgram st w y d)) ty v"
  using get_dhcp_option_enc [OF enc_ok_reply assms(4,3)]
  by (simp add: recv_reply [OF assms(1,2)] addr_option_def load32_def) (metis bind_res_Inr word_le32_bytes)

end
