(* ===== verification/Server_Invariants.thy ===== *)
theory Server_Invariants
  imports Server_Replies
begin

text \<open>
  The server as a state machine: which handler a message reaches, what each handler does to the
  lease table, and the invariants of every reachable state. The preservation argument is made
  once, for any property of the table that the table's operations keep (locale
  \<open>table_property\<close>), and used for the representation invariant and for the pool bound.
\<close>

section \<open>Frames\<close>

lemma change_socket_setup_frame [simp]:
  "table (change_socket_setup_srv a b s) = table s"
  "dhcp_recv (change_socket_setup_srv a b s) = dhcp_recv s"
  "sent (change_socket_setup_srv a b s) = sent s"
  "sin_addr (dhcp_client_addr (change_socket_setup_srv a b s)) = htonl b"
  "sin_port (dhcp_client_addr (change_socket_setup_srv a b s)) = sin_port (dhcp_client_addr s)"
  by (simp_all add: change_socket_setup_srv_def)

lemma send_reply_frame [simp]:
  "table (send_reply n s) = table s" "dhcp_recv (send_reply n s) = dhcp_recv s"
  "sent (send_reply n s) = sent s @ [\<lparr>dest = dhcp_client_addr s,
                          payload = take (unat n) (dhcp_bytes (dhcp_recv s))\<rparr>]"
  by (simp_all add: send_reply_def)

lemma unicast_setup_cases:
  assumes "unicast_setup now s = Inr s'"
  shows "s' = s \<or> s' = change_socket_setup_srv DHCP_SERVER_IP_ADDRESS (ntohl (ciaddr (dhcp_recv s))) s"
  using assms by (auto simp: unicast_setup_def res_simps split: if_splits option.splits)

lemma unicast_setup_frame:
  assumes "unicast_setup now s = Inr s'"
  shows "table s' = table s \<and> dhcp_recv s' = dhcp_recv s \<and> sent s' = sent s"
  using unicast_setup_cases [OF assms] by auto

lemma requested_ip_okD:
  assumes "requested_ip_ok now s = Inr (Some ip)"
  shows "may_use (lease_map (table s)) now (ntohl ip) (chaddr (dhcp_recv s)) \<and>
    (\<exists>i. get_dhcp_option (options (dhcp_recv s)) OPTION_REQUESTED_IP = Inr (OptAt 4 i) \<and>
         load32 (options (dhcp_recv s)) (Some i) = Inr ip)"
proof -
  let ?d = "dhcp_recv s"
  obtain r where r: "get_dhcp_option (options ?d) OPTION_REQUESTED_IP = Inr r" "opt_ret r = 4"
    and ip: "load32 (options ?d) (opt_set r None) = Inr ip"
    and ok: "0 < check_ipaddr (table s) now ip (chaddr ?d)"
    using assms by (auto simp: requested_ip_ok_def Let_def res_simps split: if_splits)
  from r(2) obtain i where "r = OptAt 4 i" by (cases r) auto
  with r(1) ip ok show ?thesis by (auto simp: check_ipaddr_spec)
qed

section \<open>The address of a reply\<close>

lemma set_yiaddr_cases:
  assumes "set_yiaddr_srv e st s = Inr (True, s')"
  obtains
    (nak) "st = DHCPNAK" "table s' = table s" "yiaddr (dhcp_recv s') = 0"
  | (requested) ip where "st = DHCPOFFER" "requested_ip_ok (t_check e) s = Inr (Some ip)"
      "table s' = table s" "yiaddr (dhcp_recv s') = ip"
  | (granted) r ip where "st = DHCPACK" "ciaddr (dhcp_recv s) = 0"
      "get_dhcp_option (options (dhcp_recv s)) OPTION_REQUESTED_IP = Inr r"
      "load32 (options (dhcp_recv s)) (opt_set r None) = Inr ip"
      "table s' = add_lease (table s) (t_lease e) ip (chaddr (dhcp_recv s))"
      "yiaddr (dhcp_recv s') = ip"
  | (allocated) rc a t where "st \<noteq> DHCPNAK" "st = DHCPACK \<longrightarrow> ciaddr (dhcp_recv s) \<noteq> 0"
      "st = DHCPOFFER \<longrightarrow> requested_ip_ok (t_check e) s = Inr None"
      "allocate_ip (table s) (t_lease e) (rnd e) (chaddr (dhcp_recv s)) = Inr (rc, Some a, t)"
      "table s' = t" "yiaddr (dhcp_recv s') = htonl a"
proof -
  let ?d = "dhcp_recv s"
  consider "st = DHCPNAK" | "st = DHCPOFFER" | "st = DHCPACK" "ciaddr ?d = 0"
    | "st \<noteq> DHCPNAK" "st \<noteq> DHCPOFFER" "\<not> (st = DHCPACK \<and> ciaddr ?d = 0)" by blast
  then show thesis
  proof cases
    case 1
    with assms show ?thesis by (intro nak) (auto simp: set_yiaddr_srv_def)
  next
    case 2
    with assms obtain r where r: "requested_ip_ok (t_check e) s = Inr r"
      by (auto simp: set_yiaddr_srv_def Let_def res_simps)
    show ?thesis
    proof (cases r)
      case (Some ip)
      with 2 r assms show ?thesis by (intro requested) (auto simp: set_yiaddr_srv_def)
    next
      case None
      with 2 r assms show ?thesis
        by (auto simp: set_yiaddr_srv_def Let_def res_simps split: if_splits option.splits
            intro!: allocated)
    qed
  next
    case 3
    with assms show ?thesis by (auto simp: set_yiaddr_srv_def Let_def res_simps intro: granted)
  next
    case 4
    with assms show ?thesis
      by (auto simp: set_yiaddr_srv_def Let_def res_simps split: option.splits intro!: allocated)
  qed
qed

section \<open>Which handler runs\<close>

text \<open>The type of a message that passes the checks of the main loop.\<close>

definition message_type :: "dhcp_t \<Rightarrow> u8 option" where
  "message_type d =
     (if opcode d \<noteq> BOOTP_MESSAGE_TYPE_REQUEST then None
      else case get_dhcp_option (options d) OPTION_DHCP_MESSAGE_TYPE of
        Inr (OptAt n i) \<Rightarrow> if n = 1 \<and> i < length (options d) then Some (options d ! i) else None
      | _ \<Rightarrow> None)"

lemma dispatch_message_type:
  assumes "dispatch e s = Inr s'"
  shows "case message_type (dhcp_recv s) of
      Some m \<Rightarrow>
        if m = DHCPDISCOVER then dhcp_handle_discover e s = Inr s'
        else if m = DHCPREQUEST then dhcp_handle_request e s = Inr s'
        else if m = DHCPRELEASE then dhcp_handle_release s = Inr s'
        else if m = DHCPINFORM then dhcp_handle_inform e s = Inr s'
        else s' = s
    | None \<Rightarrow> s' = s"
proof (cases "opcode (dhcp_recv s) = BOOTP_MESSAGE_TYPE_REQUEST")
  case False
  with assms show ?thesis by (simp add: dispatch_def Let_def message_type_def)
next
  case True
  with assms obtain r where r:
    "get_dhcp_option (options (dhcp_recv s)) OPTION_DHCP_MESSAGE_TYPE = Inr r"
    by (auto simp: dispatch_def Let_def res_simps)
  show ?thesis
  proof (cases r)
    case OptAbsent
    with assms r True show ?thesis by (simp add: dispatch_def Let_def message_type_def)
  next
    case (OptAt n i)
    with assms r True show ?thesis
      by (auto simp: dispatch_def Let_def message_type_def load8_def res_simps
          split: if_splits)
  qed
qed

text \<open>The server is the one that option 54 of the message names.\<close>

definition selects_server :: "dhcp_t \<Rightarrow> nat \<Rightarrow> bool" where
  "selects_server d i \<longleftrightarrow>
     get_dhcp_option (options d) OPTION_DHCP_SERVER_IDENTIFIER = Inr (OptAt 4 i) \<and>
     load32 (options d) (Some i) = Inr (htonl DHCP_SERVER_IP_ADDRESS)"

lemma opt_ret_4: "opt_ret r = 4 \<longleftrightarrow> (\<exists>i. r = OptAt 4 i)"
  by (cases r) auto

text \<open>The three ways through \<open>dhcp_handle_request\<close>.\<close>

lemma request_cases:
  assumes "dhcp_handle_request e s = Inr s'"
  obtains
    (ignored) "s' = s" "\<forall>i. \<not> selects_server (dhcp_recv s) i"
  | (selecting) i s1 r ip n s2 where "selects_server (dhcp_recv s) i" "ciaddr (dhcp_recv s) = 0"
      "unicast_setup (t_unicast e) (change_socket_setup_srv INADDR_ANY INADDR_BROADCAST s) = Inr s1"
      "get_dhcp_option (options (dhcp_recv s)) OPTION_REQUESTED_IP = Inr r"
      "load32 (options (dhcp_recv s)) (opt_set r (Some i)) = Inr ip"
      "construct_dhcp_packet_srv e
         (if 0 < check_ipaddr (table s1) (t_check e) ip (chaddr (dhcp_recv s)) then DHCPACK else DHCPNAK) s1
       = Inr (n, s2)"
      "s' = send_reply n s2"
  | (renewing) n s2 where "\<exists>i. selects_server (dhcp_recv s) i" "ciaddr (dhcp_recv s) \<noteq> 0"
      "construct_dhcp_packet_srv e
         (if 0 < check_ipaddr (table s) (t_check e) (ciaddr (dhcp_recv s)) (chaddr (dhcp_recv s))
          then DHCPACK else DHCPNAK)
         (change_socket_setup_srv DHCP_SERVER_IP_ADDRESS (ntohl (ciaddr (dhcp_recv s))) s)
       = Inr (n, s2)"
      "s' = send_reply n s2"
proof -
  let ?d = "dhcp_recv s"
  obtain r0 where r0: "get_dhcp_option (options ?d) OPTION_DHCP_SERVER_IDENTIFIER = Inr r0"
    using assms by (auto simp: dhcp_handle_request_def Let_def res_simps)
  show thesis
  proof (cases "opt_ret r0 = 4")
    case False
    with r0 assms show ?thesis
      by (intro ignored) (auto simp: dhcp_handle_request_def Let_def selects_server_def)
  next
    case True
    then obtain i where i: "r0 = OptAt 4 i" by (auto simp: opt_ret_4)
    with r0 assms obtain sel where sel: "load32 (options ?d) (Some i) = Inr sel"
      by (auto simp: dhcp_handle_request_def Let_def res_simps)
    show ?thesis
    proof (cases "ntohl sel = DHCP_SERVER_IP_ADDRESS")
      case False
      with r0 i sel assms show ?thesis
        by (intro ignored) (auto simp: dhcp_handle_request_def Let_def selects_server_def)
    next
      case eq: True
      then have sv: "selects_server ?d i"
        using r0 i sel net32.hton_ntoh [of sel] by (simp add: selects_server_def del: net32.hton_ntoh)
      show ?thesis
      proof (cases "ciaddr ?d = 0")
        case True
        with eq sv r0 i sel assms show ?thesis
          by (auto simp: dhcp_handle_request_def Let_def res_simps intro: selecting)
      next
        case False
        with eq sv r0 i sel assms show ?thesis
          by (auto simp: dhcp_handle_request_def Let_def res_simps intro!: renewing)
      qed
    qed
  qed
qed

section \<open>Properties of the table that every step keeps\<close>

text \<open>The requested address is allowed, or the reply does not grant it.\<close>

definition grant_allowed :: "(u32 \<Rightarrow> bool) \<Rightarrow> u8 \<Rightarrow> dhcp_t \<Rightarrow> bool" where
  "grant_allowed allowed st d \<longleftrightarrow> (st = DHCPACK \<longrightarrow> ciaddr d = 0 \<longrightarrow>
     (\<forall>r ip. get_dhcp_option (options d) OPTION_REQUESTED_IP = Inr r \<longrightarrow>
        load32 (options d) (opt_set r None) = Inr ip \<longrightarrow> allowed ip))"

text \<open>
  A property \<open>I\<close> of the table, with the addresses \<open>allowed\<close> to be granted under it, the times
  at which leases may be stamped, and the releases that do not touch it: allocation, release
  and grant within these bounds keep it, and the check of an address allows it.
\<close>

locale table_property =
  fixes I :: "lease_table \<Rightarrow> bool"
    and allowed :: "u32 \<Rightarrow> bool"
    and timely :: "int \<Rightarrow> bool"
    and releasable :: "u32 \<Rightarrow> u8 list \<Rightarrow> bool"
  assumes I_allocate: "lease_inv t \<Longrightarrow> I t \<Longrightarrow> timely now \<Longrightarrow>
      allocate_ip t now rs mac = Inr (rc, oip, t') \<Longrightarrow> I t'"
    and I_delete: "lease_inv t \<Longrightarrow> I t \<Longrightarrow> releasable ip mac \<Longrightarrow> I (delete_lease t ip mac)"
    and I_add: "lease_inv t \<Longrightarrow> I t \<Longrightarrow> allowed ip \<Longrightarrow> timely now \<Longrightarrow> I (add_lease t now ip mac)"
    and check_allowed: "0 < check_ipaddr t now ip mac \<Longrightarrow> allowed ip"
begin

lemma set_yiaddr_keeps:
  assumes "set_yiaddr_srv e st s = Inr (True, s')" "lease_inv (table s)" "I (table s)"
    "timely (t_lease e)" "grant_allowed allowed st (dhcp_recv s)"
  shows "I (table s')"
  using assms(1)
proof (cases rule: set_yiaddr_cases)
  case nak
  then show ?thesis using assms(3) by simp
next
  case (requested ip)
  then show ?thesis using assms(3) by simp
next
  case (granted r ip)
  then show ?thesis using assms(2-5) by (simp add: grant_allowed_def I_add)
next
  case (allocated rc a t)
  then show ?thesis using assms(2-4) I_allocate by simp
qed

lemma construct_keeps:
  assumes "construct_dhcp_packet_srv e st s = Inr (n, s')" "wf_dhcp (dhcp_recv s)"
    "lease_inv (table s)" "I (table s)" "timely (t_lease e)" "grant_allowed allowed st (dhcp_recv s)"
  shows "I (table s')"
  using assms(1,2)
proof (cases rule: construct_cases)
  case exhausted
  then show ?thesis using assms(4) by simp
next
  case (reply t y w)
  from set_yiaddr_keeps [OF reply(1)] reply(3) assms(3-6) show ?thesis
    by (simp add: grant_allowed_def)
qed

lemma discover_keeps:
  assumes "dhcp_handle_discover e s = Inr s'" "wf_dhcp (dhcp_recv s)" "lease_inv (table s)"
    "I (table s)" "timely (t_lease e)"
  shows "I (table s')"
proof -
  obtain s1 n s2 where 1: "unicast_setup (t_unicast e)
      (change_socket_setup_srv INADDR_ANY INADDR_BROADCAST s) = Inr s1"
    and 2: "construct_dhcp_packet_srv e DHCPOFFER s1 = Inr (n, s2)" and "s' = send_reply n s2"
    using assms(1) by (auto simp: dhcp_handle_discover_def res_simps)
  with construct_keeps [OF 2] unicast_setup_frame [OF 1] assms(2-5) show ?thesis
    by (simp add: grant_allowed_def)
qed

lemma inform_keeps:
  assumes "dhcp_handle_inform e s = Inr s'" "wf_dhcp (dhcp_recv s)" "lease_inv (table s)"
    "I (table s)" "timely (t_lease e)" "grant_allowed allowed DHCPACK (dhcp_recv s)"
  shows "I (table s')"
proof -
  obtain n s2 where 2: "construct_dhcp_packet_srv e DHCPACK
      (change_socket_setup_srv DHCP_SERVER_IP_ADDRESS (ntohl (ciaddr (dhcp_recv s))) s) = Inr (n, s2)"
    and "s' = send_reply n s2"
    using assms(1) by (auto simp: dhcp_handle_inform_def res_simps)
  with construct_keeps [OF 2] assms(2-6) show ?thesis by simp
qed

lemma release_keeps:
  assumes "dhcp_handle_release s = Inr s'" "lease_inv (table s)" "I (table s)"
    "releasable (ciaddr (dhcp_recv s)) (chaddr (dhcp_recv s))"
  shows "I (table s')"
  using assms by (auto simp: dhcp_handle_release_def Let_def res_simps intro: I_delete split: if_splits)

lemma request_keeps:
  assumes "dhcp_handle_request e s = Inr s'" "wf_dhcp (dhcp_recv s)" "lease_inv (table s)"
    "I (table s)" "timely (t_lease e)"
  shows "I (table s')"
  using assms(1)
proof (cases rule: request_cases)
  case ignored
  then show ?thesis using assms(4) by simp
next
  case (selecting i s1 r ip n s2)
  have s1: "table s1 = table s" "dhcp_recv s1 = dhcp_recv s"
    using unicast_setup_frame [OF selecting(3)] by simp_all
  have "grant_allowed allowed (if 0 < check_ipaddr (table s1) (t_check e) ip (chaddr (dhcp_recv s))
      then DHCPACK else DHCPNAK) (dhcp_recv s1)"
    using selecting(4,5) check_allowed [of "table s1" "t_check e" ip "chaddr (dhcp_recv s)"]
    by (cases r) (auto simp: grant_allowed_def s1)
  with construct_keeps [OF selecting(6)] s1 assms(2-5) selecting(7) show ?thesis by simp
next
  case (renewing n s2)
  from construct_keeps [OF renewing(3)] assms(2-5) renewing(2,4) show ?thesis
    by (simp add: grant_allowed_def)
qed

lemma dispatch_keeps:
  assumes "dispatch e s = Inr s'" "wf_dhcp (dhcp_recv s)" "lease_inv (table s)" "I (table s)"
    "timely (t_lease e)"
    "message_type (dhcp_recv s) = Some DHCPINFORM \<Longrightarrow> grant_allowed allowed DHCPACK (dhcp_recv s)"
    "message_type (dhcp_recv s) = Some DHCPRELEASE \<Longrightarrow>
       releasable (ciaddr (dhcp_recv s)) (chaddr (dhcp_recv s))"
  shows "I (table s')"
  using dispatch_message_type [OF assms(1)] assms(2-7) discover_keeps request_keeps release_keeps
    inform_keeps
  by (auto split: option.splits if_splits)

end

text \<open>The representation invariant is such a property, with every address allowed.\<close>

interpretation rep: table_property lease_inv "\<lambda>_. True" "\<lambda>_. True" "\<lambda>_ _. True"
  by unfold_locales (auto intro: allocate_ip_inv delete_lease_inv add_lease_inv)

text \<open>So is the bound by the pool: every leased address is of the pool.\<close>

definition pool_table :: "lease_table \<Rightarrow> bool" where
  "pool_table t \<longleftrightarrow> (\<forall>a \<in> dom (lease_map t). in_pool a)"

interpretation pool: table_property pool_table "\<lambda>ip. in_pool (ntohl ip)"
  "\<lambda>_. True" "\<lambda>_ _. True"
proof unfold_locales
  fix t now rs mac rc oip t'
  assume "lease_inv t" "pool_table t" "allocate_ip t now rs mac = Inr (rc, oip, t')"
  with allocate_ip_dom [of t now rs mac rc oip t'] show "pool_table t'"
    by (simp add: pool_table_def)
next
  fix t ip mac
  assume "lease_inv t" "pool_table t"
  then show "pool_table (delete_lease t ip mac)"
    by (auto simp: pool_table_def delete_lease_map revoke_map_def split: option.splits if_splits)
next
  fix t ip now mac
  assume "lease_inv t" "pool_table t" "in_pool (ntohl ip)"
  then show "pool_table (add_lease t now ip mac)"
    by (auto simp: pool_table_def add_lease_map grant_map_def split: if_splits)
next
  fix t now ip mac
  assume "0 < check_ipaddr t now ip mac"
  then show "in_pool (ntohl ip)" by (simp add: check_ipaddr_spec may_use_def)
qed

text \<open>
  And so is holding a lease: the address \<open>a\<close> is recorded for \<open>mac\<close>, granted or renewed at
  \<open>t0\<close> or later. Stamps before \<open>t0\<close> and the release by that client are what could end it.
\<close>

definition held :: "int \<Rightarrow> u32 \<Rightarrow> u8 list \<Rightarrow> lease_table \<Rightarrow> bool" where
  "held t0 a mac t \<longleftrightarrow> (case lease_map t a of Some (mac', ts) \<Rightarrow> mac' = mac \<and> t0 \<le> ts | None \<Rightarrow> False)"

interpretation held: table_property "held t0 a mac" "\<lambda>_. True" "\<lambda>now. t0 \<le> now"
  "\<lambda>ip m. \<not> (ntohl ip = a \<and> same_mac mac m)" for t0 a mac
proof unfold_locales
  fix t now rs m rc oip t'
  assume h: "lease_inv t" "held t0 a mac t" "t0 \<le> now" "allocate_ip t now rs m = Inr (rc, oip, t')"
  from allocate_ip_cases [OF h(4,1)] h(2,3) show "held t0 a mac t'"
    by (elim disjE exE conjE) (auto simp: held_def split: option.splits if_splits)
next
  fix t ip m
  assume "lease_inv t" "held t0 a mac t" "\<not> (ntohl ip = a \<and> same_mac mac m)"
  then show "held t0 a mac (delete_lease t ip m)"
    by (auto simp: held_def delete_lease_map revoke_map_def split: option.splits if_splits)
next
  fix t ip now m
  assume "lease_inv t" "held t0 a mac t" "t0 \<le> now"
  then show "held t0 a mac (add_lease t now ip m)"
    by (auto simp: held_def add_lease_map grant_map_def split: option.splits if_splits)
qed simp

end
