(* ===== verification/Server_Total.thy ===== *)
theory Server_Total
  imports Server_Invariants
begin

text \<open>
  When the server's handlers have a defined outcome: on a message whose option area parses, with
  four-byte addresses in options 50 and 54, with an address to answer, and with random numbers
  that reach the whole pool; for a DISCOVER of an unknown client the counter must not have overflowed. The fault cases are properties of their own.
\<close>

definition mac_known :: "lease_table \<Rightarrow> u8 list \<Rightarrow> bool" where
  "mac_known t mac \<longleftrightarrow> list_ex (\<lambda>l. same_mac (lease_chaddr l) mac) (leases t)"

definition serviceable :: "lease_table \<Rightarrow> dhcp_t \<Rightarrow> bool" where
  "serviceable t d \<longleftrightarrow> (message_type d = Some DHCPDISCOVER \<longrightarrow> mac_known t (chaddr d) \<or> length (leases t) < 2 ^ 31) \<and>
     (case tlvs (options d) of
        None \<Rightarrow> False
      | Some os \<Rightarrow>
          (case map_of os OPTION_REQUESTED_IP of None \<Rightarrow> True | Some v \<Rightarrow> length v = 4) \<and>
          (case map_of os OPTION_DHCP_SERVER_IDENTIFIER of None \<Rightarrow> True | Some v \<Rightarrow> length v = 4) \<and>
          (message_type d = Some DHCPINFORM \<and> ciaddr d = 0 \<longrightarrow>
             map_of os OPTION_REQUESTED_IP \<noteq> None) \<and>
          (ciaddr d \<noteq> 0 \<longrightarrow> mac_known t (chaddr d) \<or> length (leases t) < IP_ADDRESS_POOL_AMOUNT))"

text \<open>A four-byte option of an area that parses, as the code reads it.\<close>

lemma tlvs_lookup32:
  assumes "tlvs opts = Some os" "ty \<noteq> 0" "map_of os ty = Some v" "length v = 4"
  obtains i where "get_dhcp_option opts ty = Inr (OptAt 4 i)"
    "load32 opts (Some i) = Inr (word_le32 v)"
proof -
  obtain i where "get_dhcp_option opts ty = Inr (OptAt (of_nat (length v)) i)"
    "load_bytes opts (Some i) (length v) = Inr v"
    using tlvs_lookup_Some [OF assms(1-3)] by blast
  with assms(4) that show thesis by (simp add: load32_def)
qed

lemma allocate_total:
  assumes "lease_inv t" "covers_pool rs" "mac_known t mac \<or> length (leases t) < 2 ^ 31"
  shows "\<exists>rc oip t'. allocate_ip t now rs mac = Inr (rc, oip, t') \<and> (oip = None \<longrightarrow> rc < 0) \<and>
    (mac_known t mac \<or> length (leases t) < IP_ADDRESS_POOL_AMOUNT \<longrightarrow> oip \<noteq> None)"
proof -
  consider "\<exists>l \<in> set (leases t). same_mac (lease_chaddr l) mac"
    | "\<forall>l \<in> set (leases t). \<not> same_mac (lease_chaddr l) mac"
      "int IP_ADDRESS_POOL_AMOUNT \<le> sint (num_of_lease t)"
    | "\<forall>l \<in> set (leases t). \<not> same_mac (lease_chaddr l) mac"
      "length (leases t) < IP_ADDRESS_POOL_AMOUNT"
    using assms(1,3) by (force simp: lease_inv_def mac_known_def list_ex_iff)
  then show ?thesis
  proof cases
    case 1
    from allocate_ip_known [OF assms(1) 1, of now rs] show ?thesis by fastforce
  next
    case 2
    with allocate_ip_full [OF 2, of now rs] assms(1) show ?thesis
      by (auto simp: mac_known_def list_ex_iff lease_inv_def)
  next
    case 3
    from allocate_ip_new [OF 3 assms(1,2), of now] show ?thesis by fastforce
  qed
qed

lemma requested_ip_ok_total:
  assumes "tlvs (options (dhcp_recv s)) = Some os"
    "\<And>v. map_of os OPTION_REQUESTED_IP = Some v \<Longrightarrow> length v = 4"
  shows "\<exists>r. requested_ip_ok now s = Inr r"
proof (cases "map_of os OPTION_REQUESTED_IP")
  case None
  with tlvs_lookup_None [OF assms(1)] show ?thesis by (simp add: requested_ip_ok_def)
next
  case (Some v)
  obtain i where "get_dhcp_option (options (dhcp_recv s)) OPTION_REQUESTED_IP = Inr (OptAt 4 i)"
    "load32 (options (dhcp_recv s)) (Some i) = Inr (word_le32 v)"
    by (rule tlvs_lookup32 [OF assms(1) _ Some assms(2) [OF Some]]) (simp, rule that)
  then show ?thesis by (simp add: requested_ip_ok_def Let_def)
qed

lemma unicast_setup_total:
  assumes "tlvs (options (dhcp_recv s)) = Some os"
    "\<And>v. map_of os OPTION_REQUESTED_IP = Some v \<Longrightarrow> length v = 4"
  shows "\<exists>s'. unicast_setup now s = Inr s'"
  using requested_ip_ok_total [OF assms, of now] by (auto simp: unicast_setup_def)

lemma set_yiaddr_total:
  assumes "tlvs (options (dhcp_recv s)) = Some os" "lease_inv (table s)" "covers_pool (rnd e)"
    "\<And>v. map_of os OPTION_REQUESTED_IP = Some v \<Longrightarrow> length v = 4"
    "st = DHCPACK \<Longrightarrow> ciaddr (dhcp_recv s) = 0 \<Longrightarrow> map_of os OPTION_REQUESTED_IP \<noteq> None"
    "st = DHCPACK \<Longrightarrow> ciaddr (dhcp_recv s) \<noteq> 0 \<Longrightarrow>
       mac_known (table s) (chaddr (dhcp_recv s)) \<or> length (leases (table s)) < IP_ADDRESS_POOL_AMOUNT"
    "st = DHCPOFFER \<Longrightarrow> mac_known (table s) (chaddr (dhcp_recv s)) \<or> length (leases (table s)) < 2 ^ 31"
    "st \<in> {DHCPOFFER, DHCPACK, DHCPNAK}"
  shows "\<exists>r. set_yiaddr_srv e st s = Inr r"
proof -
  obtain ro where ro: "requested_ip_ok (t_check e) s = Inr ro"
    using requested_ip_ok_total [OF assms(1,4)] by blast
  consider "st = DHCPNAK" | "st = DHCPACK" "ciaddr (dhcp_recv s) = 0"
    | "st = DHCPOFFER" | "st = DHCPACK" "ciaddr (dhcp_recv s) \<noteq> 0" using assms(8) by auto
  then show ?thesis
  proof cases
    case 1
    then show ?thesis by (auto simp: set_yiaddr_srv_def)
  next
    case 2
    then obtain v where v: "map_of os OPTION_REQUESTED_IP = Some v" using assms(5) by auto
    obtain i where "get_dhcp_option (options (dhcp_recv s)) OPTION_REQUESTED_IP = Inr (OptAt 4 i)"
      "load32 (options (dhcp_recv s)) (Some i) = Inr (word_le32 v)"
      by (rule tlvs_lookup32 [OF assms(1) _ v assms(4) [OF v]]) (simp, rule that)
    with 2 show ?thesis by (auto simp: set_yiaddr_srv_def Let_def)
  next
    case 3
    with ro allocate_total [OF assms(2,3) assms(7), of "t_lease e"] show ?thesis
      by (auto simp: set_yiaddr_srv_def Let_def split: option.splits)
  next
    case 4
    then have known: "mac_known (table s) (chaddr (dhcp_recv s)) \<or> length (leases (table s)) < IP_ADDRESS_POOL_AMOUNT"
      by (rule assms(6))
    then have "mac_known (table s) (chaddr (dhcp_recv s)) \<or> length (leases (table s)) < 2 ^ 31" by auto
    with 4 known allocate_total [OF assms(2,3), of "chaddr (dhcp_recv s)" "t_lease e"] show ?thesis
      by (auto simp: set_yiaddr_srv_def Let_def split: option.splits)
  qed
qed

text \<open>Once the address step returns, so does the construction.\<close>

lemma construct_returns:
  assumes "set_yiaddr_srv e st (s\<lparr>dhcp_recv := (dhcp_recv s)\<lparr>opcode := BOOTP_MESSAGE_TYPE_REPLY\<rparr>\<rparr>) = Inr r"
    and "wf_dhcp (dhcp_recv s)" "message_type (dhcp_recv s) = Some m"
  shows "\<exists>n s'. construct_dhcp_packet_srv e st s = Inr (n, s')"
proof -
  obtain ok s2 where r: "r = (ok, s2)" by (cases r)
  have opts: "options (dhcp_recv s2) = options (dhcp_recv s)"
    using set_yiaddr_options [OF assms(1) [unfolded r]] by simp
  obtain i where "get_dhcp_option (options (dhcp_recv s)) OPTION_DHCP_MESSAGE_TYPE = Inr (OptAt 1 i)"
    "i < length (options (dhcp_recv s))"
    using assms(3) by (auto simp: message_type_def split: if_splits sum.splits opt_lookup.splits)
  moreover have len: "length (options (dhcp_recv s)) = DHCP_MAX_OPTION_LEN"
    using assms(2) by (simp add: wf_dhcp_def)
  ultimately show ?thesis
    using assms(1) opts r
    by (cases ok) (auto simp: construct_dhcp_packet_srv_def Let_def server_options_eq [OF len]
        load8_def written_def)
qed

lemma construct_total:
  assumes "tlvs (options (dhcp_recv s)) = Some os" "lease_inv (table s)" "covers_pool (rnd e)"
    "\<And>v. map_of os OPTION_REQUESTED_IP = Some v \<Longrightarrow> length v = 4"
    "st = DHCPACK \<Longrightarrow> ciaddr (dhcp_recv s) = 0 \<Longrightarrow> map_of os OPTION_REQUESTED_IP \<noteq> None"
    "st = DHCPACK \<Longrightarrow> ciaddr (dhcp_recv s) \<noteq> 0 \<Longrightarrow>
       mac_known (table s) (chaddr (dhcp_recv s)) \<or> length (leases (table s)) < IP_ADDRESS_POOL_AMOUNT"
    "st = DHCPOFFER \<Longrightarrow> mac_known (table s) (chaddr (dhcp_recv s)) \<or> length (leases (table s)) < 2 ^ 31"
    "st \<in> {DHCPOFFER, DHCPACK, DHCPNAK}"
    "wf_dhcp (dhcp_recv s)" "message_type (dhcp_recv s) = Some m"
  shows "\<exists>n s'. construct_dhcp_packet_srv e st s = Inr (n, s')"
proof -
  have "\<exists>r. set_yiaddr_srv e st (s\<lparr>dhcp_recv := (dhcp_recv s)\<lparr>opcode := BOOTP_MESSAGE_TYPE_REPLY\<rparr>\<rparr>) = Inr r"
    by (rule set_yiaddr_total [where os = os]) (use assms(1-8) in auto)
  with construct_returns assms(9,10) show ?thesis by blast
qed

section \<open>Every handler returns\<close>

text \<open>What a serviceable message gives, as the lemmas above want it.\<close>

lemma serviceableE:
  assumes "serviceable t d"
  obtains os where "tlvs (options d) = Some os"
    "\<And>v. map_of os OPTION_REQUESTED_IP = Some v \<Longrightarrow> length v = 4"
    "\<And>v. map_of os OPTION_DHCP_SERVER_IDENTIFIER = Some v \<Longrightarrow> length v = 4"
    "message_type d = Some DHCPINFORM \<Longrightarrow> ciaddr d = 0 \<Longrightarrow> map_of os OPTION_REQUESTED_IP \<noteq> None"
    "ciaddr d \<noteq> 0 \<Longrightarrow> mac_known t (chaddr d) \<or> length (leases t) < IP_ADDRESS_POOL_AMOUNT"
    "message_type d = Some DHCPDISCOVER \<Longrightarrow> mac_known t (chaddr d) \<or> length (leases t) < 2 ^ 31"
  using assms by (auto simp: serviceable_def split: option.splits)

lemma discover_total:
  assumes "serviceable (table s) (dhcp_recv s)" "lease_inv (table s)" "wf_dhcp (dhcp_recv s)"
    "covers_pool (rnd e)" "message_type (dhcp_recv s) = Some DHCPDISCOVER"
  shows "\<exists>s'. dhcp_handle_discover e s = Inr s'"
proof -
  let ?s0 = "change_socket_setup_srv INADDR_ANY INADDR_BROADCAST s"
  obtain os where os: "tlvs (options (dhcp_recv s)) = Some os"
    "\<And>v. map_of os OPTION_REQUESTED_IP = Some v \<Longrightarrow> length v = 4"
    "mac_known (table s) (chaddr (dhcp_recv s)) \<or> length (leases (table s)) < 2 ^ 31"
    using serviceableE [OF assms(1)] assms(5) by metis
  obtain s1 where 1: "unicast_setup (t_unicast e) ?s0 = Inr s1"
    using unicast_setup_total [of ?s0 os "t_unicast e"] os(1,2) by auto
  have "\<exists>n s'. construct_dhcp_packet_srv e DHCPOFFER s1 = Inr (n, s')"
    by (rule construct_total [where os = os])
      (use unicast_setup_frame [OF 1] os assms in simp_all)
  with 1 show ?thesis by (auto simp: dhcp_handle_discover_def)
qed

lemma inform_total:
  assumes "serviceable (table s) (dhcp_recv s)" "lease_inv (table s)" "wf_dhcp (dhcp_recv s)"
    "covers_pool (rnd e)" "message_type (dhcp_recv s) = Some DHCPINFORM"
  shows "\<exists>s'. dhcp_handle_inform e s = Inr s'"
proof -
  obtain os where os: "tlvs (options (dhcp_recv s)) = Some os"
    "\<And>v. map_of os OPTION_REQUESTED_IP = Some v \<Longrightarrow> length v = 4"
    "ciaddr (dhcp_recv s) = 0 \<Longrightarrow> map_of os OPTION_REQUESTED_IP \<noteq> None"
    "ciaddr (dhcp_recv s) \<noteq> 0 \<Longrightarrow>
      mac_known (table s) (chaddr (dhcp_recv s)) \<or> length (leases (table s)) < IP_ADDRESS_POOL_AMOUNT"
    using serviceableE [OF assms(1)] assms(5) by metis
  have "\<exists>n s'. construct_dhcp_packet_srv e DHCPACK
      (change_socket_setup_srv DHCP_SERVER_IP_ADDRESS (ntohl (ciaddr (dhcp_recv s))) s) = Inr (n, s')"
    by (rule construct_total [where os = os]) (use os assms in simp_all)
  then show ?thesis by (auto simp: dhcp_handle_inform_def)
qed

text \<open>A request without option 50 reads the server identifier as the address, which is refused.\<close>

lemma server_not_in_pool: "check_ipaddr t now (htonl DHCP_SERVER_IP_ADDRESS) mac \<le> 0"
  by (simp add: check_ipaddr_spec may_use_def in_pool_def flip: not_less)

text \<open>A REQUEST that names this server, without and with a client address.\<close>

lemma selecting_total:
  assumes "get_dhcp_option (options (dhcp_recv s)) OPTION_DHCP_SERVER_IDENTIFIER = Inr (OptAt 4 i)"
    "load32 (options (dhcp_recv s)) (Some i) = Inr (htonl DHCP_SERVER_IP_ADDRESS)"
    and os: "tlvs (options (dhcp_recv s)) = Some os"
    "\<And>v. map_of os OPTION_REQUESTED_IP = Some v \<Longrightarrow> length v = 4"
    and "ciaddr (dhcp_recv s) = 0" "lease_inv (table s)" "wf_dhcp (dhcp_recv s)"
    "covers_pool (rnd e)" "message_type (dhcp_recv s) = Some m"
  shows "\<exists>s'. dhcp_handle_request e s = Inr s'"
proof -
  let ?d = "dhcp_recv s" and ?s0 = "change_socket_setup_srv INADDR_ANY INADDR_BROADCAST s"
  obtain s1 where s1: "unicast_setup (t_unicast e) ?s0 = Inr s1"
    using unicast_setup_total [of ?s0 os "t_unicast e"] os by auto
  have construct: "\<exists>n s'. construct_dhcp_packet_srv e st s1 = Inr (n, s')"
    if "st = DHCPACK \<and> map_of os OPTION_REQUESTED_IP \<noteq> None \<or> st = DHCPNAK" for st
    by (rule construct_total [where os = os]) (use unicast_setup_frame [OF s1] assms that in auto)
  show ?thesis
  proof (cases "map_of os OPTION_REQUESTED_IP")
    case None
    with construct [of DHCPNAK] assms(1,2,5) s1 tlvs_lookup_None [OF os(1) None]
      server_not_in_pool [of "table s1" "t_check e" "chaddr ?d"]
    show ?thesis by (auto simp: dhcp_handle_request_def Let_def)
  next
    case (Some w)
    obtain j where "get_dhcp_option (options ?d) OPTION_REQUESTED_IP = Inr (OptAt 4 j)"
      "load32 (options ?d) (Some j) = Inr (word_le32 w)"
      by (rule tlvs_lookup32 [OF os(1) _ Some os(2) [OF Some]]) (simp, rule that)
    with Some construct [of DHCPNAK] construct [of DHCPACK] assms(1,2,5) s1 show ?thesis
      by (auto simp: dhcp_handle_request_def Let_def)
  qed
qed

lemma renewing_total:
  assumes "get_dhcp_option (options (dhcp_recv s)) OPTION_DHCP_SERVER_IDENTIFIER = Inr (OptAt 4 i)"
    "load32 (options (dhcp_recv s)) (Some i) = Inr (htonl DHCP_SERVER_IP_ADDRESS)"
    and os: "tlvs (options (dhcp_recv s)) = Some os"
    "\<And>v. map_of os OPTION_REQUESTED_IP = Some v \<Longrightarrow> length v = 4"
    and "ciaddr (dhcp_recv s) \<noteq> 0" "lease_inv (table s)" "wf_dhcp (dhcp_recv s)"
    "covers_pool (rnd e)" "message_type (dhcp_recv s) = Some m"
    "mac_known (table s) (chaddr (dhcp_recv s)) \<or> length (leases (table s)) < IP_ADDRESS_POOL_AMOUNT"
  shows "\<exists>s'. dhcp_handle_request e s = Inr s'"
proof -
  let ?s1 = "change_socket_setup_srv DHCP_SERVER_IP_ADDRESS (ntohl (ciaddr (dhcp_recv s))) s"
  have "\<exists>n s'. construct_dhcp_packet_srv e st ?s1 = Inr (n, s')" if "st = DHCPACK \<or> st = DHCPNAK" for st
    by (rule construct_total [where os = os]) (use assms that in auto)
  with assms(1,2,5) show ?thesis
    by (fastforce simp: dhcp_handle_request_def Let_def)
qed

lemma request_total:
  assumes "serviceable (table s) (dhcp_recv s)" "lease_inv (table s)" "wf_dhcp (dhcp_recv s)"
    "covers_pool (rnd e)" "message_type (dhcp_recv s) = Some m"
  shows "\<exists>s'. dhcp_handle_request e s = Inr s'"
proof -
  let ?d = "dhcp_recv s"
  obtain os where os: "tlvs (options ?d) = Some os"
    "\<And>v. map_of os OPTION_REQUESTED_IP = Some v \<Longrightarrow> length v = 4"
    "\<And>v. map_of os OPTION_DHCP_SERVER_IDENTIFIER = Some v \<Longrightarrow> length v = 4"
    "ciaddr ?d \<noteq> 0 \<Longrightarrow> mac_known (table s) (chaddr ?d) \<or> length (leases (table s)) < IP_ADDRESS_POOL_AMOUNT"
    using serviceableE [OF assms(1)] by metis
  show ?thesis
  proof (cases "map_of os OPTION_DHCP_SERVER_IDENTIFIER")
    case None
    with tlvs_lookup_None [OF os(1)] show ?thesis by (simp add: dhcp_handle_request_def)
  next
    case (Some v)
    obtain i where i: "get_dhcp_option (options ?d) OPTION_DHCP_SERVER_IDENTIFIER = Inr (OptAt 4 i)"
      "load32 (options ?d) (Some i) = Inr (word_le32 v)"
      by (rule tlvs_lookup32 [OF os(1) _ Some os(3) [OF Some]]) (simp, rule that)
    consider "ntohl (word_le32 v) \<noteq> DHCP_SERVER_IP_ADDRESS" | "word_le32 v = htonl DHCP_SERVER_IP_ADDRESS"
      by (metis net32.hton_ntoh)
    then show ?thesis
    proof cases
      case 1
      with i show ?thesis by (simp add: dhcp_handle_request_def Let_def)
    next
      case 2
      with i have "load32 (options ?d) (Some i) = Inr (htonl DHCP_SERVER_IP_ADDRESS)" by simp
      from selecting_total [OF i(1) this os(1,2)] renewing_total [OF i(1) this os(1,2)] os(4) assms(2-5)
      show ?thesis by (cases "ciaddr ?d = 0") simp_all
    qed
  qed
qed

lemma release_total:
  assumes "serviceable (table s) (dhcp_recv s)"
  shows "\<exists>s'. dhcp_handle_release s = Inr s'"
proof -
  obtain os where os: "tlvs (options (dhcp_recv s)) = Some os"
    "\<And>v. map_of os OPTION_DHCP_SERVER_IDENTIFIER = Some v \<Longrightarrow> length v = 4"
    using serviceableE [OF assms] by metis
  show ?thesis
  proof (cases "map_of os OPTION_DHCP_SERVER_IDENTIFIER")
    case None
    with tlvs_lookup_None [OF os(1)] show ?thesis by (simp add: dhcp_handle_release_def)
  next
    case (Some v)
    obtain i where "get_dhcp_option (options (dhcp_recv s)) OPTION_DHCP_SERVER_IDENTIFIER = Inr (OptAt 4 i)"
      "load32 (options (dhcp_recv s)) (Some i) = Inr (word_le32 v)"
      by (rule tlvs_lookup32 [OF os(1) _ Some os(2) [OF Some]]) (simp, rule that)
    then show ?thesis by (simp add: dhcp_handle_release_def Let_def)
  qed
qed

lemma dispatch_total:
  assumes "serviceable (table s) (dhcp_recv s)" "lease_inv (table s)" "wf_dhcp (dhcp_recv s)"
    "covers_pool (rnd e)"
  shows "\<exists>s'. dispatch e s = Inr s'"
proof -
  let ?d = "dhcp_recv s"
  obtain os where os: "tlvs (options ?d) = Some os" using assms(1) by (rule serviceableE)
  obtain r where r: "get_dhcp_option (options ?d) OPTION_DHCP_MESSAGE_TYPE = Inr r"
    using tlvs_lookup_total [OF os, of OPTION_DHCP_MESSAGE_TYPE] by auto
  show ?thesis
  proof (cases "opcode ?d = BOOTP_MESSAGE_TYPE_REQUEST \<and> opt_ret r = 1")
    case False
    with r show ?thesis by (auto simp: dispatch_def Let_def)
  next
    case True
    then obtain i where i: "r = OptAt 1 i" by (cases r) auto
    obtain v where v: "map_of os OPTION_DHCP_MESSAGE_TYPE = Some v"
      using tlvs_lookup_None [OF os, of OPTION_DHCP_MESSAGE_TYPE] r i by force
    obtain j where j: "get_dhcp_option (options ?d) OPTION_DHCP_MESSAGE_TYPE = Inr (OptAt (of_nat (length v)) j)"
      "load_bytes (options ?d) (Some j) (length v) = Inr v" "length v < 256"
      by (rule tlvs_lookup_Some [OF os _ v]) (simp, rule that)
    have "of_nat (length v) = (1 :: u8)" using j(1) r i by simp
    then have "length v = 1" using j(3) by (metis unat_1 unat_length_u8)
    with j r i have b: "load8 (options ?d) (Some i) = Inr (options ?d ! i)" "i < length (options ?d)"
      by (auto simp: load_bytes_def load8_def split: if_splits)
    with True r i have mt: "message_type ?d = Some (options ?d ! i)"
      by (simp add: message_type_def)
    show ?thesis
      using True r i b(1) discover_total [OF assms] request_total [OF assms mt]
        inform_total [OF assms] release_total [OF assms(1)] mt
      by (auto simp: dispatch_def Let_def)
  qed
qed

end
