(* ===== verification/Samples.thy ===== *)
theory Samples
  imports Server_Total
begin

text \<open>
  Concrete messages and server states, at which the properties of the server and the client are
  instantiated: a message is given by its opcode, flags, addresses, MAC and options, and its
  option area is the encoding of the options followed by zero bytes.
\<close>

definition sample_msg :: "u8 \<Rightarrow> u16 \<Rightarrow> u32 \<Rightarrow> u8 list \<Rightarrow> (u8 \<times> u8 list) list \<Rightarrow> dhcp_t" where
  "sample_msg op fl ci mac os = \<lparr>
     opcode = op, htype = HARDWARE_TYPE, hlen = 6, hops = DHCP_HOPS, xid = 0x12345678, secs = 0,
     flags = fl, ciaddr = ci, yiaddr = 0, siaddr = 0, giaddr = 0, chaddr = mac @ replicate 10 0,
     sname = replicate 64 0, fname = replicate 128 0, magic_cookie = htonl DHCP_MAGIC_COOKIE,
     options = enc_opts os @ replicate (DHCP_MAX_OPTION_LEN - length (enc_opts os)) 0\<rparr>"

definition sample_server :: "dhcp_t \<Rightarrow> lease_table \<Rightarrow> server" where
  "sample_server d t = \<lparr>table = t, dhcp_recv = d,
     dhcp_server_addr = \<lparr>sin_port = htons DHCP_SERVER_PORT, sin_addr = 0\<rparr>,
     dhcp_client_addr = \<lparr>sin_port = htons DHCP_CLIENT_PORT, sin_addr = htonl INADDR_BROADCAST\<rparr>,
     sent = []\<rparr>"

definition sample_env :: "int \<Rightarrow> env" where
  "sample_env now = \<lparr>t_unicast = now, t_check = now, t_lease = now, rnd = (\<lambda>k. k)\<rparr>"

abbreviation (input) sample_mac :: "u8 list" where "sample_mac \<equiv> [2, 0, 0, 0, 0, 1]"
abbreviation (input) other_mac :: "u8 list" where "other_mac \<equiv> [2, 0, 0, 0, 0, 2]"

lemma sample_msg_simps [simp]:
  "opcode (sample_msg op fl ci mac os) = op"
  "flags (sample_msg op fl ci mac os) = fl"
  "ciaddr (sample_msg op fl ci mac os) = ci"
  "xid (sample_msg op fl ci mac os) = 0x12345678"
  "chaddr (sample_msg op fl ci mac os) = mac @ replicate 10 0"
  by (simp_all add: sample_msg_def)

lemma sample_server_simps [simp]:
  "table (sample_server d t) = t" "dhcp_recv (sample_server d t) = d" "sent (sample_server d t) = []"
  by (simp_all add: sample_server_def)

lemma sample_env_simps [simp]:
  "t_unicast (sample_env now) = now" "t_check (sample_env now) = now"
  "t_lease (sample_env now) = now" "covers_pool (rnd (sample_env now))"
  unfolding covers_pool_def by (simp_all add: sample_env_def) (metis mod_less)

lemma wf_sample_msg:
  "length mac = 6 \<Longrightarrow> length (enc_opts os) \<le> DHCP_MAX_OPTION_LEN \<Longrightarrow> wf_dhcp (sample_msg op fl ci mac os)"
  by (simp add: wf_dhcp_def sample_msg_def)

lemma tlvs_sample_msg:
  assumes "enc_ok os" "length (enc_opts os) < DHCP_MAX_OPTION_LEN"
  shows "tlvs (options (sample_msg op fl ci mac os)) = Some os"
proof -
  have "replicate (DHCP_MAX_OPTION_LEN - length (enc_opts os)) 0 =
      (0 :: u8) # replicate (DHCP_MAX_OPTION_LEN - length (enc_opts os) - 1) 0"
    using assms(2) by (simp flip: replicate_Suc)
  with tlvs_enc [OF assms(1)] show ?thesis by (simp add: sample_msg_def)
qed

text \<open>A four-byte option and the message type of a sample, as the code reads them.\<close>

lemma sample_lookup32:
  assumes "enc_ok os" "length (enc_opts os) < DHCP_MAX_OPTION_LEN" "ty \<noteq> 0"
    "map_of os ty = Some (bytes_le32 v)"
  obtains i where "get_dhcp_option (options (sample_msg op fl ci mac os)) ty = Inr (OptAt 4 i)"
    "load32 (options (sample_msg op fl ci mac os)) (Some i) = Inr v"
  by (rule tlvs_lookup32 [OF tlvs_sample_msg [OF assms(1,2)] assms(3,4)]) (simp, rule that, simp_all)

lemma sample_message_type:
  assumes "enc_ok ((OPTION_DHCP_MESSAGE_TYPE, [m]) # os)"
    "length (enc_opts os) < DHCP_MAX_OPTION_LEN - 3"
  shows "message_type (sample_msg BOOTP_MESSAGE_TYPE_REQUEST fl ci mac
           ((OPTION_DHCP_MESSAGE_TYPE, [m]) # os)) = Some m"
  using get_dhcp_option_found [of "[]" OPTION_DHCP_MESSAGE_TYPE "[m]"]
  by (simp add: message_type_def sample_msg_def enc_opt_def)

lemma recv_full:
  assumes "wf_dhcp old" "wf_dhcp d"
  shows "recv_dhcp old (dhcp_bytes d) = d"
  using assms length_dhcp_bytes [of d] length_dhcp_bytes [of old] dhcp_of_bytes_bytes [of d]
  by (simp add: recv_dhcp_def)

end
