(* ===== verification/Server_Runs.thy ===== *)
theory Server_Runs
  imports Samples
begin

text \<open>
  Steps and runs of the server: the invariants of the reachable states, what holds of the table
  along a run, and the datagram that each replying handler sends.
\<close>

section \<open>Reachable states\<close>

definition srv_inv :: "server \<Rightarrow> bool" where
  "srv_inv s \<longleftrightarrow> wf_dhcp (dhcp_recv s) \<and> lease_inv (table s)"

lemma construct_wf:
  assumes "construct_dhcp_packet_srv e st s = Inr (n, s')" "srv_inv s"
  shows "wf_dhcp (dhcp_recv s')"
  using construct_inv [OF assms(1)] assms(2) by (simp add: srv_inv_def)

lemma discover_wf:
  assumes "dhcp_handle_discover e s = Inr s'" "srv_inv s"
  shows "wf_dhcp (dhcp_recv s')"
proof -
  obtain s1 n s2 where 1: "unicast_setup (t_unicast e)
      (change_socket_setup_srv INADDR_ANY INADDR_BROADCAST s) = Inr s1"
    and 2: "construct_dhcp_packet_srv e DHCPOFFER s1 = Inr (n, s2)" and "s' = send_reply n s2"
    using assms(1) by (auto simp: dhcp_handle_discover_def res_simps)
  with construct_wf [OF 2] unicast_setup_frame [OF 1] assms(2) show ?thesis
    by (simp add: srv_inv_def)
qed

lemma request_wf:
  assumes "dhcp_handle_request e s = Inr s'" "srv_inv s"
  shows "wf_dhcp (dhcp_recv s')"
  using assms(1)
proof (cases rule: request_cases)
  case ignored
  then show ?thesis using assms(2) by (simp add: srv_inv_def)
next
  case (selecting i s1 r ip n s2)
  with construct_wf [OF selecting(6)] unicast_setup_frame [OF selecting(3)] assms(2) show ?thesis
    by (simp add: srv_inv_def)
next
  case (renewing n s2)
  with construct_wf [OF renewing(3)] assms(2) show ?thesis by (simp add: srv_inv_def)
qed

lemma inform_wf:
  assumes "dhcp_handle_inform e s = Inr s'" "srv_inv s"
  shows "wf_dhcp (dhcp_recv s')"
proof -
  obtain n s2 where 2: "construct_dhcp_packet_srv e DHCPACK
      (change_socket_setup_srv DHCP_SERVER_IP_ADDRESS (ntohl (ciaddr (dhcp_recv s))) s) = Inr (n, s2)"
    and "s' = send_reply n s2"
    using assms(1) by (auto simp: dhcp_handle_inform_def res_simps)
  with construct_wf [OF 2] assms(2) show ?thesis by (simp add: srv_inv_def)
qed

lemma release_wf:
  assumes "dhcp_handle_release s = Inr s'"
  shows "dhcp_recv s' = dhcp_recv s \<and> sent s' = sent s"
  using assms by (auto simp: dhcp_handle_release_def Let_def res_simps split: if_splits)

lemma dispatch_inv:
  assumes "dispatch e s = Inr s'" "srv_inv s"
  shows "srv_inv s'"
proof -
  have "lease_inv (table s')"
    using rep.dispatch_keeps [OF assms(1)] assms(2) by (simp add: srv_inv_def grant_allowed_def)
  moreover have "wf_dhcp (dhcp_recv s')"
    using dispatch_message_type [OF assms(1)] assms(2)
      discover_wf [of e s s'] request_wf [of e s s'] inform_wf [of e s s'] release_wf [of s s']
    by (auto simp: srv_inv_def split: option.splits if_splits)
  ultimately show ?thesis by (simp add: srv_inv_def)
qed

lemma received_inv:
  "srv_inv s \<Longrightarrow> srv_inv ((change_socket_setup_srv a b s)\<lparr>dhcp_recv := recv_dhcp (dhcp_recv s) dgram\<rparr>)"
  by (simp add: srv_inv_def wf_recv_dhcp)

lemma server_step_inv:
  assumes "server_step e input s = Inr s'" "srv_inv s"
  shows "srv_inv s'"
proof (cases input)
  case None
  with assms show ?thesis by (auto simp: server_step_def srv_inv_def)
next
  case (Some dgram)
  with assms dispatch_inv received_inv show ?thesis
    by (fastforce simp: server_step_def Let_def)
qed

text \<open>
  The states the server reaches when every message it gets satisfies \<open>ok\<close> at the time it stands
  in the buffer, and the table it stands next to.
\<close>

inductive srv_reach :: "(dhcp_t \<Rightarrow> bool) \<Rightarrow> server \<Rightarrow> bool" for ok where
  started: "dhcp_setup_srv dev succeeds = Inr s \<Longrightarrow> srv_reach ok s"
| recv_fails: "srv_reach ok s \<Longrightarrow> server_step e None s = Inr s' \<Longrightarrow> srv_reach ok s'"
| recv: "srv_reach ok s \<Longrightarrow> ok (recv_dhcp (dhcp_recv s) dgram) \<Longrightarrow>
    server_step e (Some dgram) s = Inr s' \<Longrightarrow> srv_reach ok s'"

lemma setup_inv: "dhcp_setup_srv dev succeeds = Inr s \<Longrightarrow> srv_inv s \<and> table s = empty_table \<and> sent s = []"
  by (auto simp: dhcp_setup_srv_def res_simps srv_inv_def lease_inv_empty wf_zero_msg split: if_splits)

lemma srv_reach_inv: "srv_reach ok s \<Longrightarrow> srv_inv s"
  by (induction rule: srv_reach.induct) (auto dest: setup_inv server_step_inv)

text \<open>An INFORM that carries no client address: the one message that grants without a check.\<close>

definition addressless_inform :: "dhcp_t \<Rightarrow> bool" where
  "addressless_inform d \<longleftrightarrow> message_type d = Some DHCPINFORM \<and> ciaddr d = 0"

lemma server_step_pool:
  assumes "server_step e input s = Inr s'" "srv_inv s" "pool_table (table s)"
    and "\<And>dgram. input = Some dgram \<Longrightarrow> \<not> addressless_inform (recv_dhcp (dhcp_recv s) dgram)"
  shows "pool_table (table s')"
proof (cases input)
  case None
  with assms show ?thesis by (auto simp: server_step_def)
next
  case (Some dgram)
  let ?s = "(change_socket_setup_srv INADDR_ANY INADDR_BROADCAST s)\<lparr>dhcp_recv := recv_dhcp (dhcp_recv s) dgram\<rparr>"
  have "dispatch e ?s = Inr s'" using assms(1) Some by (simp add: server_step_def Let_def)
  from pool.dispatch_keeps [OF this] received_inv [OF assms(2), where a = INADDR_ANY and b = INADDR_BROADCAST and dgram = dgram]
    assms(3,4) Some
  show ?thesis
    by (auto simp: srv_inv_def addressless_inform_def grant_allowed_def)
qed

lemma pool_table_count:
  assumes "lease_inv t" "pool_table t"
  shows "card (dom (lease_map t)) \<le> IP_ADDRESS_POOL_AMOUNT \<and> sint (num_of_lease t) = int (card (dom (lease_map t)))"
proof -
  have "dom (lease_map t) \<subseteq> (\<lambda>n. IP_ADDRESS_POOL_START + of_nat n) ` {..<IP_ADDRESS_POOL_AMOUNT}"
    using assms(2) by (auto simp: pool_table_def elim!: in_poolE)
  then have "card (dom (lease_map t)) \<le> card {..<IP_ADDRESS_POOL_AMOUNT}"
    by (meson card_image_le card_mono finite_imageI finite_lessThan order_trans)
  with lease_inv_count [OF assms(1)] show ?thesis by simp
qed

lemma srv_reach_pool:
  "srv_reach (\<lambda>d. \<not> addressless_inform d) s \<Longrightarrow> pool_table (table s)"
proof (induction rule: srv_reach.induct)
  case (started dev succeeds s)
  then show ?case using setup_inv [of dev succeeds s] by (simp add: pool_table_def)
next
  case (recv_fails s e s')
  then show ?case using server_step_pool srv_reach_inv by fastforce
next
  case (recv s dgram e s')
  then show ?case using server_step_pool [of e "Some dgram" s s'] srv_reach_inv by auto
qed

section \<open>What the handlers send\<close>

text \<open>Every handler that replies appends one datagram, the front of the buffer.\<close>

lemma discover_sends:
  assumes "dhcp_handle_discover e s = Inr s'" "srv_inv s"
  obtains s1 p where
    "unicast_setup (t_unicast e) (change_socket_setup_srv INADDR_ANY INADDR_BROADCAST s) = Inr s1"
    "sent s' = sent s @ [p]" "dest p = dhcp_client_addr s1"
    "(payload p = [] \<and> table s' = table s \<and> int IP_ADDRESS_POOL_AMOUNT \<le> sint (num_of_lease (table s))) \<or>
     (\<exists>t y w. payload p = reply_dgram DHCPOFFER w y (dhcp_recv s) \<and> table s' = t \<and>
        set_yiaddr_srv e DHCPOFFER (s1\<lparr>dhcp_recv := (dhcp_recv s1)\<lparr>opcode := BOOTP_MESSAGE_TYPE_REPLY\<rparr>\<rparr>) =
         Inr (True, s1\<lparr>table := t, dhcp_recv := (dhcp_recv s1)\<lparr>opcode := BOOTP_MESSAGE_TYPE_REPLY, yiaddr := y\<rparr>\<rparr>))"
proof -
  obtain s1 n s2 where 1: "unicast_setup (t_unicast e)
      (change_socket_setup_srv INADDR_ANY INADDR_BROADCAST s) = Inr s1"
    and 2: "construct_dhcp_packet_srv e DHCPOFFER s1 = Inr (n, s2)" and s': "s' = send_reply n s2"
    using assms(1) by (auto simp: dhcp_handle_discover_def res_simps)
  have s1: "table s1 = table s" "dhcp_recv s1 = dhcp_recv s" "sent s1 = sent s"
    using unicast_setup_frame [OF 1] by simp_all
  have wf: "wf_dhcp (dhcp_recv s1)" using assms(2) s1 by (simp add: srv_inv_def)
  from 2 wf show thesis
  proof (cases rule: construct_cases)
    case exhausted
    then show ?thesis
      by (intro that [OF 1, of "\<lparr>dest = dhcp_client_addr s1, payload = []\<rparr>"]) (simp_all add: s' s1)
  next
    case (reply t y w)
    then show ?thesis
      using reply_dgram_eq [OF wf, of DHCPOFFER w y]
      by (intro that [OF 1, of "\<lparr>dest = dhcp_client_addr s1,
            payload = reply_dgram DHCPOFFER w y (dhcp_recv s)\<rparr>"]) (auto simp: s' s1)
  qed
qed

text \<open>When the address step succeeds, the reply is built and sent.\<close>

lemma construct_sends:
  assumes "set_yiaddr_srv e st (s\<lparr>dhcp_recv := (dhcp_recv s)\<lparr>opcode := BOOTP_MESSAGE_TYPE_REPLY\<rparr>\<rparr>) =
      Inr (True, s\<lparr>table := t, dhcp_recv := (dhcp_recv s)\<lparr>opcode := BOOTP_MESSAGE_TYPE_REPLY, yiaddr := y\<rparr>\<rparr>)"
    and wf: "wf_dhcp (dhcp_recv s)" and m: "message_type (dhcp_recv s) = Some m"
  obtains n s2 w where "construct_dhcp_packet_srv e st s = Inr (n, s2)"
    "sent (send_reply n s2) = sent s @
       [\<lparr>dest = dhcp_client_addr s, payload = reply_dgram st w y (dhcp_recv s)\<rparr>]"
    "table s2 = t" "dhcp_recv s2 = reply_msg st w y (dhcp_recv s)"
    "st \<noteq> DHCPNAK \<Longrightarrow> \<exists>r m. get_dhcp_option (options (dhcp_recv s)) OPTION_DHCP_MESSAGE_TYPE = Inr r \<and>
         load8 (enc_opts (reply_head st @ reply_net) @ drop 39 (options (dhcp_recv s))) (opt_set r None) = Inr m \<and>
         w = (m \<noteq> DHCPINFORM)"
proof -
  obtain n s2 where c: "construct_dhcp_packet_srv e st s = Inr (n, s2)"
    using construct_returns [OF assms] by blast
  from c wf show thesis
  proof (cases rule: construct_cases)
    case exhausted
    then show ?thesis using assms(1) by simp
  next
    case (reply t' y' w)
    from reply(1) assms(1) have eq: "s\<lparr>table := t', dhcp_recv := (dhcp_recv s)\<lparr>opcode := BOOTP_MESSAGE_TYPE_REPLY, yiaddr := y'\<rparr>\<rparr> =
        s\<lparr>table := t, dhcp_recv := (dhcp_recv s)\<lparr>opcode := BOOTP_MESSAGE_TYPE_REPLY, yiaddr := y\<rparr>\<rparr>"
      by simp
    have "t' = t" "y' = y"
      using arg_cong [OF eq, of table] arg_cong [OF eq, of "\<lambda>s. yiaddr (dhcp_recv s)"] by simp_all
    with reply reply_dgram_eq [OF wf, of st w y] that [OF c, of w] show ?thesis by simp
  qed
qed

text \<open>
  The three answers to a request, as total statements: the acknowledgement of the requested
  address, the one that looks the address up by the MAC, and the refusal.
\<close>

lemma ack_selecting:
  assumes "wf_dhcp (dhcp_recv s)" "message_type (dhcp_recv s) = Some m" "ciaddr (dhcp_recv s) = 0"
    "get_dhcp_option (options (dhcp_recv s)) OPTION_REQUESTED_IP = Inr r"
    "load32 (options (dhcp_recv s)) (opt_set r None) = Inr ip"
  obtains n s2 w where "construct_dhcp_packet_srv e DHCPACK s = Inr (n, s2)"
    "sent (send_reply n s2) = sent s @
       [\<lparr>dest = dhcp_client_addr s, payload = reply_dgram DHCPACK w ip (dhcp_recv s)\<rparr>]"
    "table s2 = add_lease (table s) (t_lease e) ip (chaddr (dhcp_recv s))"
  by (rule construct_sends [OF _ assms(1,2), where e = e and st = DHCPACK and y = ip
        and t = "add_lease (table s) (t_lease e) ip (chaddr (dhcp_recv s))"])
    (use assms(3-5) that in \<open>auto simp: set_yiaddr_srv_def\<close>)

lemma ack_by_mac:
  assumes "wf_dhcp (dhcp_recv s)" "message_type (dhcp_recv s) = Some m" "ciaddr (dhcp_recv s) \<noteq> 0"
    "allocate_ip (table s) (t_lease e) (rnd e) (chaddr (dhcp_recv s)) = Inr (rc, Some a, t)"
  obtains n s2 w where "construct_dhcp_packet_srv e DHCPACK s = Inr (n, s2)"
    "sent (send_reply n s2) = sent s @
       [\<lparr>dest = dhcp_client_addr s, payload = reply_dgram DHCPACK w (htonl a) (dhcp_recv s)\<rparr>]"
    "table s2 = t"
  by (rule construct_sends [OF _ assms(1,2), where e = e and st = DHCPACK and y = "htonl a" and t = t])
    (use assms(3-4) that in \<open>auto simp: set_yiaddr_srv_def Let_def\<close>)

text \<open>
  The message type that decides about the lease times is read where the reply's own type has
  been written, when the request's first option is its type.
\<close>

lemma type_read_after_write:
  assumes "options d = OPTION_DHCP_MESSAGE_TYPE # 1 # m # rest"
    and "get_dhcp_option (options d) OPTION_DHCP_MESSAGE_TYPE = Inr r"
    and "load8 (enc_opts (reply_head st @ reply_net) @ drop 39 (options d)) (opt_set r None) = Inr m'"
  shows "m' = st"
proof -
  have "r = OptAt 1 2"
    using assms(2) get_dhcp_option_found [of "[]" OPTION_DHCP_MESSAGE_TYPE "[m]" rest]
    by (simp add: assms(1) enc_opt_def)
  with assms(3) show ?thesis by (simp add: load8_def reply_head_def enc_opt_def)
qed

lemma nak_sends:
  assumes "wf_dhcp (dhcp_recv s)" "message_type (dhcp_recv s) = Some m"
  obtains n s2 w where "construct_dhcp_packet_srv e DHCPNAK s = Inr (n, s2)"
    "sent (send_reply n s2) = sent s @
       [\<lparr>dest = dhcp_client_addr s, payload = reply_dgram DHCPNAK w 0 (dhcp_recv s)\<rparr>]"
    "table s2 = table s"
  by (rule construct_sends [OF _ assms(1,2), where e = e and st = DHCPNAK and y = 0 and t = "table s"])
    (use that in \<open>auto simp: set_yiaddr_srv_def\<close>)

section \<open>Runs\<close>

text \<open>Every state of a run from the set-up is reachable.\<close>

lemma srv_reach_step:
  assumes "srv_reach (\<lambda>_. True) s" "server_step e input s = Inr s'"
  shows "srv_reach (\<lambda>_. True) s'"
  using assms by (cases input) (auto intro: recv_fails recv)

lemma server_run_reach:
  "srv_reach (\<lambda>_. True) s \<Longrightarrow> server_run is s = Inr s' \<Longrightarrow> srv_reach (\<lambda>_. True) s'"
  by (induction "is" s rule: server_run.induct) (auto simp: res_simps dest: srv_reach_step)

lemma main_srv_InrD:
  assumes "main_srv euid argv succeeds inputs = Inr s"
  obtains s0 where "euid = 0" "length argv = 2" "argv ! 1 \<noteq> ''-h''" "length (argv ! 1) < IFNAMSIZ"
    "dhcp_setup_srv (argv ! 1) succeeds = Inr s0" "server_run inputs s0 = Inr s"
  using assms by (auto simp: main_srv_def dhcp_setup_srv_def res_simps split: if_splits)

text \<open>A predicate that holds of every message of a run when the loop has received it.\<close>

fun messages_satisfy :: "(env \<Rightarrow> dhcp_t \<Rightarrow> bool) \<Rightarrow> (env \<times> u8 list option) list \<Rightarrow> server \<Rightarrow> bool" where
  "messages_satisfy P [] s = True"
| "messages_satisfy P ((e, input) # is) s =
     ((case input of None \<Rightarrow> True | Some g \<Rightarrow> P e (recv_dhcp (dhcp_recv s) g)) \<and>
      (case server_step e input s of Inl _ \<Rightarrow> True | Inr s' \<Rightarrow> messages_satisfy P is s'))"

text \<open>An invariant of the loop, which may depend on what the messages satisfy, holds along a run.\<close>

lemma server_run_invariant:
  assumes "server_run is s = Inr s'" "P s" "messages_satisfy Q is s"
    and "\<And>e input s s'. P s \<Longrightarrow> (\<And>g. input = Some g \<Longrightarrow> Q e (recv_dhcp (dhcp_recv s) g)) \<Longrightarrow>
      server_step e input s = Inr s' \<Longrightarrow> P s'"
  shows "P s'"
  using assms(1-3)
proof (induction "is" s rule: server_run.induct)
  case (2 e input "is" s)
  then obtain s1 where s1: "server_step e input s = Inr s1" "server_run is s1 = Inr s'"
    by (auto simp: res_simps)
  have "P s1"
    by (rule assms(4) [OF "2.prems"(2) _ s1(1)]) (use "2.prems"(3) in auto)
  with "2.IH" [OF s1] "2.prems"(3) s1(1) show ?case by simp
qed simp

lemma messages_satisfy_True: "messages_satisfy (\<lambda>_ _. True) is s"
proof (induction "is" arbitrary: s)
  case (Cons x "is")
  then show ?case by (cases x) (auto split: option.split sum.split)
qed simp

lemma server_run_pool:
  assumes "server_run is s = Inr s'" "srv_inv s" "pool_table (table s)"
    "messages_satisfy (\<lambda>_ d. \<not> addressless_inform d) is s"
  shows "pool_table (table s') \<and> srv_inv s'"
  by (rule server_run_invariant [where P = "\<lambda>s. pool_table (table s) \<and> srv_inv s", OF assms(1) _ assms(4)])
    (use assms(2,3) server_step_pool server_step_inv in auto)

text \<open>A lease that nobody releases outlives a run.\<close>

definition keeps_lease :: "int \<Rightarrow> u32 \<Rightarrow> u8 list \<Rightarrow> env \<Rightarrow> dhcp_t \<Rightarrow> bool" where
  "keeps_lease t0 a mac e d \<longleftrightarrow> t0 \<le> t_lease e \<and>
     \<not> (message_type d = Some DHCPRELEASE \<and> ntohl (ciaddr d) = a \<and> same_mac mac (chaddr d))"

lemma server_step_held:
  assumes "server_step e input s = Inr s'" "srv_inv s" "held t0 a mac (table s)"
    and "\<And>g. input = Some g \<Longrightarrow> keeps_lease t0 a mac e (recv_dhcp (dhcp_recv s) g)"
  shows "held t0 a mac (table s')"
proof (cases input)
  case None
  with assms show ?thesis by (auto simp: server_step_def)
next
  case (Some g)
  let ?s = "(change_socket_setup_srv INADDR_ANY INADDR_BROADCAST s)\<lparr>dhcp_recv := recv_dhcp (dhcp_recv s) g\<rparr>"
  have "dispatch e ?s = Inr s'" using assms(1) Some by (simp add: server_step_def Let_def)
  from held.dispatch_keeps [OF this, of t0 a mac]
    received_inv [OF assms(2), where a = INADDR_ANY and b = INADDR_BROADCAST and dgram = g]
    assms(3,4) Some
  show ?thesis
    by (auto simp: srv_inv_def grant_allowed_def keeps_lease_def)
qed

lemma server_run_held:
  assumes "server_run is s = Inr s'" "srv_inv s" "held t0 a mac (table s)"
    "messages_satisfy (keeps_lease t0 a mac) is s"
  shows "held t0 a mac (table s') \<and> srv_inv s'"
  by (rule server_run_invariant [where P = "\<lambda>s. held t0 a mac (table s) \<and> srv_inv s", OF assms(1) _ assms(4)])
    (use assms(2,3) server_step_held server_step_inv in auto)

section \<open>From the message to the handler\<close>

lemma dispatch_eq:
  assumes "message_type (dhcp_recv s) = Some m"
  shows "dispatch e s =
    (if m = DHCPDISCOVER then dhcp_handle_discover e s
     else if m = DHCPREQUEST then dhcp_handle_request e s
     else if m = DHCPRELEASE then dhcp_handle_release s
     else if m = DHCPINFORM then dhcp_handle_inform e s
     else Inr s)"
proof -
  obtain i where "opcode (dhcp_recv s) = BOOTP_MESSAGE_TYPE_REQUEST"
    "get_dhcp_option (options (dhcp_recv s)) OPTION_DHCP_MESSAGE_TYPE = Inr (OptAt 1 i)"
    "i < length (options (dhcp_recv s))" "options (dhcp_recv s) ! i = m"
    using assms by (auto simp: message_type_def split: if_splits sum.splits opt_lookup.splits)
  then show ?thesis by (simp add: dispatch_def Let_def load8_def)
qed

text \<open>An address that \<open>allocate_ip\<close> returns is one its caller may use.\<close>

lemma allocate_may_use:
  assumes "allocate_ip t now rs mac = Inr (rc, Some a, t')" "lease_inv t" "pool_table t"
  shows "may_use (lease_map t) now' a mac \<and> dom (lease_map t') = dom (lease_map t)"
  using allocate_ip_cases [OF assms(1,2)] assms(3) allocate_ip_dom [OF assms(1,2)]
  by (elim disjE exE conjE) (auto simp: may_use_def pool_table_def domIff split: option.splits)

text \<open>The answer to a discover, on any reachable state and serviceable message.\<close>

lemma discover_answer:
  assumes "dhcp_handle_discover e s = Inr s'" "srv_inv s" "pool_table (table s)"
  shows "dom (lease_map (table s')) = dom (lease_map (table s)) \<and>
    (\<exists>p. sent s' = sent s @ [p] \<and>
      (payload p = [] \<and> int IP_ADDRESS_POOL_AMOUNT \<le> sint (num_of_lease (table s)) \<or>
       (\<exists>w y. payload p = reply_dgram DHCPOFFER w y (dhcp_recv s) \<and>
          may_use (lease_map (table s)) (t_check e) (ntohl y) (chaddr (dhcp_recv s)))))"
proof -
  obtain s1 p where 1: "unicast_setup (t_unicast e) (change_socket_setup_srv INADDR_ANY INADDR_BROADCAST s) = Inr s1"
    "sent s' = sent s @ [p]" and
    2: "(payload p = [] \<and> table s' = table s \<and> int IP_ADDRESS_POOL_AMOUNT \<le> sint (num_of_lease (table s))) \<or>
     (\<exists>t y w. payload p = reply_dgram DHCPOFFER w y (dhcp_recv s) \<and> table s' = t \<and>
        set_yiaddr_srv e DHCPOFFER (s1\<lparr>dhcp_recv := (dhcp_recv s1)\<lparr>opcode := BOOTP_MESSAGE_TYPE_REPLY\<rparr>\<rparr>) =
         Inr (True, s1\<lparr>table := t, dhcp_recv := (dhcp_recv s1)\<lparr>opcode := BOOTP_MESSAGE_TYPE_REPLY, yiaddr := y\<rparr>\<rparr>))"
    by (rule discover_sends [OF assms(1,2)]) blast
  have s1: "table s1 = table s" "dhcp_recv s1 = dhcp_recv s"
    using unicast_setup_frame [OF 1(1)] by simp_all
  from 2 show ?thesis
  proof (elim disjE exE conjE)
    assume "payload p = []" "table s' = table s" "int IP_ADDRESS_POOL_AMOUNT \<le> sint (num_of_lease (table s))"
    with 1(2) show ?thesis by auto
  next
    fix t y w
    assume p: "payload p = reply_dgram DHCPOFFER w y (dhcp_recv s)" "table s' = t"
      and 3: "set_yiaddr_srv e DHCPOFFER (s1\<lparr>dhcp_recv := (dhcp_recv s1)\<lparr>opcode := BOOTP_MESSAGE_TYPE_REPLY\<rparr>\<rparr>) =
         Inr (True, s1\<lparr>table := t, dhcp_recv := (dhcp_recv s1)\<lparr>opcode := BOOTP_MESSAGE_TYPE_REPLY, yiaddr := y\<rparr>\<rparr>)"
    from 3 have "dom (lease_map t) = dom (lease_map (table s)) \<and>
        may_use (lease_map (table s)) (t_check e) (ntohl y) (chaddr (dhcp_recv s))"
    proof (cases rule: set_yiaddr_cases)
      case (requested ip)
      with requested_ip_okD [OF requested(2)] show ?thesis by (simp add: s1)
    next
      case (allocated rc a t1)
      with assms(2,3) show ?thesis
        using allocate_may_use [of "table s" "t_lease e" "rnd e" "chaddr (dhcp_recv s)" rc a t1 "t_check e"]
        by (simp add: s1 srv_inv_def)
    qed simp_all
    with p 1(2) show ?thesis by auto
  qed
qed

section \<open>The answers to a request\<close>

lemma requested_ip_ok_addr:
  assumes "addr_option (dhcp_recv s) OPTION_REQUESTED_IP ip"
  shows "requested_ip_ok now s = Inr (if may_use (lease_map (table s)) now (ntohl ip) (chaddr (dhcp_recv s))
    then Some ip else None)"
  using assms by (auto simp: addr_option_def requested_ip_ok_def Let_def check_ipaddr_spec)

lemma requested_ip_ok_absent:
  "get_dhcp_option (options (dhcp_recv s)) OPTION_REQUESTED_IP = Inr OptAbsent \<Longrightarrow>
   requested_ip_ok now s = Inr None"
  by (simp add: requested_ip_ok_def)

lemma unicast_setup_returns:
  assumes "requested_ip_ok now s = Inr r"
  obtains s1 where "unicast_setup now s = Inr s1" "table s1 = table s" "dhcp_recv s1 = dhcp_recv s"
    "sent s1 = sent s"
proof -
  obtain s1 where "unicast_setup now s = Inr s1"
    using assms by (cases "ucast (flags (dhcp_recv s)) = (0 :: u32)") (auto simp: unicast_setup_def)
  with that unicast_setup_frame show thesis by blast
qed

lemma selecting_returns:
  assumes "addr_option (dhcp_recv s) OPTION_DHCP_SERVER_IDENTIFIER (htonl DHCP_SERVER_IP_ADDRESS)"
    and "ciaddr (dhcp_recv s) = 0" "addr_option (dhcp_recv s) OPTION_REQUESTED_IP ip"
  obtains s1 where "table s1 = table s" "dhcp_recv s1 = dhcp_recv s" "sent s1 = sent s"
    "dhcp_handle_request e s = bind_res (construct_dhcp_packet_srv e
       (if may_use (lease_map (table s)) (t_check e) (ntohl ip) (chaddr (dhcp_recv s))
        then DHCPACK else DHCPNAK) s1) (\<lambda>(n, s2). Inr (send_reply n s2))"
proof -
  obtain s1 where s1: "unicast_setup (t_unicast e) (change_socket_setup_srv INADDR_ANY INADDR_BROADCAST s) = Inr s1"
    "table s1 = table s" "dhcp_recv s1 = dhcp_recv s" "sent s1 = sent s"
    by (rule unicast_setup_returns [of "t_unicast e" "change_socket_setup_srv INADDR_ANY INADDR_BROADCAST s"])
      (use requested_ip_ok_addr assms(3) in auto)
  with assms that [OF s1(2-4)] show thesis
    by (auto simp: addr_option_def dhcp_handle_request_def Let_def check_ipaddr_spec)
qed

lemma renewing_returns:
  assumes "addr_option (dhcp_recv s) OPTION_DHCP_SERVER_IDENTIFIER (htonl DHCP_SERVER_IP_ADDRESS)"
    and "ciaddr (dhcp_recv s) \<noteq> 0"
  shows "dhcp_handle_request e s = bind_res (construct_dhcp_packet_srv e
       (if may_use (lease_map (table s)) (t_check e) (ntohl (ciaddr (dhcp_recv s))) (chaddr (dhcp_recv s))
        then DHCPACK else DHCPNAK)
       (change_socket_setup_srv DHCP_SERVER_IP_ADDRESS (ntohl (ciaddr (dhcp_recv s))) s))
       (\<lambda>(n, s2). Inr (send_reply n s2))"
  using assms by (auto simp: addr_option_def dhcp_handle_request_def Let_def check_ipaddr_spec)

end
