(* ===== verification/Server_Properties.thy ===== *)
theory Server_Properties
  imports Server_Runs
begin

text \<open>
  The properties of the server: the invariants of its runs, what an offer, an acknowledgement
  and a refusal say and record, and the places where the code does something else than its
  comments and the protocol ask for.
\<close>

section \<open>Invariants and totality\<close>

text \<open>
  C3: From every state that a run reaches, the server handles every message whose option area
  parses, whose options 50 and 54 have four bytes, and for which there is an address to answer
  with, without a fault, and the invariant holds again. The random numbers must reach the pool, and
  for a DISCOVER of an unknown client there must be fewer than \<open>2^31\<close> leases.
\<close>

theorem server_answers:
  assumes "main_srv euid argv succeeds inputs = Inr s"
    and "serviceable (table s) (recv_dhcp (dhcp_recv s) g)" "covers_pool (rnd e)"
  shows "\<exists>s'. server_step e (Some g) s = Inr s' \<and> lease_inv (table s') \<and> wf_dhcp (dhcp_recv s')"
proof -
  obtain s0 where s0: "dhcp_setup_srv (argv ! 1) succeeds = Inr s0" "server_run inputs s0 = Inr s"
    using assms(1) by (rule main_srv_InrD)
  have inv: "srv_inv s" using srv_reach_inv [OF server_run_reach [OF srv_reach.started [OF s0(1)] s0(2)]] .
  let ?s = "(change_socket_setup_srv INADDR_ANY INADDR_BROADCAST s)\<lparr>dhcp_recv := recv_dhcp (dhcp_recv s) g\<rparr>"
  have "srv_inv ?s" using received_inv [OF inv] .
  then obtain s' where "dispatch e ?s = Inr s'"
    using dispatch_total [of ?s e] assms(2,3) by (auto simp: srv_inv_def)
  then have step: "server_step e (Some g) s = Inr s'" by (simp add: server_step_def Let_def)
  with server_step_inv [OF step inv] show ?thesis by (auto simp: srv_inv_def)
qed

definition discover_msg :: dhcp_t where
  "discover_msg = sample_msg BOOTP_MESSAGE_TYPE_REQUEST (htons BOOTP_FLAGS_BROADCAST) 0 sample_mac
     [(OPTION_DHCP_MESSAGE_TYPE, [DHCPDISCOVER])]"

lemma discover_msg_facts:
  "wf_dhcp discover_msg" "tlvs (options discover_msg) = Some [(OPTION_DHCP_MESSAGE_TYPE, [DHCPDISCOVER])]"
  "message_type discover_msg = Some DHCPDISCOVER" "length (leases t) < 2 ^ 31 \<Longrightarrow> serviceable t discover_msg"
  "chaddr discover_msg = sample_mac @ replicate 10 0"
proof -
  show 1: "wf_dhcp discover_msg" unfolding discover_msg_def by (rule wf_sample_msg) simp_all
  show 2: "tlvs (options discover_msg) = Some [(OPTION_DHCP_MESSAGE_TYPE, [DHCPDISCOVER])]"
    unfolding discover_msg_def by (rule tlvs_sample_msg) simp_all
  show 3: "message_type discover_msg = Some DHCPDISCOVER"
    unfolding discover_msg_def by (rule sample_message_type) simp_all
  show "serviceable t discover_msg" if "length (leases t) < 2 ^ 31"
    using 2 3 that by (simp add: serviceable_def) (simp add: discover_msg_def)
  show "chaddr discover_msg = sample_mac @ replicate 10 0" by (simp add: discover_msg_def)
qed

lemma started_main:
  "main_srv 0 [''server'', ''eth0''] (\<lambda>_. True) [] = dhcp_setup_srv ''eth0'' (\<lambda>_. True)"
  "dhcp_setup_srv ''eth0'' (\<lambda>_. True) =
     Inr (sample_server zero_msg empty_table)"
  by (simp_all add: main_srv_def dhcp_setup_srv_def copy_ifr_name_def sample_server_def)

lemma discover_received:
  "recv_dhcp zero_msg (dhcp_bytes discover_msg) = discover_msg"
  by (rule recv_full) (simp_all add: wf_zero_msg discover_msg_facts)

lemma discover_step:
  "\<exists>s'. server_step (sample_env 5) (Some (dhcp_bytes discover_msg))
     (sample_server zero_msg empty_table) = Inr s'"
  using dispatch_total [of "(change_socket_setup_srv INADDR_ANY INADDR_BROADCAST
      (sample_server zero_msg empty_table))\<lparr>dhcp_recv := discover_msg\<rparr>"
      "sample_env 5"]
  by (simp add: server_step_def Let_def discover_received discover_msg_facts lease_inv_empty)

theorem server_answers_witness:
  "\<exists>s'. server_step (sample_env 5) (Some (dhcp_bytes discover_msg))
     (sample_server zero_msg empty_table) = Inr s' \<and> lease_inv (table s')"
  using server_answers [of 0 "[''server'', ''eth0'']" "\<lambda>_. True" "[]"
      "sample_server zero_msg empty_table"
      "dhcp_bytes discover_msg" "sample_env 5"]
  by (auto simp: started_main discover_msg_facts discover_received)

text \<open>
  C12: Along a run in which no INFORM message without a client address arrives, every leased
  address is one of the 100 of the pool, there are at most 100 leases, and the counter is their number.
\<close>

theorem leases_within_pool:
  assumes "dhcp_setup_srv dev succeeds = Inr s0" "server_run is s0 = Inr s"
    and "messages_satisfy (\<lambda>_ d. \<not> addressless_inform d) is s0"
  shows "(\<forall>a \<in> dom (lease_map (table s)). in_pool a) \<and> card (dom (lease_map (table s))) \<le> IP_ADDRESS_POOL_AMOUNT \<and>
    sint (num_of_lease (table s)) = int (card (dom (lease_map (table s))))"
proof -
  have "pool_table (table s) \<and> srv_inv s"
    by (rule server_run_pool [OF assms(2) _ _ assms(3)])
      (use setup_inv [OF assms(1)] in \<open>simp_all add: pool_table_def\<close>)
  with pool_table_count [of "table s"] show ?thesis by (simp add: pool_table_def srv_inv_def)
qed

theorem leases_within_pool_witness:
  "\<exists>s. server_run [(sample_env 5, Some (dhcp_bytes discover_msg))]
     (sample_server zero_msg empty_table) = Inr s \<and>
     sint (num_of_lease (table s)) \<le> 100"
proof -
  let ?s0 = "sample_server zero_msg empty_table"
  let ?is = "[(sample_env 5, Some (dhcp_bytes discover_msg))]"
  obtain s where s: "server_run ?is ?s0 = Inr s" using discover_step by auto
  have "messages_satisfy (\<lambda>_ d. \<not> addressless_inform d) ?is ?s0"
    by (simp add: discover_received discover_msg_facts addressless_inform_def split: sum.split)
  with leases_within_pool [of "''eth0''" "\<lambda>_. True" ?s0 ?is s] s show ?thesis
    by (simp add: started_main del: server_run.simps)
qed

section \<open>Offers\<close>



text \<open>
  C31: When the counter has reached 100 and no lease is the client's, a DISCOVER is answered by an
  empty datagram if it asks for no address (option 50 is missing or has not four bytes) or for one
  that the client may not have: the handler ignores that the construction failed. The table stays.
\<close>

theorem exhausted_pool_sends_empty_datagram:
  assumes "wf_dhcp (dhcp_recv s)" "message_type (dhcp_recv s) = Some DHCPDISCOVER"
    and "(\<exists>r. get_dhcp_option (options (dhcp_recv s)) OPTION_REQUESTED_IP = Inr r \<and> opt_ret r \<noteq> 4) \<or>
      (\<exists>ip. addr_option (dhcp_recv s) OPTION_REQUESTED_IP ip \<and>
        \<not> may_use (lease_map (table s)) (t_check e) (ntohl ip) (chaddr (dhcp_recv s)))"
    and "\<not> mac_known (table s) (chaddr (dhcp_recv s))"
    and "int IP_ADDRESS_POOL_AMOUNT \<le> sint (num_of_lease (table s))"
  shows "\<exists>s' p. dispatch e s = Inr s' \<and> sent s' = sent s @ [p] \<and> payload p = [] \<and> table s' = table s"
proof -
  let ?s0 = "change_socket_setup_srv INADDR_ANY INADDR_BROADCAST s"
  have ok: "\<exists>r. requested_ip_ok now ?s0 = Inr r" for now
    using assms(3) requested_ip_ok_addr [of ?s0] by (auto simp: requested_ip_ok_def)
  obtain r where r: "requested_ip_ok (t_unicast e) ?s0 = Inr r" using ok by blast
  obtain s1 where s1: "unicast_setup (t_unicast e) ?s0 = Inr s1" "table s1 = table s"
    "dhcp_recv s1 = dhcp_recv s" "sent s1 = sent s"
    by (rule unicast_setup_returns [OF r]) simp
  have none: "requested_ip_ok (t_check e) (s1\<lparr>dhcp_recv := (dhcp_recv s)\<lparr>opcode := BOOTP_MESSAGE_TYPE_REPLY\<rparr>\<rparr>) = Inr None"
    (is "requested_ip_ok _ ?s1 = _")
    using assms(3) requested_ip_ok_addr [of ?s1] s1(2)
    by (auto simp: requested_ip_ok_def addr_option_def check_ipaddr_spec)
  have a: "allocate_ip (table s) (t_lease e) (rnd e) (chaddr (dhcp_recv s)) = Inr (-1, None, table s)"
    by (rule allocate_ip_full) (use assms(4,5) in \<open>simp_all add: mac_known_def list_ex_iff\<close>)
  have "construct_dhcp_packet_srv e DHCPOFFER s1 = Inr (0, ?s1)"
    using none a s1 by (simp add: construct_dhcp_packet_srv_def set_yiaddr_srv_def Let_def)
  with s1 show ?thesis
    by (simp add: dispatch_eq [OF assms(2)] dhcp_handle_discover_def)
qed

definition full_table :: lease_table where
  "full_table = \<lparr>leases = map (\<lambda>n. \<lparr>time_stamp = 0, addr = IP_ADDRESS_POOL_START + of_nat n,
      lease_chaddr = other_mac\<rparr>) [0..<IP_ADDRESS_POOL_AMOUNT], num_of_lease = 100\<rparr>"

lemma full_table_count: "sint (num_of_lease full_table) = 100"
  by (simp add: full_table_def)

theorem exhausted_pool_sends_empty_datagram_witness:
  "\<exists>s'. dispatch (sample_env 5) (sample_server discover_msg full_table) = Inr s' \<and>
     map payload (sent s') = [[]]"
proof -
  have "get_dhcp_option (options discover_msg) OPTION_REQUESTED_IP = Inr OptAbsent"
    by (rule tlvs_lookup_None [OF discover_msg_facts(2)]) simp
  moreover have "\<not> mac_known full_table (sample_mac @ replicate 10 0)"
    by (auto simp: mac_known_def full_table_def list_ex_iff same_mac_def)
  ultimately show ?thesis
    using exhausted_pool_sends_empty_datagram [of "sample_server discover_msg full_table" "sample_env 5"]
    by (auto simp: discover_msg_facts full_table_count)
qed

section \<open>Requests\<close>

text \<open>
  C6: The answer to a REQUEST that selects this server and asks for an address in option 50,
  from a client without an address: if the address is of the pool and no other client holds it,
  an acknowledgement of that address, and the lease is granted; otherwise a refusal, and the
  table is unchanged.
\<close>

theorem selecting_request_answer:
  assumes "wf_dhcp (dhcp_recv s)" "lease_inv (table s)" "message_type (dhcp_recv s) = Some DHCPREQUEST"
    and "addr_option (dhcp_recv s) OPTION_DHCP_SERVER_IDENTIFIER (htonl DHCP_SERVER_IP_ADDRESS)"
    and "ciaddr (dhcp_recv s) = 0" "addr_option (dhcp_recv s) OPTION_REQUESTED_IP ip"
  shows "\<exists>s' p w. dispatch e s = Inr s' \<and> sent s' = sent s @ [p] \<and>
    (if may_use (lease_map (table s)) (t_check e) (ntohl ip) (chaddr (dhcp_recv s))
     then payload p = reply_dgram DHCPACK w ip (dhcp_recv s) \<and>
       lease_map (table s') = grant_map (lease_map (table s)) (t_lease e) (ntohl ip) (chaddr (dhcp_recv s))
     else payload p = reply_dgram DHCPNAK w 0 (dhcp_recv s) \<and> table s' = table s)"
proof -
  obtain s1 where s1: "table s1 = table s" "dhcp_recv s1 = dhcp_recv s" "sent s1 = sent s"
    "dhcp_handle_request e s = bind_res (construct_dhcp_packet_srv e
       (if may_use (lease_map (table s)) (t_check e) (ntohl ip) (chaddr (dhcp_recv s))
        then DHCPACK else DHCPNAK) s1) (\<lambda>(n, s2). Inr (send_reply n s2))"
    using selecting_returns [OF assms(4-6)] by blast
  have h: "wf_dhcp (dhcp_recv s1)" "message_type (dhcp_recv s1) = Some DHCPREQUEST"
    "ciaddr (dhcp_recv s1) = 0" using assms s1 by simp_all
  obtain i where i: "get_dhcp_option (options (dhcp_recv s1)) OPTION_REQUESTED_IP = Inr (OptAt 4 i)"
    "load32 (options (dhcp_recv s1)) (opt_set (OptAt 4 i) None) = Inr ip"
    using assms(6) s1 by (auto simp: addr_option_def)
  show ?thesis
  proof (cases "may_use (lease_map (table s)) (t_check e) (ntohl ip) (chaddr (dhcp_recv s))")
    case True
    show ?thesis
      by (rule ack_selecting [OF h i, of e])
        (use True s1 assms(2) in \<open>auto simp: dispatch_eq [OF assms(3)] add_lease_map\<close>)
  next
    case False
    show ?thesis
      by (rule nak_sends [OF h(1,2), of e]) (use False s1 in \<open>auto simp: dispatch_eq [OF assms(3)]\<close>)
  qed
qed

definition request_msg :: "u32 \<Rightarrow> u32 \<Rightarrow> dhcp_t" where
  "request_msg ci ip = sample_msg BOOTP_MESSAGE_TYPE_REQUEST (htons BOOTP_FLAGS_BROADCAST) ci sample_mac
     [(OPTION_DHCP_MESSAGE_TYPE, [DHCPREQUEST]), (OPTION_REQUESTED_IP, bytes_le32 ip),
      (OPTION_DHCP_SERVER_IDENTIFIER, bytes_le32 (htonl DHCP_SERVER_IP_ADDRESS))]"

lemma request_msg_facts:
  "wf_dhcp (request_msg ci ip)" "message_type (request_msg ci ip) = Some DHCPREQUEST"
  "addr_option (request_msg ci ip) OPTION_REQUESTED_IP ip"
  "addr_option (request_msg ci ip) OPTION_DHCP_SERVER_IDENTIFIER (htonl DHCP_SERVER_IP_ADDRESS)"
  "ciaddr (request_msg ci ip) = ci" "chaddr (request_msg ci ip) = sample_mac @ replicate 10 0"
proof -
  let ?os = "[(OPTION_DHCP_MESSAGE_TYPE, [DHCPREQUEST]), (OPTION_REQUESTED_IP, bytes_le32 ip),
      (OPTION_DHCP_SERVER_IDENTIFIER, bytes_le32 (htonl DHCP_SERVER_IP_ADDRESS))]"
  show "wf_dhcp (request_msg ci ip)" unfolding request_msg_def by (rule wf_sample_msg) simp_all
  show "message_type (request_msg ci ip) = Some DHCPREQUEST"
    unfolding request_msg_def by (rule sample_message_type) simp_all
  show "addr_option (request_msg ci ip) OPTION_REQUESTED_IP ip"
    unfolding request_msg_def addr_option_def
    by (rule sample_lookup32 [of ?os OPTION_REQUESTED_IP ip]) auto
  show "addr_option (request_msg ci ip) OPTION_DHCP_SERVER_IDENTIFIER (htonl DHCP_SERVER_IP_ADDRESS)"
    unfolding request_msg_def addr_option_def
    by (rule sample_lookup32 [of ?os OPTION_DHCP_SERVER_IDENTIFIER "htonl DHCP_SERVER_IP_ADDRESS"]) auto
qed (simp_all add: request_msg_def)

theorem selecting_request_answer_witness:
  "\<exists>s' w. dispatch (sample_env 5) (sample_server (request_msg 0 (htonl 0xC0A80009)) empty_table) = Inr s' \<and>
     map payload (sent s') = [reply_dgram DHCPACK w (htonl 0xC0A80009) (request_msg 0 (htonl 0xC0A80009))] \<and>
     lease_map (table s') 0xC0A80009 = Some (sample_mac, 5)"
  using selecting_request_answer [of "sample_server (request_msg 0 (htonl 0xC0A80009)) empty_table"
      "htonl 0xC0A80009" "sample_env 5"]
  by (auto simp: request_msg_facts lease_inv_empty may_use_def in_pool_def grant_map_def)

section \<open>The invariant of a run\<close>

text \<open>The first lease of a table: an empty datagram is ignored, then a client requests an address.\<close>

lemma first_lease:
  obtains s where "main_srv 0 [''server'', ''eth0''] (\<lambda>_. True) [(sample_env 3, None), (sample_env 4, Some []),
      (sample_env 5, Some (dhcp_bytes (request_msg 0 (htonl 0xC0A80009))))] = Inr s"
    "lease_map (table s) = [0xC0A80009 \<mapsto> (sample_mac, 5)]" "length (leases (table s)) = 1"
proof -
  let ?m = "request_msg 0 (htonl 0xC0A80009)" and ?i = "sample_server zero_msg empty_table"
  let ?j = "change_socket_setup_srv INADDR_ANY INADDR_BROADCAST ?i"
  let ?k = "?j\<lparr>dhcp_recv := ?m\<rparr>"
  have idem: "change_socket_setup_srv INADDR_ANY INADDR_BROADCAST ?j = ?j" "?j\<lparr>dhcp_recv := zero_msg\<rparr> = ?j"
    by (simp_all add: change_socket_setup_srv_def sample_server_def)
  have "recv_dhcp zero_msg [] = zero_msg" by (simp add: recv_dhcp_def dhcp_of_bytes_bytes wf_zero_msg)
  moreover have "opcode zero_msg = 0" by (simp add: zero_msg_def dhcp_of_bytes_def)
  ultimately have empty: "server_step e (Some []) ?j = Inr ?j" "server_step e None ?i = Inr ?j" for e
    by (simp_all add: server_step_def dispatch_def idem)
  obtain i where i: "get_dhcp_option (options ?m) OPTION_REQUESTED_IP = Inr (OptAt 4 i)"
    "load32 (options ?m) (opt_set (OptAt 4 i) None) = Inr (htonl 0xC0A80009)"
    using request_msg_facts(3) [of 0 "htonl 0xC0A80009"] by (auto simp: addr_option_def)
  obtain s1 where s1: "table s1 = empty_table" "dhcp_recv s1 = ?m"
    "dhcp_handle_request (sample_env 5) ?k = bind_res (construct_dhcp_packet_srv (sample_env 5)
       (if may_use (lease_map empty_table) 5 0xC0A80009 (chaddr ?m) then DHCPACK else DHCPNAK) s1)
       (\<lambda>(n, s2). Inr (send_reply n s2))"
    using selecting_returns [of ?k "htonl 0xC0A80009" "sample_env 5"] by (auto simp: request_msg_facts)
  obtain n s2 where s2: "construct_dhcp_packet_srv (sample_env 5) DHCPACK s1 = Inr (n, s2)"
    "table s2 = add_lease empty_table 5 (htonl 0xC0A80009) (chaddr ?m)"
    by (rule ack_selecting [of s1 DHCPREQUEST "OptAt 4 i" "htonl 0xC0A80009" "sample_env 5"])
      (use i in \<open>simp_all add: s1 request_msg_facts\<close>)
  have "server_step (sample_env 5) (Some (dhcp_bytes ?m)) ?j = Inr (send_reply n s2)"
    using s1 s2 dispatch_eq [of ?k DHCPREQUEST "sample_env 5"] recv_full [OF wf_zero_msg request_msg_facts(1)]
    by (simp add: server_step_def Let_def idem request_msg_facts may_use_def in_pool_def)
  then have "main_srv 0 [''server'', ''eth0''] (\<lambda>_. True) [(sample_env 3, None), (sample_env 4, Some []),
      (sample_env 5, Some (dhcp_bytes ?m))] = Inr (send_reply n s2)"
    by (simp add: main_srv_def started_main(2) empty)
  moreover have "lease_map (table (send_reply n s2)) = [0xC0A80009 \<mapsto> (sample_mac, 5)]"
    using s2(2) by (simp add: add_lease_map lease_inv_empty grant_map_def request_msg_facts)
  moreover have "length (leases (table (send_reply n s2))) = 1"
    using s2(2) by (simp add: add_lease_def empty_table_def)
  ultimately show thesis by (rule that)
qed

text \<open>
  C4: A run of the program that has not faulted or exited is one with root rights and one argument,
  not \<open>-h\<close> and short enough for \<open>ifr_name\<close>, and after any sequence of datagrams, well-formed or
  not, no address is leased twice, the counter is the number of leases modulo \<open>2^32\<close>, which is
  exact below \<open>2^31\<close> leases (an INFORM may grant any address, so there can be more), and the buffer
  keeps its size.
\<close>

theorem server_invariant:
  assumes "main_srv euid argv succeeds inputs = Inr s"
  shows "euid = 0 \<and> length argv = 2 \<and> argv ! 1 \<noteq> ''-h'' \<and> length (argv ! 1) < IFNAMSIZ \<and>
    lease_inv (table s) \<and> distinct (map addr (leases (table s))) \<and>
    num_of_lease (table s) = of_nat (length (leases (table s))) \<and>
    (length (leases (table s)) < 2 ^ 31 \<longrightarrow> sint (num_of_lease (table s)) = int (length (leases (table s)))) \<and>
    wf_dhcp (dhcp_recv s)"
proof -
  obtain s0 where s0: "euid = 0" "length argv = 2" "argv ! 1 \<noteq> ''-h''" "length (argv ! 1) < IFNAMSIZ"
    "dhcp_setup_srv (argv ! 1) succeeds = Inr s0" "server_run inputs s0 = Inr s"
    using assms by (rule main_srv_InrD)
  from srv_reach_inv [OF server_run_reach [OF srv_reach.started [OF s0(5)] s0(6)]] s0(1-4) show ?thesis
    by (simp add: srv_inv_def lease_inv_def)
qed

theorem server_invariant_witness:
  "\<exists>s. main_srv 0 [''server'', ''eth0''] (\<lambda>_. True) [(sample_env 3, None), (sample_env 4, Some []),
      (sample_env 5, Some (dhcp_bytes (request_msg 0 (htonl 0xC0A80009))))] = Inr s \<and>
     lease_map (table s) = [0xC0A80009 \<mapsto> (sample_mac, 5)] \<and> sint (num_of_lease (table s)) = 1 \<and>
     distinct (map addr (leases (table s)))"
proof -
  obtain s where s: "main_srv 0 [''server'', ''eth0''] (\<lambda>_. True) [(sample_env 3, None), (sample_env 4, Some []),
      (sample_env 5, Some (dhcp_bytes (request_msg 0 (htonl 0xC0A80009))))] = Inr s"
    "lease_map (table s) = [0xC0A80009 \<mapsto> (sample_mac, 5)]" "length (leases (table s)) = 1"
    by (rule first_lease)
  show ?thesis using server_invariant [OF s(1)] s by simp
qed

section \<open>Requests without an address, renewals\<close>

text \<open>
  A REQUEST without option 50 is refused: the pointer of the lookup still points to the
  server identifier, which is not an address of the pool.
\<close>

theorem request_without_address_refused:
  assumes "wf_dhcp (dhcp_recv s)" "message_type (dhcp_recv s) = Some DHCPREQUEST"
    and "addr_option (dhcp_recv s) OPTION_DHCP_SERVER_IDENTIFIER (htonl DHCP_SERVER_IP_ADDRESS)"
    and "ciaddr (dhcp_recv s) = 0"
    and "get_dhcp_option (options (dhcp_recv s)) OPTION_REQUESTED_IP = Inr OptAbsent"
  shows "\<exists>s' p w. dispatch e s = Inr s' \<and> sent s' = sent s @ [p] \<and>
     payload p = reply_dgram DHCPNAK w 0 (dhcp_recv s) \<and> table s' = table s"
proof -
  let ?s0 = "change_socket_setup_srv INADDR_ANY INADDR_BROADCAST s"
  obtain s1 where s1: "unicast_setup (t_unicast e) ?s0 = Inr s1"
    "table s1 = table s" "dhcp_recv s1 = dhcp_recv s" "sent s1 = sent s"
    by (rule unicast_setup_returns [of "t_unicast e" ?s0]) (use requested_ip_ok_absent assms(5) in auto)
  have h: "wf_dhcp (dhcp_recv s1)" "message_type (dhcp_recv s1) = Some DHCPREQUEST"
    using assms s1 by simp_all
  have "dhcp_handle_request e s = bind_res (construct_dhcp_packet_srv e DHCPNAK s1) (\<lambda>(n, s2). Inr (send_reply n s2))"
    using assms(3-5) s1 server_not_in_pool [of "table s" "t_check e" "chaddr (dhcp_recv s)"]
    by (auto simp: addr_option_def dhcp_handle_request_def Let_def)
  then show ?thesis
    by - (rule nak_sends [OF h, of e], use s1 in \<open>auto simp: dispatch_eq [OF assms(2)]\<close>)
qed

definition bare_request_msg :: dhcp_t where
  "bare_request_msg = sample_msg BOOTP_MESSAGE_TYPE_REQUEST (htons BOOTP_FLAGS_BROADCAST) 0 sample_mac
     [(OPTION_DHCP_MESSAGE_TYPE, [DHCPREQUEST]),
      (OPTION_DHCP_SERVER_IDENTIFIER, bytes_le32 (htonl DHCP_SERVER_IP_ADDRESS))]"

theorem request_without_address_refused_witness:
  "\<exists>s' w. dispatch (sample_env 5) (sample_server bare_request_msg empty_table) = Inr s' \<and>
     map payload (sent s') = [reply_dgram DHCPNAK w 0 bare_request_msg]"
proof -
  let ?os = "[(OPTION_DHCP_MESSAGE_TYPE, [DHCPREQUEST]),
      (OPTION_DHCP_SERVER_IDENTIFIER, bytes_le32 (htonl DHCP_SERVER_IP_ADDRESS))]"
  have "addr_option bare_request_msg OPTION_DHCP_SERVER_IDENTIFIER (htonl DHCP_SERVER_IP_ADDRESS)"
    unfolding bare_request_msg_def addr_option_def
    by (rule sample_lookup32 [of ?os OPTION_DHCP_SERVER_IDENTIFIER "htonl DHCP_SERVER_IP_ADDRESS"]) auto
  moreover have "get_dhcp_option (options bare_request_msg) OPTION_REQUESTED_IP = Inr OptAbsent"
    unfolding bare_request_msg_def by (rule tlvs_lookup_None [OF tlvs_sample_msg]) simp_all
  moreover have "wf_dhcp bare_request_msg" "message_type bare_request_msg = Some DHCPREQUEST"
    "ciaddr bare_request_msg = 0"
    unfolding bare_request_msg_def by (rule wf_sample_msg, simp_all, rule sample_message_type, simp_all)
  ultimately show ?thesis
    using request_without_address_refused [of "sample_server bare_request_msg empty_table" "sample_env 5"]
    by auto
qed

text \<open>
  C14: A client renews a lease it holds: a REQUEST that names this server in option 54 and carries the
  leased address, one of the pool, as client address is acknowledged with that address, by a datagram to
  that address, and the lease is stamped anew; provided it is the only lease of the client's MAC.
\<close>

theorem renewal_renews_lease:
  assumes "wf_dhcp (dhcp_recv s)" "lease_inv (table s)" "message_type (dhcp_recv s) = Some DHCPREQUEST"
    and "addr_option (dhcp_recv s) OPTION_DHCP_SERVER_IDENTIFIER (htonl DHCP_SERVER_IP_ADDRESS)"
    and "ciaddr (dhcp_recv s) \<noteq> 0" "in_pool (ntohl (ciaddr (dhcp_recv s)))"
    and "lease_map (table s) (ntohl (ciaddr (dhcp_recv s))) = Some (mac, ts)" "same_mac mac (chaddr (dhcp_recv s))"
    and "\<forall>a mac' ts'. lease_map (table s) a = Some (mac', ts') \<longrightarrow> same_mac mac' (chaddr (dhcp_recv s)) \<longrightarrow>
           a = ntohl (ciaddr (dhcp_recv s))"
  shows "\<exists>s' p w. dispatch e s = Inr s' \<and> sent s' = sent s @ [p] \<and>
     payload p = reply_dgram DHCPACK w (ciaddr (dhcp_recv s)) (dhcp_recv s) \<and>
     sin_addr (dest p) = ciaddr (dhcp_recv s) \<and>
     lease_map (table s') = (lease_map (table s))(ntohl (ciaddr (dhcp_recv s)) \<mapsto> (mac, t_lease e))"
proof -
  let ?d = "dhcp_recv s"
  let ?s1 = "change_socket_setup_srv DHCP_SERVER_IP_ADDRESS (ntohl (ciaddr ?d)) s"
  have known: "\<exists>l \<in> set (leases (table s)). same_mac (lease_chaddr l) (chaddr ?d)"
    using lease_map_SomeD [OF assms(7)] assms(8) by force
  obtain a mac' ts' t' where al: "allocate_ip (table s) (t_lease e) (rnd e) (chaddr ?d) = Inr (0, Some a, t')"
    "lease_map (table s) a = Some (mac', ts')" "same_mac mac' (chaddr ?d)"
    "lease_map t' = (lease_map (table s))(a \<mapsto> (mac', t_lease e))"
    using allocate_ip_known [OF assms(2) known] by metis
  have a: "a = ntohl (ciaddr ?d)" using assms(9) al(2,3) by blast
  with al(2) assms(7) have "mac' = mac" by simp
  have use: "may_use (lease_map (table s)) (t_check e) (ntohl (ciaddr ?d)) (chaddr ?d)"
    using assms(6-8) by (simp add: may_use_def)
  show ?thesis
    by (rule ack_by_mac [of ?s1 DHCPREQUEST e 0 a t'])
      (use assms(1,3,5) al a \<open>mac' = mac\<close> use in
        \<open>auto simp: dispatch_eq [OF assms(3)] renewing_returns [OF assms(4,5)]\<close>)
qed

definition leased_table :: "u32 \<Rightarrow> u8 list \<Rightarrow> int \<Rightarrow> lease_table" where
  "leased_table a mac ts = add_lease empty_table ts (htonl a) mac"

lemma leased_table_facts:
  "lease_inv (leased_table a mac ts)"
  "length mac = 6 \<Longrightarrow> lease_map (leased_table a mac ts) = [a \<mapsto> (mac, ts)]"
  "length (leases (leased_table a mac ts)) = 1"
  by (simp_all add: leased_table_def add_lease_inv lease_inv_empty add_lease_map grant_map_def)
    (simp add: add_lease_def)

theorem renewal_renews_lease_witness:
  "\<exists>s'. dispatch (sample_env 20) (sample_server (request_msg (htonl 0xC0A80009) 0)
       (leased_table 0xC0A80009 sample_mac 4)) = Inr s' \<and>
     lease_map (table s') 0xC0A80009 = Some (sample_mac, 20)"
  by (rule exE [OF renewal_renews_lease [of "sample_server (request_msg (htonl 0xC0A80009) 0)
      (leased_table 0xC0A80009 sample_mac 4)" sample_mac 4 "sample_env 20"]])
    (simp_all add: request_msg_facts leased_table_facts in_pool_def same_mac_def, force)

text \<open>
  C30: A client that holds no lease and asks to renew an address that is free gets an
  acknowledgement of a free address chosen at random, which need not be the one it asked for, and no
  lease is recorded at all.
\<close>

theorem renewal_without_lease_acks_unrecorded:
  assumes "wf_dhcp (dhcp_recv s)" "lease_inv (table s)" "message_type (dhcp_recv s) = Some DHCPREQUEST"
    and "addr_option (dhcp_recv s) OPTION_DHCP_SERVER_IDENTIFIER (htonl DHCP_SERVER_IP_ADDRESS)"
    and "ciaddr (dhcp_recv s) \<noteq> 0" "in_pool (ntohl (ciaddr (dhcp_recv s)))"
    and "ntohl (ciaddr (dhcp_recv s)) \<notin> dom (lease_map (table s))"
    and "\<not> mac_known (table s) (chaddr (dhcp_recv s))" "length (leases (table s)) < IP_ADDRESS_POOL_AMOUNT"
    and "covers_pool (rnd e)"
  shows "\<exists>s' p w a. dispatch e s = Inr s' \<and> sent s' = sent s @ [p] \<and>
     payload p = reply_dgram DHCPACK w (htonl a) (dhcp_recv s) \<and>
     in_pool a \<and> a \<notin> dom (lease_map (table s)) \<and> table s' = table s \<and>
     (rnd e 0 mod IP_ADDRESS_POOL_AMOUNT = 0 \<longrightarrow> IP_ADDRESS_POOL_START \<notin> dom (lease_map (table s)) \<longrightarrow>
      a = IP_ADDRESS_POOL_START)"
proof -
  let ?d = "dhcp_recv s"
  let ?s1 = "change_socket_setup_srv DHCP_SERVER_IP_ADDRESS (ntohl (ciaddr ?d)) s"
  have none: "\<forall>l \<in> set (leases (table s)). \<not> same_mac (lease_chaddr l) (chaddr ?d)"
    using assms(8) by (simp add: mac_known_def list_ex_iff)
  obtain a where a: "allocate_ip (table s) (t_lease e) (rnd e) (chaddr ?d) = Inr (0, Some a, table s)"
    "in_pool a" "a \<notin> dom (lease_map (table s))"
    using allocate_ip_new [OF none assms(9,2,10)] by metis
  have first: "a = IP_ADDRESS_POOL_START"
    if "rnd e 0 mod IP_ADDRESS_POOL_AMOUNT = 0" "IP_ADDRESS_POOL_START \<notin> dom (lease_map (table s))"
  proof -
    have "pick_ip (leases (table s)) (rnd e) 0 = Some IP_ADDRESS_POOL_START"
      using that by (subst pick_ip_step) (simp add: addr_taken_iff lease_map_dom)
    moreover have "sint (num_of_lease (table s)) < int IP_ADDRESS_POOL_AMOUNT"
      using assms(2,9) by (simp add: lease_inv_def)
    ultimately show ?thesis
      using a(1) none renew_mac_None [of "leases (table s)" "t_lease e" "chaddr ?d"] by (simp add: allocate_ip_def)
  qed
  have use: "may_use (lease_map (table s)) (t_check e) (ntohl (ciaddr ?d)) (chaddr ?d)"
    using assms(6,7) by (auto simp: may_use_def domIff split: option.split)
  obtain n s2 w where ack: "construct_dhcp_packet_srv e DHCPACK ?s1 = Inr (n, s2)"
    "sent (send_reply n s2) = sent ?s1 @
       [\<lparr>dest = dhcp_client_addr ?s1, payload = reply_dgram DHCPACK w (htonl a) (dhcp_recv ?s1)\<rparr>]"
    "table s2 = table s"
    by (rule ack_by_mac [of ?s1 DHCPREQUEST e 0 a "table s"]) (use assms(1,3,5) a in auto)
  then have "dispatch e s = Inr (send_reply n s2)"
    using use by (simp add: dispatch_eq [OF assms(3)] renewing_returns [OF assms(4,5)])
  with ack(2,3) a(2,3) first show ?thesis
    by (intro exI [of _ "send_reply n s2"] exI [of _ "\<lparr>dest = dhcp_client_addr ?s1,
          payload = reply_dgram DHCPACK w (htonl a) (dhcp_recv s)\<rparr>"] exI [of _ w] exI [of _ a])
      (simp del: send_reply_frame(3))
qed

theorem renewal_without_lease_acks_unrecorded_witness:
  "\<exists>s' w. dispatch (sample_env 20) (sample_server (request_msg (htonl 0xC0A80009) 0) empty_table) = Inr s' \<and>
     map payload (sent s') = [reply_dgram DHCPACK w (htonl IP_ADDRESS_POOL_START) (request_msg (htonl 0xC0A80009) 0)] \<and>
     lease_map (table s') = Map.empty"
proof -
  have "\<not> mac_known empty_table mac" "num_of_lease empty_table = 0" "rnd (sample_env 20) 0 = 0" for mac
    by (simp_all add: mac_known_def empty_table_def sample_env_def)
  then show ?thesis
    using renewal_without_lease_acks_unrecorded
      [of "sample_server (request_msg (htonl 0xC0A80009) 0) empty_table" "sample_env 20"]
    by (auto simp: request_msg_facts lease_inv_empty in_pool_def)
qed

section \<open>Messages without an answer\<close>

text \<open>
  Messages that change nothing and get no answer: those that are no BOOTP requests, those of
  other types (DECLINE among them), and a REQUEST or RELEASE that names no server or another one.
\<close>

theorem ignored_messages:
  assumes "opcode (dhcp_recv s) \<noteq> BOOTP_MESSAGE_TYPE_REQUEST \<or>
    (\<exists>m. message_type (dhcp_recv s) = Some m \<and> m \<notin> {DHCPDISCOVER, DHCPREQUEST, DHCPRELEASE, DHCPINFORM}) \<or>
    message_type (dhcp_recv s) \<in> {Some DHCPREQUEST, Some DHCPRELEASE} \<and>
      (get_dhcp_option (options (dhcp_recv s)) OPTION_DHCP_SERVER_IDENTIFIER = Inr OptAbsent \<or>
       (\<exists>v. v \<noteq> htonl DHCP_SERVER_IP_ADDRESS \<and> addr_option (dhcp_recv s) OPTION_DHCP_SERVER_IDENTIFIER v))"
  shows "dispatch e s = Inr s"
  using assms
proof (elim disjE exE conjE)
  assume "opcode (dhcp_recv s) \<noteq> BOOTP_MESSAGE_TYPE_REQUEST"
  then show ?thesis by (simp add: dispatch_def)
next
  fix m assume "message_type (dhcp_recv s) = Some m" "m \<notin> {DHCPDISCOVER, DHCPREQUEST, DHCPRELEASE, DHCPINFORM}"
  then show ?thesis by (simp add: dispatch_eq)
next
  assume "message_type (dhcp_recv s) \<in> {Some DHCPREQUEST, Some DHCPRELEASE}"
    and "get_dhcp_option (options (dhcp_recv s)) OPTION_DHCP_SERVER_IDENTIFIER = Inr OptAbsent"
  then show ?thesis by (auto simp: dispatch_eq dhcp_handle_request_def dhcp_handle_release_def)
next
  fix v assume "message_type (dhcp_recv s) \<in> {Some DHCPREQUEST, Some DHCPRELEASE}"
    and v: "v \<noteq> htonl DHCP_SERVER_IP_ADDRESS" "addr_option (dhcp_recv s) OPTION_DHCP_SERVER_IDENTIFIER v"
  moreover have "ntohl v \<noteq> DHCP_SERVER_IP_ADDRESS" using v(1) by (metis net32.hton_ntoh)
  ultimately show ?thesis
    by (auto simp: dispatch_eq dhcp_handle_request_def dhcp_handle_release_def addr_option_def Let_def)
qed

theorem ignored_messages_witness:
  "dispatch (sample_env 5) (sample_server (sample_msg BOOTP_MESSAGE_TYPE_REQUEST 0 0 sample_mac
       [(OPTION_DHCP_MESSAGE_TYPE, [DHCPDECLINE])]) empty_table) =
   Inr (sample_server (sample_msg BOOTP_MESSAGE_TYPE_REQUEST 0 0 sample_mac
       [(OPTION_DHCP_MESSAGE_TYPE, [DHCPDECLINE])]) empty_table)"
  by (rule ignored_messages) (simp add: sample_message_type)

text \<open>
  C15: A RELEASE that names this server removes the lease of the client address if the client's
  MAC holds it, and nothing else; it sends nothing. If a lease was removed, the address is then
  accepted for every client, if it is of the pool.
\<close>

theorem release_frees_address:
  assumes "lease_inv (table s)" "message_type (dhcp_recv s) = Some DHCPRELEASE"
    and "addr_option (dhcp_recv s) OPTION_DHCP_SERVER_IDENTIFIER (htonl DHCP_SERVER_IP_ADDRESS)"
  shows "\<exists>s'. dispatch e s = Inr s' \<and> sent s' = sent s \<and>
     lease_map (table s') = revoke_map (lease_map (table s)) (ntohl (ciaddr (dhcp_recv s))) (chaddr (dhcp_recv s)) \<and>
     (in_pool (ntohl (ciaddr (dhcp_recv s))) \<longrightarrow>
      (\<exists>mac ts. lease_map (table s) (ntohl (ciaddr (dhcp_recv s))) = Some (mac, ts) \<and> same_mac mac (chaddr (dhcp_recv s))) \<longrightarrow>
      (\<forall>now mac. 0 < check_ipaddr (table s') now (ciaddr (dhcp_recv s)) mac))"
proof -
  let ?t = "delete_lease (table s) (ciaddr (dhcp_recv s)) (chaddr (dhcp_recv s))"
  have "dispatch e s = Inr (s\<lparr>table := ?t\<rparr>)"
    using assms(3) by (auto simp: dispatch_eq [OF assms(2)] dhcp_handle_release_def addr_option_def Let_def)
  then show ?thesis
    by (auto simp: delete_lease_map [OF assms(1)] check_ipaddr_spec may_use_def revoke_map_def)
qed

definition release_msg :: dhcp_t where
  "release_msg = sample_msg BOOTP_MESSAGE_TYPE_REQUEST (htons BOOTP_FLAGS_BROADCAST) (htonl 0xC0A80009) sample_mac
     [(OPTION_DHCP_MESSAGE_TYPE, [DHCPRELEASE]),
      (OPTION_DHCP_SERVER_IDENTIFIER, bytes_le32 (htonl DHCP_SERVER_IP_ADDRESS))]"

lemma release_msg_facts:
  "message_type release_msg = Some DHCPRELEASE" "ciaddr release_msg = htonl 0xC0A80009"
  "addr_option release_msg OPTION_DHCP_SERVER_IDENTIFIER (htonl DHCP_SERVER_IP_ADDRESS)"
  "chaddr release_msg = sample_mac @ replicate 10 0"
proof -
  let ?os = "[(OPTION_DHCP_MESSAGE_TYPE, [DHCPRELEASE]),
      (OPTION_DHCP_SERVER_IDENTIFIER, bytes_le32 (htonl DHCP_SERVER_IP_ADDRESS))]"
  show "message_type release_msg = Some DHCPRELEASE"
    unfolding release_msg_def by (rule sample_message_type) simp_all
  show "addr_option release_msg OPTION_DHCP_SERVER_IDENTIFIER (htonl DHCP_SERVER_IP_ADDRESS)"
    unfolding release_msg_def addr_option_def
    by (rule sample_lookup32 [of ?os OPTION_DHCP_SERVER_IDENTIFIER "htonl DHCP_SERVER_IP_ADDRESS"]) auto
qed (simp_all add: release_msg_def)

theorem release_frees_address_witness:
  "\<exists>s'. dispatch (sample_env 20) (sample_server release_msg (leased_table 0xC0A80009 sample_mac 4)) = Inr s' \<and>
     0 < check_ipaddr (table s') 21 (htonl 0xC0A80009) other_mac"
  by (rule exE [OF release_frees_address [of "sample_server release_msg (leased_table 0xC0A80009 sample_mac 4)"
        "sample_env 20"]])
    (simp_all add: release_msg_facts leased_table_facts in_pool_def same_mac_def)

section \<open>Where the server departs from its purpose\<close>

text \<open>
  C29: An INFORM without a client address records a lease of whatever address option 50 names,
  with no check: the address may lie outside the pool.
\<close>

theorem inform_grants_unchecked:
  assumes "wf_dhcp (dhcp_recv s)" "lease_inv (table s)" "message_type (dhcp_recv s) = Some DHCPINFORM"
    and "ciaddr (dhcp_recv s) = 0" "addr_option (dhcp_recv s) OPTION_REQUESTED_IP ip"
  shows "\<exists>s' p w. dispatch e s = Inr s' \<and> sent s' = sent s @ [p] \<and>
     payload p = reply_dgram DHCPACK w ip (dhcp_recv s) \<and>
     lease_map (table s') = grant_map (lease_map (table s)) (t_lease e) (ntohl ip) (chaddr (dhcp_recv s))"
proof -
  let ?s1 = "change_socket_setup_srv DHCP_SERVER_IP_ADDRESS (ntohl (ciaddr (dhcp_recv s))) s"
  obtain i where i: "get_dhcp_option (options (dhcp_recv ?s1)) OPTION_REQUESTED_IP = Inr (OptAt 4 i)"
    "load32 (options (dhcp_recv ?s1)) (opt_set (OptAt 4 i) None) = Inr ip"
    using assms(5) by (auto simp: addr_option_def)
  show ?thesis
    by (rule ack_selecting [OF _ _ _ i, of DHCPINFORM e])
      (use assms(1-4) in \<open>auto simp: dispatch_eq dhcp_handle_inform_def add_lease_map\<close>)
qed

definition inform_msg :: "u32 \<Rightarrow> u32 \<Rightarrow> dhcp_t" where
  "inform_msg ci ip = sample_msg BOOTP_MESSAGE_TYPE_REQUEST (htons BOOTP_FLAGS_BROADCAST) ci sample_mac
     [(OPTION_DHCP_MESSAGE_TYPE, [DHCPINFORM]), (OPTION_REQUESTED_IP, bytes_le32 ip)]"

lemma inform_msg_facts:
  "wf_dhcp (inform_msg ci ip)" "message_type (inform_msg ci ip) = Some DHCPINFORM"
  "addr_option (inform_msg ci ip) OPTION_REQUESTED_IP ip" "ciaddr (inform_msg ci ip) = ci"
  "chaddr (inform_msg ci ip) = sample_mac @ replicate 10 0"
  "options (inform_msg ci ip) = OPTION_DHCP_MESSAGE_TYPE # 1 # DHCPINFORM # drop 3 (options (inform_msg ci ip))"
proof -
  let ?os = "[(OPTION_DHCP_MESSAGE_TYPE, [DHCPINFORM]), (OPTION_REQUESTED_IP, bytes_le32 ip)]"
  show "wf_dhcp (inform_msg ci ip)" unfolding inform_msg_def by (rule wf_sample_msg) simp_all
  show "message_type (inform_msg ci ip) = Some DHCPINFORM"
    unfolding inform_msg_def by (rule sample_message_type) simp_all
  show "addr_option (inform_msg ci ip) OPTION_REQUESTED_IP ip"
    unfolding inform_msg_def addr_option_def
    by (rule sample_lookup32 [of ?os OPTION_REQUESTED_IP ip]) auto
  show "options (inform_msg ci ip) = OPTION_DHCP_MESSAGE_TYPE # 1 # DHCPINFORM # drop 3 (options (inform_msg ci ip))"
    by (simp add: inform_msg_def sample_msg_def enc_opt_def numeral_eq_Suc)
qed (simp_all add: inform_msg_def)

theorem inform_grants_unchecked_witness:
  "\<exists>s'. dispatch (sample_env 5) (sample_server (inform_msg 0 (htonl 0x08080808)) empty_table) = Inr s' \<and>
     lease_map (table s') 0x08080808 = Some (sample_mac, 5) \<and> \<not> in_pool 0x08080808"
  by (rule exE [OF inform_grants_unchecked [of "sample_server (inform_msg 0 (htonl 0x08080808)) empty_table"
        "htonl 0x08080808" "sample_env 5"]])
    (auto simp: inform_msg_facts lease_inv_empty grant_map_def in_pool_def)

text \<open>
  C22: The answer to an INFORM with a client address, from a client that has a lease or finds fewer than
  100, is an ACK that carries the lease time, although the code tests for INFORM to leave it out: when
  the type is the first option of the message, it is read through a pointer into the option area after
  the reply's type has been written there.
\<close>

theorem inform_reply_has_lease_time:
  assumes "wf_dhcp (dhcp_recv s)" "lease_inv (table s)" "message_type (dhcp_recv s) = Some DHCPINFORM"
    and "options (dhcp_recv s) = OPTION_DHCP_MESSAGE_TYPE # 1 # DHCPINFORM # rest"
    and "ciaddr (dhcp_recv s) \<noteq> 0" "covers_pool (rnd e)" "wf_dhcp buf"
    and "mac_known (table s) (chaddr (dhcp_recv s)) \<or> length (leases (table s)) < IP_ADDRESS_POOL_AMOUNT"
  shows "\<exists>s' p. dispatch e s = Inr s' \<and> sent s' = sent s @ [p] \<and>
     type_option (recv_dhcp buf (payload p)) DHCPACK \<and>
     addr_option (recv_dhcp buf (payload p)) OPTION_IP_ADDRESS_LEASE_TIME (htonl IP_ADDRESS_LEASE_TIME)"
proof -
  let ?s1 = "change_socket_setup_srv DHCP_SERVER_IP_ADDRESS (ntohl (ciaddr (dhcp_recv s))) s"
  obtain rc a t where al: "allocate_ip (table s) (t_lease e) (rnd e) (chaddr (dhcp_recv s)) = Inr (rc, Some a, t)"
    using allocate_total [OF assms(2,6), of "chaddr (dhcp_recv s)" "t_lease e"] assms(8) by fastforce
  obtain n s2 w where c: "construct_dhcp_packet_srv e DHCPACK ?s1 = Inr (n, s2)"
    "sent (send_reply n s2) = sent ?s1 @
       [\<lparr>dest = dhcp_client_addr ?s1, payload = reply_dgram DHCPACK w (htonl a) (dhcp_recv ?s1)\<rparr>]"
    and w: "\<exists>r m. get_dhcp_option (options (dhcp_recv ?s1)) OPTION_DHCP_MESSAGE_TYPE = Inr r \<and>
         load8 (enc_opts (reply_head DHCPACK @ reply_net) @ drop 39 (options (dhcp_recv ?s1))) (opt_set r None) = Inr m \<and>
         w = (m \<noteq> DHCPINFORM)"
    by (rule construct_sends [where e = e and st = DHCPACK and s = ?s1 and t = t and y = "htonl a" and m = DHCPINFORM])
      (use assms(1,3,5) al in \<open>auto simp: set_yiaddr_srv_def Let_def\<close>)
  have w: "w = True" using w type_read_after_write [OF assms(4), of _ DHCPACK] by fastforce
  show ?thesis
    using c recv_reply_addr [OF assms(7,1) map_of_reply_options(5) [of DHCPACK True, simplified], of "htonl a"]
      recv_reply_fields(8) [OF assms(7,1) refl, of DHCPACK True "htonl a"]
    by (auto simp: dispatch_eq [OF assms(3)] dhcp_handle_inform_def w)
qed

theorem inform_reply_has_lease_time_witness:
  "\<exists>s' p. dispatch (sample_env 5) (sample_server (inform_msg (htonl 0xC0A80009) 0) empty_table) = Inr s' \<and>
     sent s' = [p] \<and> addr_option (recv_dhcp zero_msg (payload p)) OPTION_IP_ADDRESS_LEASE_TIME (htonl 32)"
  using inform_reply_has_lease_time [of "sample_server (inform_msg (htonl 0xC0A80009) 0) empty_table"
      "drop 3 (options (inform_msg (htonl 0xC0A80009) 0))" "sample_env 5" zero_msg]
  by (auto simp: inform_msg_facts(1,2,4,5) inform_msg_facts(6) [symmetric] lease_inv_empty wf_zero_msg)

text \<open>
  The answer to a DISCOVER without the broadcast flag that asks for an acceptable address goes
  to the client address of the message. A client that has none yet sends 0 there, so the offer
  goes to 0.0.0.0; with the flag, or without an acceptable request, it is broadcast.
\<close>

theorem discover_reply_destination:
  assumes "wf_dhcp (dhcp_recv s)" "lease_inv (table s)" "message_type (dhcp_recv s) = Some DHCPDISCOVER"
    and "serviceable (table s) (dhcp_recv s)" "covers_pool (rnd e)"
    and "addr_option (dhcp_recv s) OPTION_REQUESTED_IP ip"
  shows "\<exists>s' p. dispatch e s = Inr s' \<and> sent s' = sent s @ [p] \<and>
     sin_addr (dest p) =
       (if flags (dhcp_recv s) = 0 \<and> may_use (lease_map (table s)) (t_unicast e) (ntohl ip) (chaddr (dhcp_recv s))
        then ciaddr (dhcp_recv s) else htonl INADDR_BROADCAST)"
proof -
  let ?s0 = "change_socket_setup_srv INADDR_ANY INADDR_BROADCAST s"
  have inv: "srv_inv s" using assms(1,2) by (simp add: srv_inv_def)
  obtain s' where s': "dhcp_handle_discover e s = Inr s'"
    using discover_total [OF assms(4,2,1,5,3)] by blast
  obtain s1 p where p: "unicast_setup (t_unicast e) ?s0 = Inr s1" "sent s' = sent s @ [p]"
    "dest p = dhcp_client_addr s1"
    by (rule discover_sends [OF s' inv]) blast
  have "sin_addr (dhcp_client_addr s1) =
       (if flags (dhcp_recv s) = 0 \<and> may_use (lease_map (table s)) (t_unicast e) (ntohl ip) (chaddr (dhcp_recv s))
        then ciaddr (dhcp_recv s) else htonl INADDR_BROADCAST)"
    using p(1) requested_ip_ok_addr [of ?s0 ip "t_unicast e"] assms(6)
    by (auto simp: unicast_setup_def split: if_splits)
  with p s' show ?thesis by (auto simp: dispatch_eq [OF assms(3)])
qed

definition unicast_discover_msg :: dhcp_t where
  "unicast_discover_msg = sample_msg BOOTP_MESSAGE_TYPE_REQUEST BOOTP_FLAGS_UNICAST 0 sample_mac
     [(OPTION_DHCP_MESSAGE_TYPE, [DHCPDISCOVER]), (OPTION_REQUESTED_IP, bytes_le32 (htonl 0xC0A80009))]"

lemma unicast_discover_msg_facts:
  "wf_dhcp unicast_discover_msg" "message_type unicast_discover_msg = Some DHCPDISCOVER"
  "length (leases t) < 2 ^ 31 \<Longrightarrow> serviceable t unicast_discover_msg" "ciaddr unicast_discover_msg = 0" "flags unicast_discover_msg = 0"
  "addr_option unicast_discover_msg OPTION_REQUESTED_IP (htonl 0xC0A80009)"
proof -
  let ?os = "[(OPTION_DHCP_MESSAGE_TYPE, [DHCPDISCOVER]), (OPTION_REQUESTED_IP, bytes_le32 (htonl 0xC0A80009))]"
  show m: "message_type unicast_discover_msg = Some DHCPDISCOVER"
    unfolding unicast_discover_msg_def by (rule sample_message_type) simp_all
  have "tlvs (options unicast_discover_msg) = Some ?os"
    unfolding unicast_discover_msg_def by (rule tlvs_sample_msg) simp_all
  with m show "serviceable t unicast_discover_msg" if "length (leases t) < 2 ^ 31"
    using that
    by (simp add: serviceable_def) (simp add: unicast_discover_msg_def)
  show "addr_option unicast_discover_msg OPTION_REQUESTED_IP (htonl 0xC0A80009)"
    unfolding unicast_discover_msg_def addr_option_def
    by (rule sample_lookup32 [of ?os OPTION_REQUESTED_IP "htonl 0xC0A80009"]) auto
  show "wf_dhcp unicast_discover_msg" unfolding unicast_discover_msg_def by (rule wf_sample_msg) simp_all
qed (simp_all add: unicast_discover_msg_def)

theorem discover_reply_destination_witness:
  "\<exists>s' p. dispatch (sample_env 5) (sample_server unicast_discover_msg empty_table) = Inr s' \<and>
     sent s' = [p] \<and> sin_addr (dest p) = 0"
  by (rule exE [OF discover_reply_destination [of "sample_server unicast_discover_msg empty_table"
        "sample_env 5" "htonl 0xC0A80009"]])
    (auto simp: unicast_discover_msg_facts lease_inv_empty may_use_def in_pool_def)

text \<open>
  C32: In every state one datagram makes the server read outside its buffer, from which on C gives the
  run no meaning: with no zero byte in the option area the search for option 53 runs past it.
\<close>

theorem unterminated_options_overrun:
  assumes "wf_dhcp (dhcp_recv s)"
  shows "server_step e (Some (replicate sizeof_dhcp_t 1)) s = Inl OutOfBounds"
proof -
  let ?d = "dhcp_of_bytes (replicate sizeof_dhcp_t 1)"
  have d: "recv_dhcp d (replicate sizeof_dhcp_t 1) = ?d" if "wf_dhcp d" for d
    using length_dhcp_bytes [OF that] by (simp add: recv_dhcp_def)
  have "get_dhcp_option (options ?d) OPTION_DHCP_MESSAGE_TYPE = Inl OutOfBounds"
    by (simp add: dhcp_of_bytes_def get_dhcp_option_def scan_ones)
  moreover have "opcode ?d = BOOTP_MESSAGE_TYPE_REQUEST" by (simp add: dhcp_of_bytes_def)
  ultimately show ?thesis
    using d [OF assms] by (simp only: server_step_def Let_def option.case dispatch_def) simp
qed

theorem unterminated_options_overrun_witness:
  "server_step (sample_env 5) (Some (replicate sizeof_dhcp_t 1)) (sample_server zero_msg empty_table) =
   Inl OutOfBounds"
  by (rule unterminated_options_overrun) (simp add: wf_zero_msg)

section \<open>Leases over a run\<close>

text \<open>
  C11: A lease survives every run in which the clock does not go back behind its stamp and its
  holder does not release it, whatever else arrives; so no other client gets the address
  before the lease has run out.
\<close>

theorem lease_survives_run:
  assumes "wf_dhcp (dhcp_recv s0)" "lease_inv (table s0)" "lease_map (table s0) a = Some (mac, t0)"
    and "server_run is s0 = Inr s" "messages_satisfy (keeps_lease t0 a mac) is s0"
  shows "(\<exists>ts \<ge> t0. lease_map (table s) a = Some (mac, ts)) \<and>
    (\<not> same_mac mac mac' \<and> now < t0 + uint IP_ADDRESS_LEASE_TIME \<longrightarrow>
     check_ipaddr (table s) now (htonl a) mac' \<le> 0)"
proof -
  have "held t0 a mac (table s)"
    using server_run_held [OF assms(4), of t0 a mac] assms(1-3,5) by (simp add: srv_inv_def held_def)
  then obtain ts where ts: "lease_map (table s) a = Some (mac, ts)" "t0 \<le> ts"
    by (auto simp: held_def split: option.splits)
  have "\<not> 0 < check_ipaddr (table s) now (htonl a) mac'"
    if "\<not> same_mac mac mac'" "now < t0 + uint IP_ADDRESS_LEASE_TIME"
    using ts that by (simp add: check_ipaddr_spec may_use_def)
  with ts show ?thesis by (meson not_le)
qed

theorem lease_survives_run_witness:
  "\<exists>s. server_run [(sample_env 5, Some (dhcp_bytes discover_msg))]
     (sample_server zero_msg (leased_table 0xC0A80009 other_mac 4)) = Inr s \<and>
     check_ipaddr (table s) 35 (htonl 0xC0A80009) sample_mac \<le> 0"
proof -
  let ?s0 = "sample_server zero_msg (leased_table 0xC0A80009 other_mac 4)"
  let ?is = "[(sample_env 5, Some (dhcp_bytes discover_msg))]"
  obtain s where s: "server_run ?is ?s0 = Inr s"
    using dispatch_total [of "(change_socket_setup_srv INADDR_ANY INADDR_BROADCAST ?s0)\<lparr>dhcp_recv := discover_msg\<rparr>"
      "sample_env 5"]
    by (auto simp: server_step_def Let_def discover_received discover_msg_facts leased_table_facts)
  have "messages_satisfy (keeps_lease 4 0xC0A80009 other_mac) ?is ?s0"
    by (simp add: discover_received discover_msg_facts keeps_lease_def split: sum.split)
  with lease_survives_run [of ?s0 "0xC0A80009" other_mac 4 ?is s sample_mac 35] s show ?thesis
    by (simp add: leased_table_facts wf_zero_msg same_mac_def del: server_run.simps)
qed

section \<open>Replies as they arrive\<close>

text \<open>
  C19: What a client finds in its buffer when a reply has arrived, whatever the buffer held: a
  BOOTP reply with the transaction id and the hardware address of the request, the message type,
  the server identifier, and for an offer or an acknowledgement the network's mask and router.
\<close>

theorem reply_as_received:
  assumes "construct_dhcp_packet_srv e st s = Inr (n, s')" "n \<noteq> 0" "wf_dhcp (dhcp_recv s)" "wf_dhcp buf"
    and "r = recv_dhcp buf (take (unat n) (dhcp_bytes (dhcp_recv s')))"
  shows "opcode r = BOOTP_MESSAGE_TYPE_REPLY \<and> xid r = xid (dhcp_recv s) \<and> chaddr r = chaddr (dhcp_recv s) \<and>
    yiaddr r = yiaddr (dhcp_recv s') \<and> type_option r st \<and>
    addr_option r OPTION_DHCP_SERVER_IDENTIFIER (htonl DHCP_SERVER_IP_ADDRESS) \<and>
    (st \<noteq> DHCPNAK \<longrightarrow> addr_option r OPTION_SUBNET_MASK (htonl SUBNET_MASK) \<and>
       addr_option r OPTION_ROUTER (htonl ROUTER_IP_ADDRESS))"
  using assms(1,3)
proof (cases rule: construct_cases)
  case exhausted
  then show ?thesis using assms(2) by simp
next
  case (reply t y w)
  have r: "r = recv_dhcp buf (reply_dgram st w y (dhcp_recv s))"
    using reply(3,4) assms(5) reply_dgram_eq [OF assms(3), of st w y] by simp
  from recv_reply_fields [OF assms(4,3) r] reply(3)
    recv_reply_addr [OF assms(4,3) map_of_reply_options(2), of st w y]
    recv_reply_addr [OF assms(4,3) map_of_reply_options(3), of st w y]
    recv_reply_addr [OF assms(4,3) map_of_reply_options(4), of st w y]
  show ?thesis by (simp add: r reply_msg_def)
qed

theorem reply_as_received_witness:
  "\<exists>n s'. construct_dhcp_packet_srv (sample_env 5) DHCPNAK (sample_server discover_msg empty_table) = Inr (n, s') \<and>
     type_option (recv_dhcp zero_msg (take (unat n) (dhcp_bytes (dhcp_recv s')))) DHCPNAK"
proof -
  let ?s = "sample_server discover_msg empty_table"
  obtain n s' w where c: "construct_dhcp_packet_srv (sample_env 5) DHCPNAK ?s = Inr (n, s')"
    "sent (send_reply n s') = sent ?s @
       [\<lparr>dest = dhcp_client_addr ?s, payload = reply_dgram DHCPNAK w 0 (dhcp_recv ?s)\<rparr>]"
    by (rule nak_sends [of ?s DHCPDISCOVER "sample_env 5"]) (simp_all add: discover_msg_facts)
  have "length (reply_dgram DHCPNAK w 0 discover_msg) = 264"
    by (simp add: length_reply_dgram discover_msg_facts reply_size_eq)
  with c(2) have "n \<noteq> 0" by auto
  with reply_as_received [OF c(1) _ _ wf_zero_msg refl] c(1) show ?thesis
    by (simp add: discover_msg_facts)
qed

end
