(* ===== verification/Dhcp_Client.thy ===== *)
theory Dhcp_Client
  imports Dhcp_Server
begin

text \<open>
  The client (\<open>src/dhcp-client.c\<close>). Its state holds the global variables, the address of the
  network interface as the kernel reports it, the pending alarm, the requests made to the kernel
  and the datagrams sent so far, and the results of the calls of \<open>recvfrom\<close> still to come
  (\<open>None\<close> is a time-out; so is the end of the list, since the socket has a time-out). What the
  kernel answers, the random numbers and the contents of uninitialised stack variables are the
  environment of a run. The signal handler \<open>lease_time_out\<close> is a step of its own, taken between
  the operations; a signal inside an operation is not modelled.
\<close>

section \<open>State\<close>

datatype ioctl = SIOCSIFADDR u32 | SIOCSIFNETMASK u32 | SIOCADDRT u32

record client =
  lease_time :: u32
  t1_time :: u32
  t2_time :: u32
  cl_xid :: u32
  cl_yiaddr :: u32
  dhcp_server_identifier :: u32
  cl_server_addr :: sockaddr_in
  cl_client_addr :: sockaddr_in
  if_addr :: u32
  kernel_calls :: "ioctl list"
  alarm_left :: u32
  cl_sent :: "datagram list"
  inbox :: "u8 list option list"
  calls :: nat

text \<open>
  \<open>rand_of n\<close> is the number \<open>rand()\<close> returns in the \<open>n\<close>-th operation, \<open>offer_stack n\<close> and
  \<open>ack_stack n\<close> what the receive buffers of that operation hold before anything is received.
\<close>

record cl_env =
  rand_of :: "nat \<Rightarrow> u32"
  offer_stack :: "nat \<Rightarrow> dhcp_t"
  ack_stack :: "nat \<Rightarrow> dhcp_t"
  hw_addr :: "u8 list option"
  addr_readable :: bool
  kernel_accepts :: "ioctl \<Rightarrow> bool"

text \<open>
  The variable \<open>option_value\<close>: a pointer into the option area of some message. No message it can
  point to changes before it is read, so the pointer carries the bytes of that area.
\<close>

type_synonym pointer = "(u8 list \<times> nat) option"

definition lookup_option :: "dhcp_t \<Rightarrow> u8 \<Rightarrow> pointer \<Rightarrow> (u8 \<times> pointer) res" where
  "lookup_option d ty p =
     bind_res (get_dhcp_option (options d) ty) (\<lambda>r.
       Inr (opt_ret r, case r of OptAbsent \<Rightarrow> p | OptAt n i \<Rightarrow> Some (options d, i)))"

definition deref8 :: "pointer \<Rightarrow> u8 res" where
  "deref8 p = (case p of None \<Rightarrow> Inl Uninitialised | Some (m, i) \<Rightarrow> load8 m (Some i))"

definition deref32 :: "pointer \<Rightarrow> u32 res" where
  "deref32 p = (case p of None \<Rightarrow> Inl Uninitialised | Some (m, i) \<Rightarrow> load32 m (Some i))"

section \<open>The interface\<close>

definition get_ip_address :: "cl_env \<Rightarrow> client \<Rightarrow> u32" where
  "get_ip_address e c = (if addr_readable e then if_addr c else 0)"

definition get_mac_address :: "cl_env \<Rightarrow> u8 list \<Rightarrow> u8 list option" where
  "get_mac_address e mac =
     map_option (\<lambda>sa. take HARDWARE_ADDRESS_LENGTH sa @ drop HARDWARE_ADDRESS_LENGTH mac) (hw_addr e)"

text \<open>A request to the kernel: whether it succeeded, and the state after it.\<close>

definition do_ioctl :: "cl_env \<Rightarrow> ioctl \<Rightarrow> client \<Rightarrow> bool \<times> client" where
  "do_ioctl e r c =
     (if kernel_accepts e r then
        (True, c\<lparr>kernel_calls := kernel_calls c @ [r],
                 if_addr := (case r of SIOCSIFADDR a \<Rightarrow> a | _ \<Rightarrow> if_addr c)\<rparr>)
      else (False, c))"

definition setup_interface_release :: "cl_env \<Rightarrow> client \<Rightarrow> client" where
  "setup_interface_release e c = snd (do_ioctl e (SIOCSIFADDR (htonl INADDR_ANY)) c)"

definition setup_interface :: "cl_env \<Rightarrow> dhcp_t \<Rightarrow> client \<Rightarrow> client res" where
  "setup_interface e dhcp_ack c =
     (let (ok, c1) = do_ioctl e (SIOCSIFADDR (yiaddr dhcp_ack)) c in
      if \<not> ok then Inr c1
      else bind_res (lookup_option dhcp_ack OPTION_SUBNET_MASK None) (\<lambda>(n, p).
        if n \<noteq> 4 then Inr c1
        else bind_res (deref32 p) (\<lambda>mask.
          let (ok, c2) = do_ioctl e (SIOCSIFNETMASK mask) c1 in
          if \<not> ok then Inr c2
          else bind_res (lookup_option dhcp_ack OPTION_ROUTER p) (\<lambda>(n, p).
            if n \<noteq> 4 then Inr c2
            else bind_res (deref32 p) (\<lambda>gateway. Inr (snd (do_ioctl e (SIOCADDRT gateway) c2)))))))"

section \<open>Building a message\<close>

definition client_options :: "u8 \<Rightarrow> u32 \<Rightarrow> client \<Rightarrow> u8 list \<Rightarrow> (u8 list \<times> u16) res" where
  "client_options state ci c opts =
     bind_res (add_option OPTION_DHCP_MESSAGE_TYPE [state] (opts, 0)) (\<lambda>a1.
     bind_res
       (if state = DHCPREQUEST \<or> state = DHCPRELEASE then
          add_option OPTION_DHCP_SERVER_IDENTIFIER (bytes_le32 (dhcp_server_identifier c)) a1
        else Inr a1) (\<lambda>a2.
     bind_res
       (if ci = htonl INADDR_ANY then
          add_option OPTION_REQUESTED_IP (bytes_le32 (cl_yiaddr c)) a2
        else Inr a2) (\<lambda>a3.
     bind_res
       (if state \<noteq> DHCPRELEASE \<and> state \<noteq> DHCPDECLINE then
          bind_res (add_option OPTION_PARAMETER_REQUEST_LIST parameter_req_list a3) (\<lambda>a4.
          add_option OPTION_VENDOR_CLASS_IDENTIFIER DHCP_CLIENT_VENDOR_CLASS_ID a4)
        else Inr a3) (\<lambda>a5.
     add_option OPTION_END [0] a5))))"

text \<open>The message and the number of its bytes to send; a missing MAC ends the program.\<close>

definition construct_dhcp_packet_cl :: "cl_env \<Rightarrow> u8 \<Rightarrow> client \<Rightarrow> (dhcp_t \<times> u16) res" where
  "construct_dhcp_packet_cl e state c =
     (let dhcp = zero_msg in
      case get_mac_address e (chaddr dhcp) of
        None \<Rightarrow> Inl Exited
      | Some mac \<Rightarrow>
          let ci = get_ip_address e c in
          bind_res (client_options state ci c (options dhcp)) (\<lambda>(opts, len).
            Inr (dhcp\<lparr>opcode := BOOTP_MESSAGE_TYPE_REQUEST, htype := HARDWARE_TYPE,
                      hlen := of_nat HARDWARE_ADDRESS_LENGTH, hops := DHCP_HOPS,
                      xid := htonl (cl_xid c), secs := htons SECONDS_ELAPSED,
                      flags := (if state = DHCPRELEASE \<or> state = DHCPDECLINE
                                then htons BOOTP_FLAGS_UNICAST else htons BOOTP_FLAGS),
                      ciaddr := ci, yiaddr := htonl INADDR_ANY, siaddr := htonl INADDR_ANY,
                      giaddr := htonl INADDR_ANY, chaddr := mac,
                      magic_cookie := htonl DHCP_MAGIC_COOKIE, options := opts\<rparr>,
                 of_nat (sizeof_dhcp_t - DHCP_MAX_OPTION_LEN) + len)))"

definition change_socket_setup_cl :: "u32 \<Rightarrow> u32 \<Rightarrow> client \<Rightarrow> client" where
  "change_socket_setup_cl client_addr server_addr c =
     c\<lparr>cl_client_addr := (cl_client_addr c)\<lparr>sin_addr := htonl client_addr\<rparr>,
       cl_server_addr := (cl_server_addr c)\<lparr>sin_addr := htonl server_addr\<rparr>\<rparr>"

text \<open>Construct a message of the type and \<open>sendto\<close> the server's address.\<close>

definition send_message :: "cl_env \<Rightarrow> u8 \<Rightarrow> client \<Rightarrow> client res" where
  "send_message e state c =
     bind_res (construct_dhcp_packet_cl e state c) (\<lambda>(d, n).
       Inr (c\<lparr>cl_sent := cl_sent c @ [\<lparr>dest = cl_server_addr c,
                payload = take (unat n) (dhcp_bytes d)\<rparr>]\<rparr>))"

text \<open>\<open>srand(time(NULL)); xid = (uint32_t) rand();\<close>\<close>

definition new_xid :: "cl_env \<Rightarrow> client \<Rightarrow> client" where
  "new_xid e c = c\<lparr>cl_xid := rand_of e (calls c), calls := Suc (calls c)\<rparr>"

section \<open>Waiting for an answer\<close>

text \<open>
  The loop of \<open>dhcp_discover\<close> that waits for an offer. \<open>None\<close> is a time-out; otherwise the pointer
  \<open>option_value\<close>, and the identifier and address taken from the message.
\<close>

fun wait_offer :: "u32 \<Rightarrow> u8 list option list \<Rightarrow> dhcp_t \<Rightarrow>
    ((pointer \<times> u32 \<times> u32) option \<times> u8 list option list) res" where
  "wait_offer x [] buf = Inr (None, [])"
| "wait_offer x (None # ins) buf = Inr (None, ins)"
| "wait_offer x (Some g # ins) buf =
     (let d = recv_dhcp buf g in
      if opcode d = BOOTP_MESSAGE_TYPE_REPLY \<and> xid d = htonl x then
        bind_res (lookup_option d OPTION_DHCP_SERVER_IDENTIFIER None) (\<lambda>(_, p).
        bind_res (deref32 p) (\<lambda>sid. Inr (Some (p, sid, yiaddr d), ins)))
      else wait_offer x ins d)"

text \<open>
  The loop that waits for the answer to a REQUEST or an INFORM, which the code repeats in five
  places: the return value (-1 time-out, 1 refused, 0 acknowledged), the buffer, the server
  identifier and what is left to receive. \<open>p\<close> is \<open>option_value\<close> before the loop.
\<close>

fun wait_ack :: "u32 \<Rightarrow> pointer \<Rightarrow> u8 list option list \<Rightarrow> dhcp_t \<Rightarrow> u32 \<Rightarrow>
    (int \<times> dhcp_t \<times> u32 \<times> u8 list option list) res" where
  "wait_ack x p [] buf sid = Inr (-1, buf, sid, [])"
| "wait_ack x p (None # ins) buf sid = Inr (-1, buf, sid, ins)"
| "wait_ack x p (Some g # ins) buf sid =
     (let d = recv_dhcp buf g in
      if opcode d = BOOTP_MESSAGE_TYPE_REPLY \<and> xid d = htonl x then
        bind_res (lookup_option d OPTION_DHCP_MESSAGE_TYPE p) (\<lambda>(_, p1).
        bind_res (deref8 p1) (\<lambda>m.
        if m = DHCPNAK then Inr (1, d, sid, ins)
        else
          bind_res (lookup_option d OPTION_DHCP_SERVER_IDENTIFIER p1) (\<lambda>(_, p2).
          bind_res (deref32 p2) (\<lambda>sid'. Inr (0, d, sid', ins)))))
      else wait_ack x p ins d sid)"

definition receive_ack :: "cl_env \<Rightarrow> pointer \<Rightarrow> client \<Rightarrow> (int \<times> dhcp_t \<times> client) res" where
  "receive_ack e p c =
     bind_res (wait_ack (cl_xid c) p (inbox c) (ack_stack e (calls c)) (dhcp_server_identifier c))
       (\<lambda>(rc, ack, sid, ins). Inr (rc, ack, c\<lparr>dhcp_server_identifier := sid, inbox := ins\<rparr>))"

section \<open>The exchanges\<close>

definition dhcp_discover :: "cl_env \<Rightarrow> client \<Rightarrow> (int \<times> dhcp_t \<times> client) res" where
  "dhcp_discover e c =
     (let c1 = change_socket_setup_cl INADDR_ANY INADDR_BROADCAST (new_xid e c) in
      bind_res (send_message e DHCPDISCOVER c1) (\<lambda>c2.
      bind_res (wait_offer (cl_xid c2) (inbox c2) (offer_stack e (calls c2))) (\<lambda>(r, ins).
        let c3 = c2\<lparr>inbox := ins\<rparr> in
        case r of
          None \<Rightarrow> Inr (-1, ack_stack e (calls c3), c3)
        | Some (p, sid, y) \<Rightarrow>
            bind_res (send_message e DHCPREQUEST (c3\<lparr>dhcp_server_identifier := sid, cl_yiaddr := y\<rparr>))
              (receive_ack e p))))"

definition dhcp_release :: "cl_env \<Rightarrow> client \<Rightarrow> client res" where
  "dhcp_release e c =
     (let c1 = new_xid e c in
      send_message e DHCPRELEASE
        (change_socket_setup_cl (ntohl (get_ip_address e c1)) (ntohl (dhcp_server_identifier c1)) c1))"

definition dhcp_inform :: "cl_env \<Rightarrow> client \<Rightarrow> (int \<times> dhcp_t \<times> client) res" where
  "dhcp_inform e c =
     (let c1 = new_xid e c in
      bind_res (send_message e DHCPINFORM
        (change_socket_setup_cl (ntohl (get_ip_address e c1)) INADDR_BROADCAST c1)) (receive_ack e None))"

definition dhcp_renew :: "cl_env \<Rightarrow> client \<Rightarrow> (int \<times> dhcp_t \<times> client) res" where
  "dhcp_renew e c =
     (let c1 = new_xid e c in
      bind_res (send_message e DHCPREQUEST
        (change_socket_setup_cl (ntohl (get_ip_address e c1)) (ntohl (dhcp_server_identifier c1)) c1))
        (receive_ack e None))"

definition dhcp_rebind :: "cl_env \<Rightarrow> client \<Rightarrow> (int \<times> dhcp_t \<times> client) res" where
  "dhcp_rebind e c =
     (let c1 = new_xid e c in
      bind_res (send_message e DHCPREQUEST
        (change_socket_setup_cl (ntohl (get_ip_address e c1)) INADDR_BROADCAST c1)) (receive_ack e None))"

section \<open>Timers and operations\<close>

text \<open>A four-byte time option in host order, or the default when it has not four bytes.\<close>

definition time_option :: "dhcp_t \<Rightarrow> u8 \<Rightarrow> u32 \<Rightarrow> pointer \<Rightarrow> (u32 \<times> pointer) res" where
  "time_option d ty dflt p =
     bind_res (lookup_option d ty p) (\<lambda>(n, p1).
       if n \<noteq> 4 then Inr (dflt, p1)
       else bind_res (deref32 p1) (\<lambda>v. Inr (ntohl v, p1)))"

definition set_alarm :: "dhcp_t \<Rightarrow> client \<Rightarrow> client res" where
  "set_alarm dhcp_ack c =
     bind_res (lookup_option dhcp_ack OPTION_IP_ADDRESS_LEASE_TIME None) (\<lambda>(n, p).
       if n \<noteq> 4 then Inr c
       else bind_res (deref32 p) (\<lambda>v.
         let lease = ntohl v in
         bind_res (time_option dhcp_ack OPTION_IP_T1_RENEWAL_TIME (lease div 2) p) (\<lambda>(t1, p).
         bind_res (time_option dhcp_ack OPTION_IP_T2_REBIND_TIME (lease div 8 * 7) p) (\<lambda>(t2, p).
           Inr (c\<lparr>lease_time := lease, t1_time := t1, t2_time := t2, alarm_left := t1\<rparr>)))))"

definition discover :: "cl_env \<Rightarrow> client \<Rightarrow> client res" where
  "discover e c =
     (if get_ip_address e c \<noteq> 0 then Inr c
      else bind_res (dhcp_discover e c) (\<lambda>(state, dhcp_ack, c1).
        if state < 0 then Inr c1
        else if state > 0 then Inr (setup_interface_release e c1)
        else bind_res (setup_interface e dhcp_ack c1) (set_alarm dhcp_ack)))"

definition release :: "cl_env \<Rightarrow> client \<Rightarrow> client res" where
  "release e c = bind_res (dhcp_release e (c\<lparr>alarm_left := 0\<rparr>)) (\<lambda>c1. Inr (setup_interface_release e c1))"

definition inform :: "cl_env \<Rightarrow> client \<Rightarrow> client res" where
  "inform e c = bind_res (dhcp_inform e c) (\<lambda>(state, dhcp_ack, c1). Inr c1)"

definition renew :: "cl_env \<Rightarrow> client \<Rightarrow> client res" where
  "renew e c = bind_res (dhcp_renew e c) (\<lambda>(state, dhcp_ack, c1).
     if state < 0 then Inr c1
     else if state > 0 then discover e (setup_interface_release e c1)
     else set_alarm dhcp_ack c1)"

definition rebind :: "cl_env \<Rightarrow> client \<Rightarrow> client res" where
  "rebind e c = bind_res (dhcp_rebind e c) (\<lambda>(state, dhcp_ack, c1).
     if state < 0 then Inr c1
     else if state > 0 then discover e (setup_interface_release e c1)
     else set_alarm dhcp_ack c1)"

text \<open>The handler of \<open>SIGALRM\<close>.\<close>

definition lease_time_out :: "cl_env \<Rightarrow> client \<Rightarrow> client res" where
  "lease_time_out e c =
     (if t1_time c \<noteq> 0 then renew e (c\<lparr>alarm_left := t2_time c - t1_time c, t1_time := 0\<rparr>)
      else if t2_time c \<noteq> 0 then rebind e (c\<lparr>alarm_left := lease_time c - t2_time c, t2_time := 0\<rparr>)
      else Inr (setup_interface_release e c))"

text \<open>The delivery of the signal: the pending alarm is used up when the handler starts.\<close>

definition alarm_fires :: "cl_env \<Rightarrow> client \<Rightarrow> client res" where
  "alarm_fires e c = lease_time_out e (c\<lparr>alarm_left := 0\<rparr>)"

section \<open>The program\<close>

text \<open>
  The menu, on the lines typed: \<open>gets\<close> has no bound but the size of \<open>input\<close>. The end of the list
  is the prompt waiting for the next line.
\<close>

fun interact :: "cl_env \<Rightarrow> string list \<Rightarrow> client \<Rightarrow> client res" where
  "interact e [] c = Inr c"
| "interact e (input # ls) c =
     (if 1024 \<le> length input then Inl OutOfBounds
      else case input of
        [] \<Rightarrow> interact e ls c
      | ch # _ \<Rightarrow>
          if ch = CHR ''1'' then bind_res (discover e c) (interact e ls)
          else if ch = CHR ''2'' then bind_res (release e c) (interact e ls)
          else if ch = CHR ''3'' then bind_res (inform e c) (interact e ls)
          else if ch = CHR ''4'' then bind_res (renew e c) (interact e ls)
          else if ch = CHR ''5'' then bind_res (rebind e c) (interact e ls)
          else if ch = CHR ''0'' then Inr c
          else interact e ls c)"

datatype cl_setup_call = Cl_Socket | Cl_Timeout | Cl_Bind_To_Device | Cl_Set_Broadcast | Cl_Bind_Address

definition dhcp_setup_cl ::
    "string \<Rightarrow> (cl_setup_call \<Rightarrow> bool) \<Rightarrow> u32 \<Rightarrow> u8 list option list \<Rightarrow> client res" where
  "dhcp_setup_cl dev_name succeeds addr0 ins =
     (if \<not> succeeds Cl_Socket then Inl Exited
      else if \<not> succeeds Cl_Timeout then Inl Exited
      else bind_res (copy_ifr_name dev_name) (\<lambda>ifr_name.
      if \<not> succeeds Cl_Bind_To_Device then Inl Exited
      else if \<not> succeeds Cl_Set_Broadcast then Inl Exited
      else if \<not> succeeds Cl_Bind_Address then Inl Exited
      else Inr \<lparr>lease_time = 0, t1_time = 0, t2_time = 0, cl_xid = 0, cl_yiaddr = htonl INADDR_ANY,
                dhcp_server_identifier = 0,
                cl_server_addr = \<lparr>sin_port = htons DHCP_SERVER_PORT, sin_addr = htonl INADDR_BROADCAST\<rparr>,
                cl_client_addr = \<lparr>sin_port = htons DHCP_CLIENT_PORT, sin_addr = htonl INADDR_ANY\<rparr>,
                if_addr = addr0, kernel_calls = [], alarm_left = 0, cl_sent = [], inbox = ins, calls = 0\<rparr>))"

text \<open>\<open>inet_addr\<close> of the C library is a parameter; \<open>lines\<close> is what is typed at the menu.\<close>

definition main_cl :: "(string \<Rightarrow> u32) \<Rightarrow> cl_env \<Rightarrow> nat \<Rightarrow> string list \<Rightarrow> (cl_setup_call \<Rightarrow> bool) \<Rightarrow>
    u32 \<Rightarrow> u8 list option list \<Rightarrow> string list \<Rightarrow> client res" where
  "main_cl inet_addr e euid argv succeeds addr0 ins lines =
     (if euid \<noteq> 0 then Inl Exited
      else if length argv < 3 \<or> 4 < length argv then Inl Exited
      else bind_res (dhcp_setup_cl (argv ! 1) succeeds addr0 ins) (\<lambda>c.
        if length argv = 3 then
          (if argv ! 2 = ''--interact'' then interact e lines c
           else if argv ! 2 = ''--default'' then discover e c
           else Inr c)
        else
          let c1 = c\<lparr>dhcp_server_identifier := inet_addr (argv ! 3)\<rparr> in
          if argv ! 2 = ''--release'' then release e c1
          else if argv ! 2 = ''--inform'' then inform e c1
          else if argv ! 2 = ''--renew'' then renew e c1
          else if argv ! 2 = ''--rebind'' then rebind e c1
          else Inr c1))"

end
