(* ===== verification/Client_Messages.thy ===== *)
theory Client_Messages
  imports Dhcp_Client Samples
begin

text \<open>
  The messages of the client: their options as a list, their datagrams, and what the server sees
  in its buffer when one has arrived, whatever the buffer held before.
\<close>

section \<open>The options of a message\<close>

definition client_opts :: "u8 \<Rightarrow> u32 \<Rightarrow> client \<Rightarrow> (u8 \<times> u8 list) list" where
  "client_opts state ci c =
     [(OPTION_DHCP_MESSAGE_TYPE, [state])]
     @ (if state = DHCPREQUEST \<or> state = DHCPRELEASE
        then [(OPTION_DHCP_SERVER_IDENTIFIER, bytes_le32 (dhcp_server_identifier c))] else [])
     @ (if ci = 0 then [(OPTION_REQUESTED_IP, bytes_le32 (cl_yiaddr c))] else [])
     @ (if state \<noteq> DHCPRELEASE \<and> state \<noteq> DHCPDECLINE
        then [(OPTION_PARAMETER_REQUEST_LIST, parameter_req_list),
              (OPTION_VENDOR_CLASS_IDENTIFIER, DHCP_CLIENT_VENDOR_CLASS_ID)] else [])
     @ [(OPTION_END, [0])]"

lemma length_client_opts: "length (enc_opts (client_opts st ci c)) \<le> 39"
  by (simp add: client_opts_def)

lemma enc_ok_client_opts: "enc_ok (client_opts st ci c)"
  by (simp add: client_opts_def)

lemma map_of_client_opts:
  "st = DHCPREQUEST \<or> st = DHCPRELEASE \<Longrightarrow>
     map_of (client_opts st ci c) OPTION_DHCP_SERVER_IDENTIFIER = Some (bytes_le32 (dhcp_server_identifier c))"
  "ci = 0 \<Longrightarrow> map_of (client_opts st ci c) OPTION_REQUESTED_IP = Some (bytes_le32 (cl_yiaddr c))"
  by (auto simp: client_opts_def)

lemma client_options_eq:
  assumes "length opts = DHCP_MAX_OPTION_LEN"
  shows "client_options st ci c opts = Inr (written (client_opts st ci c) opts)"
proof -
  have start: "(opts, 0) = written [] opts" by (simp add: written_Nil)
  show ?thesis
    unfolding client_options_def start
    using assms by (simp add: add_options_written client_opts_def)
qed

section \<open>The message\<close>

definition client_msg :: "cl_env \<Rightarrow> u8 list \<Rightarrow> u8 \<Rightarrow> client \<Rightarrow> dhcp_t" where
  "client_msg e hw st c = zero_msg\<lparr>
     opcode := BOOTP_MESSAGE_TYPE_REQUEST, htype := HARDWARE_TYPE, hlen := 6, hops := DHCP_HOPS,
     xid := htonl (cl_xid c), secs := 0,
     flags := (if st = DHCPRELEASE \<or> st = DHCPDECLINE then 0 else htons BOOTP_FLAGS),
     ciaddr := get_ip_address e c, yiaddr := 0, siaddr := 0, giaddr := 0,
     chaddr := take HARDWARE_ADDRESS_LENGTH hw @ replicate 10 0,
     magic_cookie := htonl DHCP_MAGIC_COOKIE,
     options := enc_opts (client_opts st (get_ip_address e c) c) @
       replicate (DHCP_MAX_OPTION_LEN - length (enc_opts (client_opts st (get_ip_address e c) c))) 0\<rparr>"

definition client_dgram :: "cl_env \<Rightarrow> u8 list \<Rightarrow> u8 \<Rightarrow> client \<Rightarrow> u8 list" where
  "client_dgram e hw st c =
     dhcp_header (client_msg e hw st c) @ enc_opts (client_opts st (get_ip_address e c) c)"

lemma wf_client_msg: "6 \<le> length hw \<Longrightarrow> wf_dhcp (client_msg e hw st c)"
  using wf_zero_msg length_client_opts [of st "get_ip_address e c" c]
  by (simp add: wf_dhcp_def client_msg_def min_absorb2)

lemma construct_cl_eq:
  assumes "hw_addr e = Some hw"
  shows "\<exists>n. construct_dhcp_packet_cl e st c = Inr (client_msg e hw st c, n) \<and>
    unat n = DHCP_FIXED_NON_UDP + length (enc_opts (client_opts st (get_ip_address e c) c))"
  using length_client_opts [of st "get_ip_address e c" c]
  by (simp add: construct_dhcp_packet_cl_def assms get_mac_address_def zero_msg_arrays
      client_options_eq written_def client_msg_def Let_def unat_word_ariths)

text \<open>Sending a message appends its datagram.\<close>

lemma send_message_eq:
  assumes "hw_addr e = Some hw" "6 \<le> length hw"
  shows "send_message e st c = Inr (c\<lparr>cl_sent := cl_sent c @
    [\<lparr>dest = cl_server_addr c, payload = client_dgram e hw st c\<rparr>]\<rparr>)"
proof -
  obtain n where n: "construct_dhcp_packet_cl e st c = Inr (client_msg e hw st c, n)"
    "unat n = DHCP_FIXED_NON_UDP + length (enc_opts (client_opts st (get_ip_address e c) c))"
    using construct_cl_eq [OF assms(1)] by blast
  have "take (unat n) (dhcp_bytes (client_msg e hw st c)) = client_dgram e hw st c"
    using length_dhcp_header [OF wf_client_msg [OF assms(2), of e st c]] n(2)
    by (simp add: dhcp_bytes_def client_dgram_def) (simp add: client_msg_def)
  with n(1) show ?thesis by (simp add: send_message_def)
qed

section \<open>The message as received\<close>

lemma recv_client:
  assumes "wf_dhcp buf" "6 \<le> length hw"
  shows "recv_dhcp buf (client_dgram e hw st c) = (client_msg e hw st c)\<lparr>options :=
      enc_opts (client_opts st (get_ip_address e c) c) @
      drop (length (enc_opts (client_opts st (get_ip_address e c) c))) (options buf)\<rparr>"
proof -
  let ?d = "client_msg e hw st c"
  let ?k = "length (enc_opts (client_opts st (get_ip_address e c) c))"
  have wf: "wf_dhcp ?d" by (rule wf_client_msg [OF assms(2)])
  have "take (DHCP_FIXED_NON_UDP + ?k) (dhcp_bytes ?d) = client_dgram e hw st c"
    using length_dhcp_header [OF wf] by (simp add: dhcp_bytes_def client_dgram_def) (simp add: client_msg_def)
  moreover have "recv_dhcp buf (take (DHCP_FIXED_NON_UDP + ?k) (dhcp_bytes ?d)) =
      ?d\<lparr>options := take ?k (options ?d) @ drop ?k (options buf)\<rparr>"
    using recv_dhcp_prefix [OF assms(1) wf, of "DHCP_FIXED_NON_UDP + ?k"]
      length_client_opts [of st "get_ip_address e c" c] by simp
  ultimately show ?thesis by (simp add: client_msg_def)
qed

lemma recv_client_fields:
  assumes "wf_dhcp buf" "6 \<le> length hw" "d = recv_dhcp buf (client_dgram e hw st c)"
  shows "wf_dhcp d" "opcode d = BOOTP_MESSAGE_TYPE_REQUEST" "xid d = htonl (cl_xid c)"
    "ciaddr d = get_ip_address e c" "chaddr d = take HARDWARE_ADDRESS_LENGTH hw @ replicate 10 0"
    "message_type d = Some st"
    "\<exists>rest. options d = OPTION_DHCP_MESSAGE_TYPE # 1 # st # rest"
proof -
  show "wf_dhcp d" unfolding assms(3) by (rule wf_recv_dhcp [OF assms(1)])
  have o: "options d = OPTION_DHCP_MESSAGE_TYPE # 1 # st # drop 3 (options d)" "opcode d = BOOTP_MESSAGE_TYPE_REQUEST"
    by (simp_all add: assms(3) recv_client [OF assms(1,2)] client_opts_def enc_opt_def numeral_eq_Suc)
      (simp add: client_msg_def)
  then show "\<exists>rest. options d = OPTION_DHCP_MESSAGE_TYPE # 1 # st # rest" by blast
  from o show "message_type d = Some st"
    using get_dhcp_option_found [of "[]" OPTION_DHCP_MESSAGE_TYPE "[st]" "drop 3 (options d)"]
    by (simp add: message_type_def enc_opt_def) (metis length_Cons nth_Cons_0 nth_Cons_Suc numeral_2_eq_2 zero_less_Suc Suc_less_eq)
qed (simp_all add: assms(3) recv_client [OF assms(1,2)], simp_all add: client_msg_def)

lemma recv_client_addr:
  assumes "wf_dhcp buf" "6 \<le> length hw"
    and "map_of (client_opts st (get_ip_address e c) c) ty = Some (bytes_le32 v)" "ty \<noteq> 0"
  shows "addr_option (recv_dhcp buf (client_dgram e hw st c)) ty v"
  using get_dhcp_option_enc [OF enc_ok_client_opts assms(4,3)]
  by (simp add: recv_client [OF assms(1,2)] addr_option_def load32_def) (metis bind_res_Inr word_le32_bytes)

lemma recv_client_server:
  assumes "wf_dhcp buf" "6 \<le> length hw" "st = DHCPREQUEST \<or> st = DHCPRELEASE"
  shows "addr_option (recv_dhcp buf (client_dgram e hw st c)) OPTION_DHCP_SERVER_IDENTIFIER (dhcp_server_identifier c)"
  by (rule recv_client_addr [OF assms(1,2) map_of_client_opts(1) [OF assms(3)]]) simp

lemma recv_client_requested:
  assumes "wf_dhcp buf" "6 \<le> length hw" "get_ip_address e c = 0"
  shows "addr_option (recv_dhcp buf (client_dgram e hw st c)) OPTION_REQUESTED_IP (cl_yiaddr c)"
  by (rule recv_client_addr [OF assms(1,2) map_of_client_opts(2) [OF assms(3)]]) simp

end
