(* ===== verification/Client_Waits.thy ===== *)
theory Client_Waits
  imports Client_Messages
begin

text \<open>
  The receive loops of the client. They share a contract, the locale \<open>reply_loop\<close>: give up at
  the first time-out, handle the first datagram that is a BOOTP reply with the transaction id of
  the exchange, and drop the others. The loop for offers and the loop for acknowledgements are
  instances.
\<close>

section \<open>The contract of a receive loop\<close>

definition for_us :: "u32 \<Rightarrow> dhcp_t \<Rightarrow> bool" where
  "for_us x d \<longleftrightarrow> opcode d = BOOTP_MESSAGE_TYPE_REPLY \<and> xid d = htonl x"

text \<open>Datagrams that leave a message for somebody else in the buffer, one after the other.\<close>

fun foreign :: "u32 \<Rightarrow> u8 list list \<Rightarrow> dhcp_t \<Rightarrow> bool" where
  "foreign x [] buf = True"
| "foreign x (g # gs) buf = (\<not> for_us x (recv_dhcp buf g) \<and> foreign x gs (recv_dhcp buf g))"

locale reply_loop =
  fixes wait :: "u8 list option list \<Rightarrow> dhcp_t \<Rightarrow> 'r res"
    and x :: u32
    and late :: "dhcp_t \<Rightarrow> u8 list option list \<Rightarrow> 'r res"
    and accept :: "dhcp_t \<Rightarrow> u8 list option list \<Rightarrow> 'r res"
  assumes wait_Nil: "wait [] buf = late buf []"
    and wait_None: "wait (None # ins) buf = late buf ins"
    and wait_Some: "wait (Some g # ins) buf =
      (if for_us x (recv_dhcp buf g) then accept (recv_dhcp buf g) ins else wait ins (recv_dhcp buf g))"
begin

lemma skip: "foreign x gs buf \<Longrightarrow> wait (map Some gs @ ins) buf = wait ins (foldl recv_dhcp buf gs)"
  by (induction gs arbitrary: buf) (auto simp: wait_Some)

lemma accepts:
  "foreign x gs buf \<Longrightarrow> for_us x (recv_dhcp (foldl recv_dhcp buf gs) g) \<Longrightarrow>
   wait (map Some gs @ Some g # ins) buf = accept (recv_dhcp (foldl recv_dhcp buf gs) g) ins"
  by (simp add: skip wait_Some)

lemma outcome:
  obtains
    (silence) gs where "ins = map Some gs" "foreign x gs buf"
      "wait ins buf = late (foldl recv_dhcp buf gs) []"
  | (time_out) gs rest where "ins = map Some gs @ None # rest" "foreign x gs buf"
      "wait ins buf = late (foldl recv_dhcp buf gs) rest"
  | (answer) gs g rest where "ins = map Some gs @ Some g # rest" "foreign x gs buf"
      "for_us x (recv_dhcp (foldl recv_dhcp buf gs) g)"
      "wait ins buf = accept (recv_dhcp (foldl recv_dhcp buf gs) g) rest"
proof (induction ins arbitrary: buf thesis)
  case Nil
  then show ?case using wait_Nil [of buf] by (metis foldl_Nil foreign.simps(1) list.map_disc_iff)
next
  case (Cons i ins)
  show ?case
  proof (cases i)
    case None
    then show ?thesis using Cons.prems(2) [of "[]" ins] wait_None by simp
  next
    case (Some g)
    let ?b = "recv_dhcp buf g"
    show ?thesis
    proof (cases "for_us x ?b")
      case True
      then show ?thesis using Cons.prems(3) [of "[]" g ins] wait_Some Some by simp
    next
      case False
      then have w: "wait (i # ins) buf = wait ins ?b" by (simp add: Some wait_Some)
      show ?thesis
      proof (rule Cons.IH [of ?b])
        fix gs assume "ins = map Some gs" "foreign x gs ?b" "wait ins ?b = late (foldl recv_dhcp ?b gs) []"
        then show ?thesis using Cons.prems(1) [of "g # gs"] False w Some by simp
      next
        fix gs rest assume "ins = map Some gs @ None # rest" "foreign x gs ?b"
          "wait ins ?b = late (foldl recv_dhcp ?b gs) rest"
        then show ?thesis using Cons.prems(2) [of "g # gs" rest] False w Some by simp
      next
        fix gs g' rest assume "ins = map Some gs @ Some g' # rest" "foreign x gs ?b"
          "for_us x (recv_dhcp (foldl recv_dhcp ?b gs) g')"
          "wait ins ?b = accept (recv_dhcp (foldl recv_dhcp ?b gs) g') rest"
        then show ?thesis using Cons.prems(3) [of "g # gs" g' rest] False w Some by simp
      qed
    qed
  qed
qed

end

section \<open>The two loops\<close>

definition take_offer :: "dhcp_t \<Rightarrow> (pointer \<times> u32 \<times> u32) res" where
  "take_offer d =
     bind_res (lookup_option d OPTION_DHCP_SERVER_IDENTIFIER None) (\<lambda>(_, p).
     bind_res (deref32 p) (\<lambda>sid. Inr (p, sid, yiaddr d)))"

definition take_ack :: "pointer \<Rightarrow> u32 \<Rightarrow> dhcp_t \<Rightarrow> (int \<times> dhcp_t \<times> u32) res" where
  "take_ack p sid d =
     bind_res (lookup_option d OPTION_DHCP_MESSAGE_TYPE p) (\<lambda>(_, p1).
     bind_res (deref8 p1) (\<lambda>m.
     if m = DHCPNAK then Inr (1, d, sid)
     else
       bind_res (lookup_option d OPTION_DHCP_SERVER_IDENTIFIER p1) (\<lambda>(_, p2).
       bind_res (deref32 p2) (\<lambda>sid'. Inr (0, d, sid')))))"

interpretation offer: reply_loop "wait_offer x" x "\<lambda>buf ins. Inr (None, ins)"
  "\<lambda>d ins. bind_res (take_offer d) (\<lambda>r. Inr (Some r, ins))" for x
  by unfold_locales
    (simp_all add: for_us_def take_offer_def Let_def bind_res_assoc case_prod_unfold)

interpretation ack: reply_loop "\<lambda>ins buf. wait_ack x p ins buf sid" x "\<lambda>buf ins. Inr (-1, buf, sid, ins)"
  "\<lambda>d ins. bind_res (take_ack p sid d) (\<lambda>(rc, d, sid'). Inr (rc, d, sid', ins))" for x p sid
proof unfold_locales
  fix g ins buf
  let ?d = "recv_dhcp buf g"
  show "wait_ack x p (Some g # ins) buf sid =
      (if for_us x ?d then bind_res (take_ack p sid ?d) (\<lambda>(rc, d, sid'). Inr (rc, d, sid', ins))
       else wait_ack x p ins ?d sid)"
    by (simp add: for_us_def take_ack_def Let_def bind_res_assoc case_prod_unfold bind_res_if cong: if_cong)
qed simp_all

text \<open>The handlers on a message that carries the options they read.\<close>

lemma take_offer_addr:
  assumes "addr_option d OPTION_DHCP_SERVER_IDENTIFIER sid"
  shows "\<exists>i. take_offer d = Inr (Some (options d, i), sid, yiaddr d)"
  using assms by (auto simp: addr_option_def take_offer_def lookup_option_def deref32_def)

lemma take_ack_addr:
  assumes "type_option d m" "addr_option d OPTION_DHCP_SERVER_IDENTIFIER sid'"
  shows "take_ack p sid d = Inr (if m = DHCPNAK then (1, d, sid) else (0, d, sid'))"
  using assms by (auto simp: type_option_def addr_option_def take_ack_def lookup_option_def
      deref8_def deref32_def)

lemma take_ack_nak: "type_option d DHCPNAK \<Longrightarrow> take_ack p sid d = Inr (1, d, sid)"
  by (auto simp: type_option_def take_ack_def lookup_option_def deref8_def)

lemma take_ack_buffer: "take_ack p sid d = Inr (rc, d', sid') \<Longrightarrow> d' = d \<and> (rc = 0 \<or> rc = 1)"
  by (auto simp: take_ack_def res_simps split: if_splits)

end
