(* ===== verification/Client_Runs.thy ===== *)
theory Client_Runs
  imports Client_Waits
begin

text \<open>
  The operations of the client on concrete courses of events: what \<open>dhcp_discover\<close> and
  \<open>receive_ack\<close> return and send when answers arrive or fail to, and what the interface and the
  timers are set to.
\<close>

section \<open>Frames\<close>

lemma get_ip_address_frame [simp]:
  "get_ip_address e (c\<lparr>cl_sent := s\<rparr>) = get_ip_address e c"
  "get_ip_address e (c\<lparr>inbox := i\<rparr>) = get_ip_address e c"
  "get_ip_address e (c\<lparr>dhcp_server_identifier := v\<rparr>) = get_ip_address e c"
  "get_ip_address e (c\<lparr>cl_yiaddr := v\<rparr>) = get_ip_address e c"
  "get_ip_address e (c\<lparr>alarm_left := v\<rparr>) = get_ip_address e c"
  "get_ip_address e (c\<lparr>t1_time := v\<rparr>) = get_ip_address e c"
  "get_ip_address e (c\<lparr>t2_time := v\<rparr>) = get_ip_address e c"
  "get_ip_address e (new_xid e' c) = get_ip_address e c"
  "get_ip_address e (change_socket_setup_cl a b c) = get_ip_address e c"
  by (simp_all add: get_ip_address_def new_xid_def change_socket_setup_cl_def)

lemma client_opts_frame [simp]:
  "client_opts st ci (c\<lparr>cl_sent := s\<rparr>) = client_opts st ci c"
  "client_opts st ci (c\<lparr>inbox := i\<rparr>) = client_opts st ci c"
  by (simp_all add: client_opts_def)

lemma client_dgram_frame [simp]:
  "client_dgram e hw st (c\<lparr>cl_sent := s\<rparr>) = client_dgram e hw st c"
  "client_dgram e hw st (c\<lparr>inbox := i\<rparr>) = client_dgram e hw st c"
  by (simp_all add: client_dgram_def client_msg_def)

lemma client_dgram_cong:
  "cl_xid c = cl_xid c' \<Longrightarrow> dhcp_server_identifier c = dhcp_server_identifier c' \<Longrightarrow>
   cl_yiaddr c = cl_yiaddr c' \<Longrightarrow> if_addr c = if_addr c' \<Longrightarrow>
   client_dgram e hw st c = client_dgram e hw st c'"
  by (simp add: client_dgram_def client_msg_def client_opts_def get_ip_address_def)

section \<open>Acknowledgements\<close>

lemma receive_ack_answer:
  assumes "inbox c = map Some gs @ Some g # rest" "foreign (cl_xid c) gs (ack_stack e (calls c))"
    and "d = recv_dhcp (foldl recv_dhcp (ack_stack e (calls c)) gs) g" "for_us (cl_xid c) d"
    and "take_ack p (dhcp_server_identifier c) d = Inr (rc, d, sid)"
  shows "receive_ack e p c = Inr (rc, d, c\<lparr>dhcp_server_identifier := sid, inbox := rest\<rparr>)"
  using ack.accepts [OF assms(2), of g p rest "dhcp_server_identifier c"] assms(3-5)
  by (simp add: receive_ack_def assms(1))

lemma receive_ack_silence:
  assumes "inbox c = map Some gs" "foreign (cl_xid c) gs (ack_stack e (calls c))"
  shows "\<exists>d. receive_ack e p c = Inr (-1, d, c\<lparr>inbox := []\<rparr>)"
  using ack.skip [OF assms(2), of p "[]" "dhcp_server_identifier c"]
  by (simp add: receive_ack_def assms(1))

section \<open>Discovery\<close>

text \<open>The client when it has chosen its transaction id and the addresses of the exchange.\<close>

definition discovering :: "cl_env \<Rightarrow> client \<Rightarrow> client" where
  "discovering e c = change_socket_setup_cl INADDR_ANY INADDR_BROADCAST (new_xid e c)"

lemma discovering_simps [simp]:
  "cl_xid (discovering e c) = rand_of e (calls c)" "calls (discovering e c) = Suc (calls c)"
  "inbox (discovering e c) = inbox c" "cl_sent (discovering e c) = cl_sent c"
  "if_addr (discovering e c) = if_addr c" "cl_yiaddr (discovering e c) = cl_yiaddr c"
  "dhcp_server_identifier (discovering e c) = dhcp_server_identifier c"
  "kernel_calls (discovering e c) = kernel_calls c" "alarm_left (discovering e c) = alarm_left c"
  "get_ip_address e' (discovering e c) = get_ip_address e' c"
  "sin_addr (cl_server_addr (discovering e c)) = htonl INADDR_BROADCAST"
  by (simp_all add: discovering_def change_socket_setup_cl_def new_xid_def get_ip_address_def)

definition discover_dgram :: "cl_env \<Rightarrow> u8 list \<Rightarrow> client \<Rightarrow> u8 list" where
  "discover_dgram e hw c = client_dgram e hw DHCPDISCOVER (discovering e c)"

definition request_dgram :: "cl_env \<Rightarrow> u8 list \<Rightarrow> client \<Rightarrow> u32 \<Rightarrow> u32 \<Rightarrow> u8 list" where
  "request_dgram e hw c sid y =
     client_dgram e hw DHCPREQUEST ((discovering e c)\<lparr>dhcp_server_identifier := sid, cl_yiaddr := y\<rparr>)"

lemma dhcp_discover_offered:
  assumes hw: "hw_addr e = Some hw" "6 \<le> length hw"
    and "inbox c = map Some gs @ Some g # rest" "foreign (rand_of e (calls c)) gs (offer_stack e (Suc (calls c)))"
    and "d = recv_dhcp (foldl recv_dhcp (offer_stack e (Suc (calls c))) gs) g" "for_us (rand_of e (calls c)) d"
    and "addr_option d OPTION_DHCP_SERVER_IDENTIFIER sid"
  shows "\<exists>p. dhcp_discover e c = receive_ack e p ((discovering e c)\<lparr>
      inbox := rest, dhcp_server_identifier := sid, cl_yiaddr := yiaddr d,
      cl_sent := cl_sent c @
        [\<lparr>dest = cl_server_addr (discovering e c), payload = discover_dgram e hw c\<rparr>,
         \<lparr>dest = cl_server_addr (discovering e c), payload = request_dgram e hw c sid (yiaddr d)\<rparr>]\<rparr>)"
proof -
  obtain i where i: "take_offer d = Inr (Some (options d, i), sid, yiaddr d)"
    using take_offer_addr [OF assms(7)] by blast
  have w: "wait_offer (rand_of e (calls c)) (inbox c) (offer_stack e (Suc (calls c))) =
      Inr (Some (Some (options d, i), sid, yiaddr d), rest)"
    using offer.accepts [OF assms(4), of g rest] assms(5,6) i by (simp add: assms(3))
  have r: "client_dgram e hw DHCPREQUEST ((discovering e c)\<lparr>cl_sent := out, inbox := rest,
      dhcp_server_identifier := sid, cl_yiaddr := yiaddr d\<rparr>) = request_dgram e hw c sid (yiaddr d)" for out
    unfolding request_dgram_def by (rule client_dgram_cong) simp_all
  have "dhcp_discover e c = receive_ack e (Some (options d, i)) ((discovering e c)\<lparr>
      inbox := rest, dhcp_server_identifier := sid, cl_yiaddr := yiaddr d,
      cl_sent := cl_sent c @
        [\<lparr>dest = cl_server_addr (discovering e c), payload = discover_dgram e hw c\<rparr>,
         \<lparr>dest = cl_server_addr (discovering e c), payload = request_dgram e hw c sid (yiaddr d)\<rparr>]\<rparr>)"
    unfolding dhcp_discover_def Let_def discovering_def [symmetric]
    by (simp add: send_message_eq [OF hw] w discover_dgram_def r)
  then show ?thesis by blast
qed

lemma dhcp_discover_answered:
  assumes hw: "hw_addr e = Some hw" "6 \<le> length hw"
    and "inbox c = map Some gs @ Some g # map Some gs' @ Some g' # rest"
    and "foreign (rand_of e (calls c)) gs (offer_stack e (Suc (calls c)))"
    and "d = recv_dhcp (foldl recv_dhcp (offer_stack e (Suc (calls c))) gs) g" "for_us (rand_of e (calls c)) d"
    and "addr_option d OPTION_DHCP_SERVER_IDENTIFIER sid"
    and "foreign (rand_of e (calls c)) gs' (ack_stack e (Suc (calls c)))"
    and "d' = recv_dhcp (foldl recv_dhcp (ack_stack e (Suc (calls c))) gs') g'" "for_us (rand_of e (calls c)) d'"
    and "type_option d' m" "m \<noteq> DHCPNAK" "addr_option d' OPTION_DHCP_SERVER_IDENTIFIER sid'"
  shows "dhcp_discover e c = Inr (0, d', (discovering e c)\<lparr>
      cl_yiaddr := yiaddr d,
      cl_sent := cl_sent c @
        [\<lparr>dest = cl_server_addr (discovering e c), payload = discover_dgram e hw c\<rparr>,
         \<lparr>dest = cl_server_addr (discovering e c), payload = request_dgram e hw c sid (yiaddr d)\<rparr>],
      dhcp_server_identifier := sid', inbox := rest\<rparr>)"
proof -
  obtain p where p: "dhcp_discover e c = receive_ack e p ((discovering e c)\<lparr>
      inbox := map Some gs' @ Some g' # rest, dhcp_server_identifier := sid, cl_yiaddr := yiaddr d,
      cl_sent := cl_sent c @
        [\<lparr>dest = cl_server_addr (discovering e c), payload = discover_dgram e hw c\<rparr>,
         \<lparr>dest = cl_server_addr (discovering e c), payload = request_dgram e hw c sid (yiaddr d)\<rparr>]\<rparr>)"
    (is "_ = receive_ack e p ?c")
    using dhcp_discover_offered [OF hw assms(3-7)] by blast
  have "receive_ack e p ?c = Inr (0, d', ?c\<lparr>dhcp_server_identifier := sid', inbox := rest\<rparr>)"
    by (rule receive_ack_answer [where gs = gs' and g = g'])
      (use assms(8-10,12) take_ack_addr [OF assms(11,13)] in simp_all)
  then show ?thesis by (simp add: p)
qed

section \<open>The interface and the timers\<close>

lemma setup_interface_complete:
  assumes "\<forall>r. kernel_accepts e r" "addr_option d OPTION_SUBNET_MASK nm" "addr_option d OPTION_ROUTER gw"
  shows "setup_interface e d c = Inr (c\<lparr>if_addr := yiaddr d,
    kernel_calls := kernel_calls c @ [SIOCSIFADDR (yiaddr d), SIOCSIFNETMASK nm, SIOCADDRT gw]\<rparr>)"
  using assms by (auto simp: addr_option_def setup_interface_def do_ioctl_def Let_def lookup_option_def deref32_def)

lemma time_option_addr: "addr_option d ty v \<Longrightarrow> \<exists>p'. time_option d ty dflt p = Inr (ntohl v, p')"
  by (auto simp: addr_option_def time_option_def lookup_option_def deref32_def)

lemma time_option_absent:
  "get_dhcp_option (options d) ty = Inr OptAbsent \<Longrightarrow> time_option d ty dflt p = Inr (dflt, p)"
  by (simp add: time_option_def lookup_option_def)

lemma set_alarm_complete:
  assumes "addr_option d OPTION_IP_ADDRESS_LEASE_TIME v" "addr_option d OPTION_IP_T1_RENEWAL_TIME v1"
    "addr_option d OPTION_IP_T2_REBIND_TIME v2"
  shows "set_alarm d c = Inr (c\<lparr>lease_time := ntohl v, t1_time := ntohl v1, t2_time := ntohl v2,
    alarm_left := ntohl v1\<rparr>)"
proof -
  obtain i where i: "get_dhcp_option (options d) OPTION_IP_ADDRESS_LEASE_TIME = Inr (OptAt 4 i)"
    "load32 (options d) (Some i) = Inr v" using assms(1) by (auto simp: addr_option_def)
  obtain p1 where p1: "time_option d OPTION_IP_T1_RENEWAL_TIME (ntohl v div 2) (Some (options d, i)) = Inr (ntohl v1, p1)"
    using time_option_addr [OF assms(2)] by blast
  obtain p2 where p2: "time_option d OPTION_IP_T2_REBIND_TIME (ntohl v div 8 * 7) p1 = Inr (ntohl v2, p2)"
    using time_option_addr [OF assms(3)] by blast
  show ?thesis
    using i p1 p2 by (simp add: set_alarm_def lookup_option_def deref32_def Let_def)
qed

lemma release_address:
  "kernel_accepts e (SIOCSIFADDR 0) \<Longrightarrow> setup_interface_release e c =
     c\<lparr>if_addr := 0, kernel_calls := kernel_calls c @ [SIOCSIFADDR 0]\<rparr>"
  by (simp add: setup_interface_release_def do_ioctl_def)

end
