(* ===== verification/Client_Properties.thy ===== *)
theory Client_Properties
  imports Client_Runs
begin

text \<open>
  The properties of the client: what its messages say to a server, which answers its loops take,
  and the course of a lease through the alarms at T1, at T2 and at its end.
\<close>

section \<open>The phases of a lease\<close>

datatype phase = Bound | Renewing | Rebinding | Expired

definition phase_rank :: "phase \<Rightarrow> nat" where
  "phase_rank p = (case p of Bound \<Rightarrow> 0 | Renewing \<Rightarrow> 1 | Rebinding \<Rightarrow> 2 | Expired \<Rightarrow> 3)"

lemma phase_rank_inj: "phase_rank p = phase_rank q \<longleftrightarrow> p = q"
  by (cases p; cases q) (simp_all add: phase_rank_def)

instantiation phase :: linorder
begin

definition less_eq_phase :: "phase \<Rightarrow> phase \<Rightarrow> bool" where
  "less_eq_phase p q \<longleftrightarrow> phase_rank p \<le> phase_rank q"

definition less_phase :: "phase \<Rightarrow> phase \<Rightarrow> bool" where
  "less_phase p q \<longleftrightarrow> phase_rank p < phase_rank q"

instance
  by standard (auto simp: less_eq_phase_def less_phase_def phase_rank_inj)

end

definition client_phase :: "client \<Rightarrow> phase" where
  "client_phase c =
     (if if_addr c = 0 then Expired else if t1_time c \<noteq> 0 then Bound
      else if t2_time c \<noteq> 0 then Renewing else Rebinding)"

section \<open>Operations without an answer\<close>

lemma renew_silent:
  assumes hw: "hw_addr e = Some hw" "6 \<le> length hw" and "inbox c = []"
  defines "c1 \<equiv> change_socket_setup_cl (ntohl (get_ip_address e c)) (ntohl (dhcp_server_identifier c)) (new_xid e c)"
  shows "renew e c = Inr (c1\<lparr>cl_sent := cl_sent c @
    [\<lparr>dest = cl_server_addr c1, payload = client_dgram e hw DHCPREQUEST c1\<rparr>]\<rparr>)"
proof -
  have f: "inbox c1 = []" "cl_sent c1 = cl_sent c"
    using assms(3) by (simp_all add: c1_def change_socket_setup_cl_def new_xid_def)
  have id: "dhcp_server_identifier (new_xid e c) = dhcp_server_identifier c"
    by (simp add: new_xid_def)
  show ?thesis
    using f by (simp add: renew_def dhcp_renew_def Let_def id flip: c1_def)
      (simp add: send_message_eq [OF hw] receive_ack_def f)
qed

lemma rebind_silent:
  assumes hw: "hw_addr e = Some hw" "6 \<le> length hw" and "inbox c = []"
  defines "c1 \<equiv> change_socket_setup_cl (ntohl (get_ip_address e c)) INADDR_BROADCAST (new_xid e c)"
  shows "rebind e c = Inr (c1\<lparr>cl_sent := cl_sent c @
    [\<lparr>dest = cl_server_addr c1, payload = client_dgram e hw DHCPREQUEST c1\<rparr>]\<rparr>)"
proof -
  have f: "inbox c1 = []" "cl_sent c1 = cl_sent c"
    using assms(3) by (simp_all add: c1_def change_socket_setup_cl_def new_xid_def)
  show ?thesis
    using f by (simp add: rebind_def dhcp_rebind_def Let_def flip: c1_def)
      (simp add: send_message_eq [OF hw] receive_ack_def f)
qed

text \<open>The two alarms that ask the servers, when nobody answers.\<close>

lemma renewal_alarm_silent:
  assumes hw: "hw_addr e = Some hw" "6 \<le> length hw" and "inbox c = []" "t1_time c \<noteq> 0"
  shows "\<exists>c' g. alarm_fires e c = Inr c' \<and> cl_sent c' = cl_sent c @ [g] \<and>
    sin_addr (dest g) = dhcp_server_identifier c \<and> inbox c' = [] \<and> t1_time c' = 0 \<and>
    t2_time c' = t2_time c \<and> lease_time c' = lease_time c \<and> if_addr c' = if_addr c \<and>
    alarm_left c' = t2_time c - t1_time c \<and> kernel_calls c' = kernel_calls c"
  using assms(3,4)
  by (simp add: alarm_fires_def lease_time_out_def renew_silent [OF hw])
    (simp add: change_socket_setup_cl_def new_xid_def)

lemma rebinding_alarm_silent:
  assumes hw: "hw_addr e = Some hw" "6 \<le> length hw" and "inbox c = []" "t1_time c = 0" "t2_time c \<noteq> 0"
  shows "\<exists>c' g. alarm_fires e c = Inr c' \<and> cl_sent c' = cl_sent c @ [g] \<and>
    sin_addr (dest g) = htonl INADDR_BROADCAST \<and> inbox c' = [] \<and> t1_time c' = 0 \<and>
    t2_time c' = 0 \<and> lease_time c' = lease_time c \<and> if_addr c' = if_addr c \<and>
    alarm_left c' = lease_time c - t2_time c \<and> kernel_calls c' = kernel_calls c"
  using assms(3-5)
  by (simp add: alarm_fires_def lease_time_out_def rebind_silent [OF hw])
    (simp add: change_socket_setup_cl_def new_xid_def)

lemma final_alarm:
  assumes "t1_time c = 0" "t2_time c = 0" "kernel_accepts e (SIOCSIFADDR 0)"
  shows "alarm_fires e c = Inr (c\<lparr>alarm_left := 0, if_addr := 0, kernel_calls := kernel_calls c @ [SIOCSIFADDR 0]\<rparr>)"
  using assms by (simp add: alarm_fires_def lease_time_out_def release_address)

section \<open>Timers\<close>

text \<open>
  C13: A lease that nobody renews: the alarm at T1 asks the server of the lease, the one at T2 all
  servers, and the third one, at the end of the lease, gives the address up; the phases follow
  each other in order, and the three intervals add up to the lease time.
\<close>

theorem lease_timeline:
  assumes "hw_addr e = Some hw" "6 \<le> length hw" "inbox c = []" "kernel_accepts e (SIOCSIFADDR 0)"
    and "if_addr c \<noteq> 0" "0 < t1_time c" "t1_time c < t2_time c" "t2_time c < lease_time c"
    and "alarm_left c = t1_time c"
  shows "\<exists>c1 c2 c3 g1 g2. alarm_fires e c = Inr c1 \<and> alarm_fires e c1 = Inr c2 \<and> alarm_fires e c2 = Inr c3 \<and>
    cl_sent c3 = cl_sent c @ [g1, g2] \<and>
    sin_addr (dest g1) = dhcp_server_identifier c \<and> sin_addr (dest g2) = htonl INADDR_BROADCAST \<and>
    map client_phase [c, c1, c2, c3] = [Bound, Renewing, Rebinding, Expired] \<and>
    if_addr c2 = if_addr c \<and> if_addr c3 = 0 \<and> alarm_left c3 = 0 \<and>
    unat (alarm_left c) + unat (alarm_left c1) + unat (alarm_left c2) = unat (lease_time c)"
proof -
  have nz: "t1_time c \<noteq> 0" using assms(6) by auto
  obtain c1 g1 where 1: "alarm_fires e c = Inr c1" "cl_sent c1 = cl_sent c @ [g1]"
    "sin_addr (dest g1) = dhcp_server_identifier c" "inbox c1 = []" "t1_time c1 = 0"
    "t2_time c1 = t2_time c" "lease_time c1 = lease_time c" "if_addr c1 = if_addr c"
    "alarm_left c1 = t2_time c - t1_time c"
    using renewal_alarm_silent [OF assms(1-3) nz] by blast
  have nz2: "t2_time c1 \<noteq> 0" using 1(6) assms(6,7) by auto
  obtain c2 g2 where 2: "alarm_fires e c1 = Inr c2" "cl_sent c2 = cl_sent c1 @ [g2]"
    "sin_addr (dest g2) = htonl INADDR_BROADCAST" "t1_time c2 = 0" "t2_time c2 = 0"
    "if_addr c2 = if_addr c1" "alarm_left c2 = lease_time c1 - t2_time c1"
    using rebinding_alarm_silent [OF assms(1,2) 1(4,5) nz2] by blast
  have "unat (t1_time c) + unat (t2_time c - t1_time c) + unat (lease_time c - t2_time c) = unat (lease_time c)"
    using assms(7,8) by (simp add: unat_sub word_le_nat_alt word_less_nat_alt)
  with 1 2 final_alarm [OF 2(4,5) assms(4)] nz nz2 assms(5,9) show ?thesis
    by (simp add: client_phase_def)
qed

definition sample_cl_env :: cl_env where
  "sample_cl_env = \<lparr>rand_of = (\<lambda>n. 0x12345678), offer_stack = (\<lambda>n. zero_msg), ack_stack = (\<lambda>n. zero_msg),
     hw_addr = Some sample_mac, addr_readable = True, kernel_accepts = (\<lambda>r. True)\<rparr>"

definition sample_client :: "u32 \<Rightarrow> u32 \<Rightarrow> u32 \<Rightarrow> u32 \<Rightarrow> client" where
  "sample_client a t1 t2 lease = \<lparr>lease_time = lease, t1_time = t1, t2_time = t2, cl_xid = 0, cl_yiaddr = 0,
     dhcp_server_identifier = htonl DHCP_SERVER_IP_ADDRESS,
     cl_server_addr = \<lparr>sin_port = htons DHCP_SERVER_PORT, sin_addr = htonl INADDR_BROADCAST\<rparr>,
     cl_client_addr = \<lparr>sin_port = htons DHCP_CLIENT_PORT, sin_addr = 0\<rparr>,
     if_addr = a, kernel_calls = [], alarm_left = t1, cl_sent = [], inbox = [], calls = 0\<rparr>"

lemma sample_cl_env_simps [simp]:
  "hw_addr sample_cl_env = Some sample_mac" "kernel_accepts sample_cl_env r"
  "rand_of sample_cl_env n = 0x12345678" "offer_stack sample_cl_env n = zero_msg"
  "ack_stack sample_cl_env n = zero_msg" "addr_readable sample_cl_env"
  by (simp_all add: sample_cl_env_def)

theorem lease_timeline_witness:
  "\<exists>c1 c2 c3. alarm_fires sample_cl_env (sample_client (htonl 0xC0A80009) 16 28 32) = Inr c1 \<and>
     alarm_fires sample_cl_env c1 = Inr c2 \<and> alarm_fires sample_cl_env c2 = Inr c3 \<and>
     client_phase c3 = Expired"
  using lease_timeline [of sample_cl_env sample_mac "sample_client (htonl 0xC0A80009) 16 28 32"]
  by (fastforce simp: sample_client_def)

text \<open>
  C33: When the server sends a T2 that is not after T1, the alarm handler computes the next alarm
  with wrap-around; when the two are equal it cancels the alarm, so that without an answer to
  that one request the client keeps the address for ever.
\<close>

theorem bad_timers_disarm:
  assumes "hw_addr e = Some hw" "6 \<le> length hw" "inbox c = []" "t1_time c \<noteq> 0" "t2_time c \<le> t1_time c"
  shows "\<exists>c'. alarm_fires e c = Inr c' \<and> if_addr c' = if_addr c \<and> kernel_calls c' = kernel_calls c \<and>
    uint (alarm_left c') = (if t2_time c = t1_time c then 0
      else 2 ^ 32 + uint (t2_time c) - uint (t1_time c))"
proof -
  obtain c' where c': "alarm_fires e c = Inr c'" "if_addr c' = if_addr c" "kernel_calls c' = kernel_calls c"
    "alarm_left c' = t2_time c - t1_time c"
    using renewal_alarm_silent [OF assms(1-4)] by blast
  have "uint (t2_time c - t1_time c) = (if t2_time c = t1_time c then 0
      else 2 ^ 32 + uint (t2_time c) - uint (t1_time c))"
    using assms(5) by (auto simp: uint_sub_if' word_le_def word_uint_eq_iff)
  with c' show ?thesis by auto
qed

theorem bad_timers_disarm_witness:
  "\<exists>c'. alarm_fires sample_cl_env (sample_client (htonl 0xC0A80009) 20 20 32) = Inr c' \<and>
     alarm_left c' = 0 \<and> if_addr c' = htonl 0xC0A80009"
  using bad_timers_disarm [of sample_cl_env sample_mac "sample_client (htonl 0xC0A80009) 20 20 32"]
  by (auto simp: sample_client_def uint_0_iff)

section \<open>Messages and answers\<close>

text \<open>
  C18: What a server finds in its buffer when a message of the client arrives, whatever the buffer
  held: a BOOTP request of the wanted type with the client's transaction id, address and MAC; in
  a REQUEST and a RELEASE the identifier of the chosen server; and, while the client has no
  address, the last offered address as the requested one.
\<close>

theorem client_message_as_received:
  assumes "hw_addr e = Some hw" "6 \<le> length hw"
  shows "\<exists>c' g. send_message e st c = Inr c' \<and>
    cl_sent c' = cl_sent c @ [\<lparr>dest = cl_server_addr c, payload = g\<rparr>] \<and>
    (\<forall>buf. wf_dhcp buf \<longrightarrow> (let d = recv_dhcp buf g in
       message_type d = Some st \<and> xid d = htonl (cl_xid c) \<and> ciaddr d = get_ip_address e c \<and>
       chaddr d = take 6 hw @ replicate 10 0 \<and>
       (st \<in> {DHCPREQUEST, DHCPRELEASE} \<longrightarrow>
        addr_option d OPTION_DHCP_SERVER_IDENTIFIER (dhcp_server_identifier c)) \<and>
       (get_ip_address e c = 0 \<longrightarrow> addr_option d OPTION_REQUESTED_IP (cl_yiaddr c))))"
proof -
  have "let d = recv_dhcp buf (client_dgram e hw st c) in
       message_type d = Some st \<and> xid d = htonl (cl_xid c) \<and> ciaddr d = get_ip_address e c \<and>
       chaddr d = take 6 hw @ replicate 10 0 \<and>
       (st \<in> {DHCPREQUEST, DHCPRELEASE} \<longrightarrow>
        addr_option d OPTION_DHCP_SERVER_IDENTIFIER (dhcp_server_identifier c)) \<and>
       (get_ip_address e c = 0 \<longrightarrow> addr_option d OPTION_REQUESTED_IP (cl_yiaddr c))"
    if "wf_dhcp buf" for buf
    using recv_client_fields(3-6) [OF that assms(2) refl, of e st c]
      recv_client_server [OF that assms(2), of st e c] recv_client_requested [OF that assms(2), of e c st]
    by (auto simp: Let_def)
  with send_message_eq [OF assms, of st c] show ?thesis by simp
qed

theorem client_message_as_received_witness:
  "\<exists>c' g. send_message sample_cl_env DHCPREQUEST (sample_client 0 0 0 0) = Inr c' \<and>
     payload (last (cl_sent c')) = g \<and> message_type (recv_dhcp zero_msg g) = Some DHCPREQUEST"
  using client_message_as_received [of sample_cl_env sample_mac DHCPREQUEST "sample_client 0 0 0 0"]
    wf_zero_msg by (fastforce simp: Let_def)

text \<open>
  C16: The loop that waits for the answer, on every sequence of arrivals: either all that comes
  before the first time-out, or before the silence at the end, are no replies to this exchange,
  and it gives up with the server identifier unchanged; or there is a first reply, and it stops
  there: a refusal is reported as such and the identifier kept, and any other type that comes
  with a server identifier counts as an acknowledgement. What arrives later is left alone.
\<close>

theorem wait_ack_outcome:
  "(\<exists>gs. ins = map Some gs \<and> foreign x gs buf \<and>
      wait_ack x p ins buf sid = Inr (-1, foldl recv_dhcp buf gs, sid, [])) \<or>
   (\<exists>gs rest. ins = map Some gs @ None # rest \<and> foreign x gs buf \<and>
      wait_ack x p ins buf sid = Inr (-1, foldl recv_dhcp buf gs, sid, rest)) \<or>
   (\<exists>gs g rest d. ins = map Some gs @ Some g # rest \<and> foreign x gs buf \<and>
      d = recv_dhcp (foldl recv_dhcp buf gs) g \<and> for_us x d \<and>
      (type_option d DHCPNAK \<longrightarrow> wait_ack x p ins buf sid = Inr (1, d, sid, rest)) \<and>
      (\<forall>m s. m \<noteq> DHCPNAK \<longrightarrow> type_option d m \<longrightarrow> addr_option d OPTION_DHCP_SERVER_IDENTIFIER s \<longrightarrow>
         wait_ack x p ins buf sid = Inr (0, d, s, rest)))"
proof (cases rule: ack.outcome [of ins x buf p sid])
  case (answer gs g rest)
  let ?d = "recv_dhcp (foldl recv_dhcp buf gs) g"
  have "type_option ?d DHCPNAK \<longrightarrow> wait_ack x p ins buf sid = Inr (1, ?d, sid, rest)"
    using answer(4) by (simp add: take_ack_nak)
  moreover have "\<forall>m s. m \<noteq> DHCPNAK \<longrightarrow> type_option ?d m \<longrightarrow> addr_option ?d OPTION_DHCP_SERVER_IDENTIFIER s \<longrightarrow>
      wait_ack x p ins buf sid = Inr (0, ?d, s, rest)"
    using answer(4) by (simp add: take_ack_addr)
  ultimately show ?thesis using answer(1-3) by blast
qed blast+

text \<open>A refusal of the server, for a client that waits with the same transaction id.\<close>

theorem wait_ack_outcome_witness:
  "let g = reply_dgram DHCPNAK True 0 (zero_msg\<lparr>xid := htonl 7\<rparr>)
   in wait_ack 7 None [Some g] zero_msg 9 = Inr (1, recv_dhcp zero_msg g, 9, [])"
proof -
  let ?d = "zero_msg\<lparr>xid := htonl 7\<rparr>"
  let ?g = "reply_dgram DHCPNAK True 0 ?d"
  have wf: "wf_dhcp ?d" using wf_zero_msg by (simp add: wf_dhcp_def)
  note f = recv_reply_fields [OF wf_zero_msg wf refl, of DHCPNAK True 0]
  have us: "for_us 7 (recv_dhcp zero_msg ?g)" using f(1,2) by (simp add: for_us_def)
  show ?thesis
    using wait_ack_outcome [of "[Some ?g]" 7 zero_msg None 9] us f(8)
    by (auto simp: Let_def Cons_eq_append_conv Cons_eq_map_conv)
qed

text \<open>
  C26: \<open>release\<close> tells the server of the lease, by one datagram to it that names the address, stops
  the timer and gives the address up.
\<close>

theorem release_gives_up:
  assumes "hw_addr e = Some hw" "6 \<le> length hw" "addr_readable e" "kernel_accepts e (SIOCSIFADDR 0)"
  shows "\<exists>c' g. release e c = Inr c' \<and> cl_sent c' = cl_sent c @ [g] \<and>
    sin_addr (dest g) = dhcp_server_identifier c \<and> if_addr c' = 0 \<and> alarm_left c' = 0 \<and>
    (\<forall>buf. wf_dhcp buf \<longrightarrow> (let d = recv_dhcp buf (payload g) in
       message_type d = Some DHCPRELEASE \<and> ciaddr d = if_addr c \<and>
       addr_option d OPTION_DHCP_SERVER_IDENTIFIER (dhcp_server_identifier c)))"
proof -
  define c1 where "c1 = new_xid e (c\<lparr>alarm_left := 0\<rparr>)"
  define c2 where "c2 = change_socket_setup_cl (ntohl (get_ip_address e c1)) (ntohl (dhcp_server_identifier c1)) c1"
  let ?g = "client_dgram e hw DHCPRELEASE c2"
  have f: "get_ip_address e c2 = if_addr c" "dhcp_server_identifier c2 = dhcp_server_identifier c"
    "cl_sent c2 = cl_sent c" "alarm_left c2 = 0" "sin_addr (cl_server_addr c2) = dhcp_server_identifier c"
    using assms(3) by (simp_all add: get_ip_address_def change_socket_setup_cl_def new_xid_def c1_def c2_def)
  have "release e c = Inr (setup_interface_release e (c2\<lparr>cl_sent := cl_sent c2 @
      [\<lparr>dest = cl_server_addr c2, payload = ?g\<rparr>]\<rparr>))"
    by (simp add: release_def dhcp_release_def Let_def send_message_eq [OF assms(1,2)] flip: c1_def c2_def)
  with f show ?thesis
    using recv_client_fields(4,6) [OF _ assms(2) refl, of _ e DHCPRELEASE c2]
      recv_client_server [OF _ assms(2), of _ DHCPRELEASE e c2]
    by (simp add: release_address [OF assms(4)] Let_def)
qed

theorem release_gives_up_witness:
  "\<exists>c'. release sample_cl_env (sample_client (htonl 0xC0A80009) 16 28 32) = Inr c' \<and> if_addr c' = 0"
  using release_gives_up [of sample_cl_env sample_mac "sample_client (htonl 0xC0A80009) 16 28 32"]
  by auto

end
