(* ===== verification/Exchange.thy ===== *)
theory Exchange
  imports Server_Properties Client_Properties
begin

text \<open>
  The client against the server: the four messages of a discovery, each handed from one program to
  the other as the datagram that was sent.
\<close>

text \<open>The offer to a DISCOVER that names an address, whatever else is in the server's buffer.\<close>

lemma later_may_use:
  assumes "may_use m t a mac" "t \<le> now"
  shows "may_use m now a mac"
  using assms by (auto simp: may_use_def split: option.splits)

lemma allocated_may_use:
  assumes "allocate_ip t now rs mac = Inr (rc, Some a, t')" "lease_inv t" "pool_table t"
  shows "may_use (lease_map t') now' a mac \<and> lease_inv t' \<and> 0 \<le> rc"
  using allocate_ip_cases [OF assms(1,2)] assms(3) allocate_ip_inv [OF assms(1,2)]
  by (elim disjE exE conjE) (auto simp: may_use_def pool_table_def domIff split: option.splits)

lemma offer_address:
  assumes "lease_inv (table s)" "pool_table (table s)" "covers_pool (rnd e)"
    and "addr_option (dhcp_recv s) OPTION_REQUESTED_IP ip"
    and "mac_known (table s) (chaddr (dhcp_recv s)) \<or> length (leases (table s)) < IP_ADDRESS_POOL_AMOUNT"
  obtains t y where "set_yiaddr_srv e DHCPOFFER s =
      Inr (True, s\<lparr>table := t, dhcp_recv := (dhcp_recv s)\<lparr>yiaddr := y\<rparr>\<rparr>)"
    "lease_inv t" "may_use (lease_map t) (t_check e) (ntohl y) (chaddr (dhcp_recv s))"
    "dom (lease_map t) = dom (lease_map (table s))"
proof (cases "may_use (lease_map (table s)) (t_check e) (ntohl ip) (chaddr (dhcp_recv s))")
  case True
  then show ?thesis
    using that [where t = "table s" and y = ip] requested_ip_ok_addr [OF assms(4), of "t_check e"] assms(1)
    by (simp add: set_yiaddr_srv_def)
next
  case False
  obtain rc a t where al: "allocate_ip (table s) (t_lease e) (rnd e) (chaddr (dhcp_recv s)) = Inr (rc, Some a, t)"
    using allocate_total [OF assms(1,3), of "chaddr (dhcp_recv s)" "t_lease e"] assms(5) by fastforce
  from allocated_may_use [OF al assms(1,2), of "t_check e"] allocate_ip_dom [OF al assms(1)] False al
    requested_ip_ok_addr [OF assms(4), of "t_check e"] show ?thesis
    using that [where t = t and y = "htonl a"] by (simp add: set_yiaddr_srv_def Let_def)
qed

lemma discover_offers:
  assumes "srv_inv s" "pool_table (table s)" "message_type (dhcp_recv s) = Some DHCPDISCOVER"
    and "addr_option (dhcp_recv s) OPTION_REQUESTED_IP ip" "covers_pool (rnd e)"
    and "mac_known (table s) (chaddr (dhcp_recv s)) \<or> length (leases (table s)) < IP_ADDRESS_POOL_AMOUNT"
  obtains s' p w y where "dispatch e s = Inr s'" "sent s' = sent s @ [p]"
    "payload p = reply_dgram DHCPOFFER w y (dhcp_recv s)" "wf_dhcp (dhcp_recv s')" "lease_inv (table s')"
    "may_use (lease_map (table s')) (t_check e) (ntohl y) (chaddr (dhcp_recv s))"
    "dom (lease_map (table s')) = dom (lease_map (table s))"
proof -
  let ?s0 = "change_socket_setup_srv INADDR_ANY INADDR_BROADCAST s"
  obtain s1 where s1: "unicast_setup (t_unicast e) ?s0 = Inr s1" "table s1 = table s"
    "dhcp_recv s1 = dhcp_recv s" "sent s1 = sent s"
    by (rule unicast_setup_returns [of "t_unicast e" ?s0]) (use requested_ip_ok_addr assms(4) in auto)
  have wf: "wf_dhcp (dhcp_recv s1)" "message_type (dhcp_recv s1) = Some DHCPDISCOVER"
    using assms(1,3) s1 by (simp_all add: srv_inv_def)
  let ?s2 = "s1\<lparr>dhcp_recv := (dhcp_recv s1)\<lparr>opcode := BOOTP_MESSAGE_TYPE_REPLY\<rparr>\<rparr>"
  obtain t y where y: "set_yiaddr_srv e DHCPOFFER ?s2 = Inr (True, s1\<lparr>table := t,
      dhcp_recv := (dhcp_recv s1)\<lparr>opcode := BOOTP_MESSAGE_TYPE_REPLY, yiaddr := y\<rparr>\<rparr>)"
      "lease_inv t" "may_use (lease_map t) (t_check e) (ntohl y) (chaddr (dhcp_recv s))"
      "dom (lease_map t) = dom (lease_map (table s))"
    by (rule offer_address [of ?s2 e ip]) (use assms s1 in \<open>auto simp: srv_inv_def addr_option_def\<close>)
  obtain n s3 w where c: "construct_dhcp_packet_srv e DHCPOFFER s1 = Inr (n, s3)"
    "sent (send_reply n s3) = sent s1 @
       [\<lparr>dest = dhcp_client_addr s1, payload = reply_dgram DHCPOFFER w y (dhcp_recv s1)\<rparr>]"
    "table s3 = t" "dhcp_recv s3 = reply_msg DHCPOFFER w y (dhcp_recv s1)"
    by (rule construct_sends [OF y(1) wf]) blast
  have d: "dispatch e s = Inr (send_reply n s3)"
    by (simp add: dispatch_eq [OF assms(3)] dhcp_handle_discover_def s1(1) c(1))
  show thesis
    by (rule that [OF d]) (use c s1 y wf wf_reply_msg in \<open>auto simp del: send_reply_frame(3)\<close>)
qed

text \<open>The acknowledgement of a request for an address the client may use.\<close>

lemma request_acknowledged:
  assumes "srv_inv s" "message_type (dhcp_recv s) = Some DHCPREQUEST"
    and "addr_option (dhcp_recv s) OPTION_DHCP_SERVER_IDENTIFIER (htonl DHCP_SERVER_IP_ADDRESS)"
    and "ciaddr (dhcp_recv s) = 0" "addr_option (dhcp_recv s) OPTION_REQUESTED_IP ip"
    and "may_use (lease_map (table s)) (t_check e) (ntohl ip) (chaddr (dhcp_recv s))"
    and "options (dhcp_recv s) = OPTION_DHCP_MESSAGE_TYPE # 1 # DHCPREQUEST # rest"
  obtains s' p where "dispatch e s = Inr s'" "sent s' = sent s @ [p]"
    "payload p = reply_dgram DHCPACK True ip (dhcp_recv s)"
    "lease_map (table s') = grant_map (lease_map (table s)) (t_lease e) (ntohl ip) (chaddr (dhcp_recv s))"
proof -
  obtain s1 where s1: "table s1 = table s" "dhcp_recv s1 = dhcp_recv s" "sent s1 = sent s"
    "dhcp_handle_request e s = bind_res (construct_dhcp_packet_srv e DHCPACK s1) (\<lambda>(n, s2). Inr (send_reply n s2))"
    using selecting_returns [OF assms(3-5), of e] assms(6) by auto
  have wf: "wf_dhcp (dhcp_recv s1)" "message_type (dhcp_recv s1) = Some DHCPREQUEST"
    using assms(1,2) s1 by (simp_all add: srv_inv_def)
  let ?t = "add_lease (table s) (t_lease e) ip (chaddr (dhcp_recv s))"
  have y: "set_yiaddr_srv e DHCPACK (s1\<lparr>dhcp_recv := (dhcp_recv s1)\<lparr>opcode := BOOTP_MESSAGE_TYPE_REPLY\<rparr>\<rparr>) =
      Inr (True, s1\<lparr>table := ?t,
        dhcp_recv := (dhcp_recv s1)\<lparr>opcode := BOOTP_MESSAGE_TYPE_REPLY, yiaddr := ip\<rparr>\<rparr>)"
    using assms(4,5) s1 by (auto simp: set_yiaddr_srv_def addr_option_def)
  obtain n s2 w where c: "construct_dhcp_packet_srv e DHCPACK s1 = Inr (n, s2)"
    "sent (send_reply n s2) = sent s1 @
       [\<lparr>dest = dhcp_client_addr s1, payload = reply_dgram DHCPACK w ip (dhcp_recv s1)\<rparr>]" "table s2 = ?t"
    and "\<exists>r m. get_dhcp_option (options (dhcp_recv s1)) OPTION_DHCP_MESSAGE_TYPE = Inr r \<and>
         load8 (enc_opts (reply_head DHCPACK @ reply_net) @ drop 39 (options (dhcp_recv s1))) (opt_set r None) = Inr m \<and>
         w = (m \<noteq> DHCPINFORM)"
    by (rule construct_sends [OF y wf]) simp
  then have w: "w = True" using type_read_after_write [OF assms(7), of _ DHCPACK] s1 by fastforce
  have d: "dispatch e s = Inr (send_reply n s2)"
    by (simp add: dispatch_eq [OF assms(2)] s1 c)
  have inv: "lease_inv (table s)" using assms(1) by (simp add: srv_inv_def)
  show thesis
    by (rule that [OF d]) (use c s1 w add_lease_map [OF inv] in \<open>auto simp del: send_reply_frame(3)\<close>)
qed

section \<open>The client's side\<close>

text \<open>A reply of the server, in the client's receive buffer.\<close>

lemma reply_for_client:
  assumes "wf_dhcp buf" "wf_dhcp d" "xid d = htonl x" "r = recv_dhcp buf (reply_dgram st w y d)"
  shows "for_us x r" "type_option r st" "yiaddr r = y"
    "addr_option r OPTION_DHCP_SERVER_IDENTIFIER (htonl DHCP_SERVER_IP_ADDRESS)"
  using recv_reply_fields [OF assms(1,2,4)] assms(3)
    recv_reply_addr [OF assms(1,2) map_of_reply_options(2), of st w y]
  by (simp_all add: for_us_def assms(4))

text \<open>\<open>discover\<close> on an offer and an acknowledgement of the server.\<close>

lemma discover_configures:
  assumes hw: "hw_addr ce = Some hw" "6 \<le> length hw"
    and "get_ip_address ce c = 0" "\<forall>r. kernel_accepts ce r"
    and "\<forall>n. wf_dhcp (offer_stack ce n)" "\<forall>n. wf_dhcp (ack_stack ce n)"
    and "wf_dhcp d1" "xid d1 = htonl (rand_of ce (calls c))"
    and "wf_dhcp d2" "xid d2 = htonl (rand_of ce (calls c))"
    and "inbox c = Some (reply_dgram DHCPOFFER w y d1) # Some (reply_dgram DHCPACK True y' d2) # rest"
  shows "\<exists>c'. discover ce c = Inr c' \<and>
    map payload (cl_sent c') = map payload (cl_sent c) @
      [discover_dgram ce hw c, request_dgram ce hw c (htonl DHCP_SERVER_IP_ADDRESS) y] \<and>
    if_addr c' = y' \<and> inbox c' = rest \<and> dhcp_server_identifier c' = htonl DHCP_SERVER_IP_ADDRESS \<and>
    lease_time c' = 32 \<and> t1_time c' = 16 \<and> t2_time c' = 28 \<and> alarm_left c' = 16"
proof -
  let ?ob = "offer_stack ce (Suc (calls c))" and ?ab = "ack_stack ce (Suc (calls c))"
  define r1 where "r1 = recv_dhcp ?ob (reply_dgram DHCPOFFER w y d1)"
  define r2 where "r2 = recv_dhcp ?ab (reply_dgram DHCPACK True y' d2)"
  have 1: "for_us (rand_of ce (calls c)) r1" "yiaddr r1 = y"
    "addr_option r1 OPTION_DHCP_SERVER_IDENTIFIER (htonl DHCP_SERVER_IP_ADDRESS)"
    using reply_for_client [OF assms(5) [rule_format] assms(7,8) r1_def] by simp_all
  have 2: "for_us (rand_of ce (calls c)) r2" "type_option r2 DHCPACK" "yiaddr r2 = y'"
    "addr_option r2 OPTION_DHCP_SERVER_IDENTIFIER (htonl DHCP_SERVER_IP_ADDRESS)"
    using reply_for_client [OF assms(6) [rule_format] assms(9,10) r2_def] by simp_all
  note ra = recv_reply_addr [OF assms(6) [rule_format] assms(9), of DHCPACK True _ _ "Suc (calls c)" y', folded r2_def]
  have 3: "addr_option r2 OPTION_SUBNET_MASK (htonl SUBNET_MASK)" "addr_option r2 OPTION_ROUTER (htonl ROUTER_IP_ADDRESS)"
    "addr_option r2 OPTION_IP_ADDRESS_LEASE_TIME (htonl IP_ADDRESS_LEASE_TIME)"
    "addr_option r2 OPTION_IP_T1_RENEWAL_TIME (htonl T1_RENEWAL_TIME)"
    "addr_option r2 OPTION_IP_T2_REBIND_TIME (htonl T2_REBIND_TIME)"
    by (rule ra; simp add: map_of_reply_options)+
  obtain c1 where c1: "dhcp_discover ce c = Inr (0, r2, c1)"
    "map payload (cl_sent c1) = map payload (cl_sent c) @
      [discover_dgram ce hw c, request_dgram ce hw c (htonl DHCP_SERVER_IP_ADDRESS) y]"
    "inbox c1 = rest" "dhcp_server_identifier c1 = htonl DHCP_SERVER_IP_ADDRESS"
    using dhcp_discover_answered [OF hw, of c "[]" _ "[]" _ rest r1 "htonl DHCP_SERVER_IP_ADDRESS" r2 DHCPACK
        "htonl DHCP_SERVER_IP_ADDRESS"] 1 2 assms(11)
    by (simp add: r1_def [symmetric] r2_def [symmetric])
  show ?thesis
    by (simp add: discover_def assms(3) c1(1) setup_interface_complete [OF assms(4) 3(1,2)]
        set_alarm_complete [OF 3(3-5)] c1(2-4) 2(3) del: T1_T2_values)
      simp
qed

lemma exchange_dgram_inbox [simp]:
  "discover_dgram ce hw (c\<lparr>inbox := i\<rparr>) = discover_dgram ce hw c"
  "request_dgram ce hw (c\<lparr>inbox := i\<rparr>) sid y = request_dgram ce hw c sid y"
  unfolding discover_dgram_def request_dgram_def
  by (rule client_dgram_cong; simp)+

text \<open>What the server finds in its buffer of the two messages.\<close>

lemma discover_received_at:
  assumes "wf_dhcp buf" "6 \<le> length hw" "get_ip_address ce c = 0"
    "d = recv_dhcp buf (discover_dgram ce hw c)"
  shows "wf_dhcp d" "message_type d = Some DHCPDISCOVER" "xid d = htonl (rand_of ce (calls c))"
    "chaddr d = take 6 hw @ replicate 10 0" "addr_option d OPTION_REQUESTED_IP (cl_yiaddr c)"
  using recv_client_fields(1,3,5,6) [OF assms(1,2) assms(4) [unfolded discover_dgram_def]]
    recv_client_requested [OF assms(1,2), of ce "discovering ce c" DHCPDISCOVER]
  by (simp_all add: assms(3,4) discover_dgram_def)

lemma request_received_at:
  assumes "wf_dhcp buf" "6 \<le> length hw" "get_ip_address ce c = 0"
    "d = recv_dhcp buf (request_dgram ce hw c sid y)"
  shows "wf_dhcp d" "message_type d = Some DHCPREQUEST" "xid d = htonl (rand_of ce (calls c))"
    "ciaddr d = 0" "chaddr d = take 6 hw @ replicate 10 0" "addr_option d OPTION_REQUESTED_IP y"
    "addr_option d OPTION_DHCP_SERVER_IDENTIFIER sid"
    "\<exists>rest. options d = OPTION_DHCP_MESSAGE_TYPE # 1 # DHCPREQUEST # rest"
  using recv_client_fields [OF assms(1,2) assms(4) [unfolded request_dgram_def]]
    recv_client_requested [OF assms(1,2), of ce "(discovering ce c)\<lparr>dhcp_server_identifier := sid, cl_yiaddr := y\<rparr>" DHCPREQUEST]
    recv_client_server [OF assms(1,2), of DHCPREQUEST ce "(discovering ce c)\<lparr>dhcp_server_identifier := sid, cl_yiaddr := y\<rparr>"]
  by (simp_all add: assms(3,4) request_dgram_def)

lemma mac_known_padded: "6 \<le> length hw \<Longrightarrow> mac_known t (take 6 hw @ replicate 10 0) = mac_known t hw"
  by (simp add: mac_known_def same_mac_def min_absorb2)

section \<open>The server's side of a discovery\<close>

text \<open>A REQUEST of a client without an address, for an address it may use, is acknowledged.\<close>

lemma request_step:
  assumes "wf_dhcp (dhcp_recv s)" "lease_inv (table s)" "6 \<le> length hw" "get_ip_address ce c = 0"
    and "may_use (lease_map (table s)) (t_check e) (ntohl y) hw"
  obtains s' p d where
    "server_step e (Some (request_dgram ce hw c (htonl DHCP_SERVER_IP_ADDRESS) y)) s = Inr s'"
    "sent s' = sent s @ [p]" "payload p = reply_dgram DHCPACK True y d"
    "wf_dhcp d" "xid d = htonl (rand_of ce (calls c))" "chaddr d = take 6 hw @ replicate 10 0"
    "lease_map (table s') = grant_map (lease_map (table s)) (t_lease e) (ntohl y) hw"
    "wf_dhcp (dhcp_recv s')" "lease_inv (table s')"
proof -
  define d where "d = recv_dhcp (dhcp_recv s) (request_dgram ce hw c (htonl DHCP_SERVER_IP_ADDRESS) y)"
  let ?s = "(change_socket_setup_srv INADDR_ANY INADDR_BROADCAST s)\<lparr>dhcp_recv := d\<rparr>"
  note r = request_received_at [OF assms(1,3,4) d_def]
  have mac: "may_use m now a (take 6 hw @ replicate 10 0) = may_use m now a hw"
    "grant_map m now a (take 6 hw @ replicate 10 0) = grant_map m now a hw" for m now a
    using assms(3) by (auto simp: may_use_def grant_map_def same_mac_def min_absorb2 split: option.splits)
  obtain rest where first: "options d = OPTION_DHCP_MESSAGE_TYPE # 1 # DHCPREQUEST # rest" using r(8) by blast
  obtain s' p where a: "dispatch e ?s = Inr s'" "sent s' = sent ?s @ [p]"
    "payload p = reply_dgram DHCPACK True y (dhcp_recv ?s)"
    "lease_map (table s') = grant_map (lease_map (table ?s)) (t_lease e) (ntohl y) (chaddr (dhcp_recv ?s))"
    by (rule request_acknowledged [of ?s y e rest])
      (use r assms(2,5) first mac in \<open>simp_all add: srv_inv_def\<close>)
  have step: "server_step e (Some (request_dgram ce hw c (htonl DHCP_SERVER_IP_ADDRESS) y)) s = Inr s'"
    using a(1) by (simp add: server_step_def Let_def d_def)
  have inv: "srv_inv s'" using server_step_inv [OF step] assms(1,2) by (simp add: srv_inv_def)
  show thesis
    by (rule that [OF step]) (use a r inv mac in \<open>simp_all add: srv_inv_def\<close>)
qed

text \<open>
  The two messages of a client, as the server's loop receives them one after the other: an offer
  of an address that the client may use, and its lease.
\<close>

lemma server_exchange:
  assumes "wf_dhcp (dhcp_recv s)" "lease_inv (table s)" "\<forall>a \<in> dom (lease_map (table s)). in_pool a"
    and "covers_pool (rnd e1)" "t_check e1 \<le> t_check e2"
    and "mac_known (table s) hw \<or> length (leases (table s)) < IP_ADDRESS_POOL_AMOUNT"
    and "6 \<le> length hw" "get_ip_address ce c = 0"
  obtains s1 s2 p1 p2 d1 d2 w y m where
    "server_step e1 (Some (discover_dgram ce hw c)) s = Inr s1" "sent s1 = sent s @ [p1]"
    "payload p1 = reply_dgram DHCPOFFER w y d1"
    "server_step e2 (Some (request_dgram ce hw c (htonl DHCP_SERVER_IP_ADDRESS) y)) s1 = Inr s2"
    "sent s2 = sent s1 @ [p2]" "payload p2 = reply_dgram DHCPACK True y d2"
    "wf_dhcp d1" "xid d1 = htonl (rand_of ce (calls c))" "wf_dhcp d2" "xid d2 = htonl (rand_of ce (calls c))"
    "in_pool (ntohl y)" "lease_map (table s2) (ntohl y) = Some (m, t_lease e2)"
    "ntohl y \<notin> dom (lease_map (table s)) \<longrightarrow> m = take 6 hw"
proof -
  let ?in = "change_socket_setup_srv INADDR_ANY INADDR_BROADCAST"
  define d1 where "d1 = recv_dhcp (dhcp_recv s) (discover_dgram ce hw c)"
  let ?s = "(?in s)\<lparr>dhcp_recv := d1\<rparr>"
  note r1 = discover_received_at [OF assms(1,7,8) d1_def]
  obtain s1 p1 w y where o: "dispatch e1 ?s = Inr s1" "sent s1 = sent ?s @ [p1]"
    "payload p1 = reply_dgram DHCPOFFER w y (dhcp_recv ?s)" "wf_dhcp (dhcp_recv s1)" "lease_inv (table s1)"
    "may_use (lease_map (table s1)) (t_check e1) (ntohl y) (chaddr (dhcp_recv ?s))"
    "dom (lease_map (table s1)) = dom (lease_map (table ?s))"
    by (rule discover_offers [of ?s "cl_yiaddr c" e1])
      (use assms(2-4,6) r1 mac_known_padded [OF assms(7)] in \<open>auto simp: srv_inv_def pool_table_def\<close>)
  have use: "may_use (lease_map (table s1)) (t_check e2) (ntohl y) hw"
    using later_may_use [OF o(6) assms(5)] r1(4) assms(7)
    by (auto simp: may_use_def same_mac_def min_absorb2 split: option.splits)
  obtain s2 p2 d2 where a: "server_step e2 (Some (request_dgram ce hw c (htonl DHCP_SERVER_IP_ADDRESS) y)) s1 = Inr s2"
    "sent s2 = sent s1 @ [p2]" "payload p2 = reply_dgram DHCPACK True y d2"
    "wf_dhcp d2" "xid d2 = htonl (rand_of ce (calls c))"
    "lease_map (table s2) = grant_map (lease_map (table s1)) (t_lease e2) (ntohl y) hw"
    by (rule request_step [OF o(4,5) assms(7,8) use])
  obtain m where m: "lease_map (table s2) (ntohl y) = Some (m, t_lease e2)"
    "ntohl y \<notin> dom (lease_map (table s1)) \<longrightarrow> m = take 6 hw"
    using a(6) by (cases "lease_map (table s1) (ntohl y)") (auto simp: grant_map_def domIff)
  show thesis
    by (rule that [of s1 p1 w y d1 s2 p2 d2 m])
      (use o a r1 m use in \<open>simp_all add: server_step_def Let_def d1_def may_use_def\<close>)
qed

end
