(* ===== verification/Two_Clients.thy ===== *)
theory Two_Clients
  imports Exchange
begin

text \<open>
  Two clients and one server: both have been offered the same address, which the server does not
  reserve, and both request it, with any other traffic in between.
\<close>

section \<open>A refused request\<close>

lemma may_use_padded:
  assumes "6 \<le> length hw"
  shows "may_use m now a (take 6 hw @ replicate 10 0) = may_use m now a hw"
  using assms by (auto simp: may_use_def same_mac_def min_absorb2 split: option.splits)

text \<open>A REQUEST of a client without an address, for an address it may not use.\<close>

lemma request_refused:
  assumes "wf_dhcp (dhcp_recv s)" "lease_inv (table s)" "6 \<le> length hw" "get_ip_address ce c = 0"
    and "\<not> may_use (lease_map (table s)) (t_check e) (ntohl y) hw"
  obtains s' p w d where
    "server_step e (Some (request_dgram ce hw c (htonl DHCP_SERVER_IP_ADDRESS) y)) s = Inr s'"
    "sent s' = sent s @ [p]" "payload p = reply_dgram DHCPNAK w 0 d" "table s' = table s"
    "wf_dhcp d" "xid d = htonl (rand_of ce (calls c))" "chaddr d = take 6 hw @ replicate 10 0"
proof -
  define d where "d = recv_dhcp (dhcp_recv s) (request_dgram ce hw c (htonl DHCP_SERVER_IP_ADDRESS) y)"
  let ?s = "(change_socket_setup_srv INADDR_ANY INADDR_BROADCAST s)\<lparr>dhcp_recv := d\<rparr>"
  note r = request_received_at [OF assms(1,3,4) d_def]
  obtain s1 where s1: "table s1 = table ?s" "dhcp_recv s1 = dhcp_recv ?s" "sent s1 = sent ?s"
    "dhcp_handle_request e ?s = bind_res (construct_dhcp_packet_srv e DHCPNAK s1) (\<lambda>(n, s2). Inr (send_reply n s2))"
    by (rule selecting_returns [of ?s y e])
      (use r(4-7) assms(5) may_use_padded [OF assms(3)] in auto)
  obtain n s2 w where c: "construct_dhcp_packet_srv e DHCPNAK s1 = Inr (n, s2)"
    "sent (send_reply n s2) = sent s1 @ [\<lparr>dest = dhcp_client_addr s1, payload = reply_dgram DHCPNAK w 0 (dhcp_recv s1)\<rparr>]"
    "table s2 = table s1"
    by (rule nak_sends [of s1 DHCPREQUEST e]) (use r(1,2) s1(2) in simp_all)
  have step: "server_step e (Some (request_dgram ce hw c (htonl DHCP_SERVER_IP_ADDRESS) y)) s = Inr (send_reply n s2)"
    using r(2) dispatch_eq [of ?s DHCPREQUEST e] by (simp add: server_step_def Let_def s1(4) c(1) flip: d_def)
  show thesis
    by (rule that [OF step, of "\<lparr>dest = dhcp_client_addr s1, payload = reply_dgram DHCPNAK w 0 d\<rparr>" w d])
      (use c(2,3) s1(1-3) r in \<open>simp_all del: send_reply_frame(3)\<close>)
qed

text \<open>A client whose request is refused: it takes the address off the interface.\<close>

lemma discover_refused:
  assumes "hw_addr ce = Some hw" "6 \<le> length hw" "get_ip_address ce c = 0" "\<forall>r. kernel_accepts ce r"
    and "\<forall>n. wf_dhcp (offer_stack ce n)" "\<forall>n. wf_dhcp (ack_stack ce n)"
    and "wf_dhcp d1" "xid d1 = htonl (rand_of ce (calls c))"
    and "wf_dhcp d2" "xid d2 = htonl (rand_of ce (calls c))"
    and "inbox c = Some (reply_dgram DHCPOFFER w y d1) # Some (reply_dgram DHCPNAK w' y' d2) # rest"
  shows "\<exists>c'. discover ce c = Inr c' \<and> if_addr c' = 0 \<and> alarm_left c' = alarm_left c \<and> inbox c' = rest"
proof -
  let ?ob = "offer_stack ce (Suc (calls c))" and ?ab = "ack_stack ce (Suc (calls c))"
  define r1 where "r1 = recv_dhcp ?ob (reply_dgram DHCPOFFER w y d1)"
  define r2 where "r2 = recv_dhcp ?ab (reply_dgram DHCPNAK w' y' d2)"
  note 1 = reply_for_client [OF assms(5) [rule_format] assms(7,8) r1_def]
  note 2 = reply_for_client [OF assms(6) [rule_format] assms(9,10) r2_def]
  obtain p c1 where p: "dhcp_discover ce c = receive_ack ce p c1" "cl_xid c1 = rand_of ce (calls c)"
    "inbox c1 = Some (reply_dgram DHCPNAK w' y' d2) # rest" "calls c1 = Suc (calls c)" "alarm_left c1 = alarm_left c"
    using dhcp_discover_offered [OF assms(1,2), of c "[]" _ _ r1 "htonl DHCP_SERVER_IP_ADDRESS"] 1 assms(11)
    by (auto simp flip: r1_def)
  have "dhcp_discover ce c = Inr (1, r2, c1\<lparr>dhcp_server_identifier := dhcp_server_identifier c1, inbox := rest\<rparr>)"
    unfolding p(1)
    by (rule receive_ack_answer [where gs = "[]" and g = "reply_dgram DHCPNAK w' y' d2"])
      (use p(2-4) 2 take_ack_nak [of r2] in \<open>simp_all add: r2_def\<close>)
  then show ?thesis
    using release_address [of ce] assms(3,4) p(5) by (simp add: discover_def)
qed

section \<open>The contention\<close>

text \<open>
  C8: Two clients with different hardware addresses have both been offered the free address \<open>a\<close> and
  request it. The server acknowledges the first. While the lease of the first runs, and whatever
  datagrams arrive in between except its release, the second is refused, and the table is not
  changed by the refusal. With these answers in their inboxes the first client configures
  \<open>a\<close> and the second one ends without an address.
\<close>

theorem contended_address:
  assumes "wf_dhcp (dhcp_recv s)" "lease_inv (table s)" "in_pool a" "lease_map (table s) a = None"
    and "hw_addr ce1 = Some hw1" "6 \<le> length hw1" "get_ip_address ce1 c1 = 0" "\<forall>r. kernel_accepts ce1 r"
      "\<forall>n. wf_dhcp (offer_stack ce1 n)" "\<forall>n. wf_dhcp (ack_stack ce1 n)"
    and "hw_addr ce2 = Some hw2" "6 \<le> length hw2" "get_ip_address ce2 c2 = 0" "\<forall>r. kernel_accepts ce2 r"
      "\<forall>n. wf_dhcp (offer_stack ce2 n)" "\<forall>n. wf_dhcp (ack_stack ce2 n)"
    and "\<not> same_mac hw1 hw2"
    and "wf_dhcp o1" "xid o1 = htonl (rand_of ce1 (calls c1))" "wf_dhcp o2" "xid o2 = htonl (rand_of ce2 (calls c2))"
    and "t_check e2 < t_lease e1 + uint IP_ADDRESS_LEASE_TIME"
  shows "\<exists>s1 p1. server_step e1 (Some (request_dgram ce1 hw1 c1 (htonl DHCP_SERVER_IP_ADDRESS) (htonl a))) s = Inr s1 \<and>
    sent s1 = sent s @ [p1] \<and>
    (\<exists>c1'. discover ce1 (c1\<lparr>inbox := [Some (reply_dgram DHCPOFFER w1 (htonl a) o1), Some (payload p1)]\<rparr>) = Inr c1' \<and>
       if_addr c1' = htonl a) \<and>
    (\<forall>between s2. server_run between s1 = Inr s2 \<and> messages_satisfy (keeps_lease (t_lease e1) a (take 6 hw1)) between s1 \<longrightarrow>
      (\<exists>s3 p2. server_step e2 (Some (request_dgram ce2 hw2 c2 (htonl DHCP_SERVER_IP_ADDRESS) (htonl a))) s2 = Inr s3 \<and>
         sent s3 = sent s2 @ [p2] \<and> table s3 = table s2 \<and>
         (\<exists>c2'. discover ce2 (c2\<lparr>inbox := [Some (reply_dgram DHCPOFFER w2 (htonl a) o2), Some (payload p2)]\<rparr>) = Inr c2' \<and>
            if_addr c2' = 0)))"
proof -
  have 1: "may_use (lease_map (table s)) (t_check e1) (ntohl (htonl a)) hw1"
    using assms(3,4) by (simp add: may_use_def)
  obtain s1 p1 d1 where s1: "server_step e1 (Some (request_dgram ce1 hw1 c1 (htonl DHCP_SERVER_IP_ADDRESS) (htonl a))) s = Inr s1"
    "sent s1 = sent s @ [p1]" "payload p1 = reply_dgram DHCPACK True (htonl a) d1"
    "wf_dhcp d1" "xid d1 = htonl (rand_of ce1 (calls c1))"
    "lease_map (table s1) = grant_map (lease_map (table s)) (t_lease e1) (ntohl (htonl a)) hw1"
    "wf_dhcp (dhcp_recv s1)" "lease_inv (table s1)"
    by (rule request_step [OF assms(1,2,6,7) 1])
  have held: "held (t_lease e1) a (take 6 hw1) (table s1)" "srv_inv s1"
    using s1(6-8) assms(4) by (simp_all add: held_def grant_map_def srv_inv_def)
  have first: "\<exists>c1'. discover ce1 (c1\<lparr>inbox := [Some (reply_dgram DHCPOFFER w1 (htonl a) o1), Some (payload p1)]\<rparr>) = Inr c1' \<and>
       if_addr c1' = htonl a"
    using discover_configures [OF assms(5,6) _ assms(8-10,18) _ s1(4), of
        "c1\<lparr>inbox := [Some (reply_dgram DHCPOFFER w1 (htonl a) o1), Some (payload p1)]\<rparr>" w1 "htonl a" "htonl a" "[]"]
      assms(7,19) s1(3,5) by auto
  have second: "\<exists>s3 p2. server_step e2 (Some (request_dgram ce2 hw2 c2 (htonl DHCP_SERVER_IP_ADDRESS) (htonl a))) s2 = Inr s3 \<and>
         sent s3 = sent s2 @ [p2] \<and> table s3 = table s2 \<and>
         (\<exists>c2'. discover ce2 (c2\<lparr>inbox := [Some (reply_dgram DHCPOFFER w2 (htonl a) o2), Some (payload p2)]\<rparr>) = Inr c2' \<and>
            if_addr c2' = 0)"
    if run: "server_run between s1 = Inr s2" "messages_satisfy (keeps_lease (t_lease e1) a (take 6 hw1)) between s1"
    for between s2
  proof -
    have s2: "held (t_lease e1) a (take 6 hw1) (table s2)" "wf_dhcp (dhcp_recv s2)" "lease_inv (table s2)"
      using server_run_held [OF run(1) held(2,1) run(2)] by (simp_all add: srv_inv_def)
    have "\<not> same_mac (take 6 hw1) hw2" using assms(17) by (simp add: same_mac_def)
    with s2(1) assms(22) have "\<not> may_use (lease_map (table s2)) (t_check e2) (ntohl (htonl a)) hw2"
      by (auto simp: held_def may_use_def split: option.splits)
    then obtain s3 p2 w d where s3: "server_step e2 (Some (request_dgram ce2 hw2 c2 (htonl DHCP_SERVER_IP_ADDRESS) (htonl a))) s2 = Inr s3"
      "sent s3 = sent s2 @ [p2]" "payload p2 = reply_dgram DHCPNAK w 0 d" "table s3 = table s2"
      "wf_dhcp d" "xid d = htonl (rand_of ce2 (calls c2))"
      by (rule request_refused [OF s2(2,3) assms(12,13)])
    have "\<exists>c2'. discover ce2 (c2\<lparr>inbox := [Some (reply_dgram DHCPOFFER w2 (htonl a) o2), Some (payload p2)]\<rparr>) = Inr c2' \<and>
            if_addr c2' = 0"
      using discover_refused [OF assms(11,12) _ assms(14-16,20) _ s3(5), of
          "c2\<lparr>inbox := [Some (reply_dgram DHCPOFFER w2 (htonl a) o2), Some (payload p2)]\<rparr>" w2 "htonl a" w 0 "[]"]
        assms(13,21) s3(3,6) by auto
    with s3(1,2,4) show ?thesis by blast
  qed
  show ?thesis using s1(1,2) first second by blast
qed

theorem contended_address_witness:
  "\<exists>g1 g2 g s1 s2 p1 p2 c1 c2.
    server_step (sample_env 100) (Some g1) (sample_server zero_msg empty_table) = Inr s1 \<and> sent s1 = [p1] \<and>
    server_step (sample_env 101) (Some g2) s1 = Inr s2 \<and> sent s2 = [p1, p2] \<and>
    discover sample_cl_env ((sample_client 0 0 0 0)\<lparr>inbox := [Some g, Some (payload p1)]\<rparr>) = Inr c1 \<and>
    discover (sample_cl_env\<lparr>hw_addr := Some other_mac\<rparr>) ((sample_client 0 0 0 0)\<lparr>inbox := [Some g, Some (payload p2)]\<rparr>) = Inr c2 \<and>
    if_addr c1 = htonl 0xC0A80009 \<and> if_addr c2 = 0"
proof -
  let ?s = "sample_server zero_msg empty_table" and ?c = "sample_client 0 0 0 0"
    and ?e2 = "sample_cl_env\<lparr>hw_addr := Some other_mac\<rparr>"
  let ?o = "zero_msg\<lparr>xid := htonl (rand_of sample_cl_env (calls ?c))\<rparr>"
  have wf: "wf_dhcp ?o" using wf_zero_msg by (simp add: wf_dhcp_def)
  have s: "wf_dhcp (dhcp_recv ?s)" "lease_inv (table ?s)" "in_pool 0xC0A80009" "lease_map (table ?s) 0xC0A80009 = None"
    by (simp_all add: wf_zero_msg lease_inv_empty in_pool_def)
  have c: "hw_addr sample_cl_env = Some sample_mac" "6 \<le> length sample_mac" "get_ip_address sample_cl_env ?c = 0"
    "\<forall>r. kernel_accepts sample_cl_env r" "\<forall>n. wf_dhcp (offer_stack sample_cl_env n)" "\<forall>n. wf_dhcp (ack_stack sample_cl_env n)"
    "hw_addr ?e2 = Some other_mac" "6 \<le> length other_mac" "get_ip_address ?e2 ?c = 0"
    "\<forall>r. kernel_accepts ?e2 r" "\<forall>n. wf_dhcp (offer_stack ?e2 n)" "\<forall>n. wf_dhcp (ack_stack ?e2 n)"
    "\<not> same_mac sample_mac other_mac"
    by (simp_all add: get_ip_address_def sample_client_def same_mac_def wf_zero_msg)
  have x: "xid ?o = htonl (rand_of sample_cl_env (calls ?c))" "xid ?o = htonl (rand_of ?e2 (calls ?c))" by simp_all
  have t: "t_check (sample_env 101) < t_lease (sample_env 100) + uint IP_ADDRESS_LEASE_TIME" by simp
  obtain s1 p1 where o: "server_step (sample_env 100) (Some (request_dgram sample_cl_env sample_mac ?c (htonl DHCP_SERVER_IP_ADDRESS) (htonl 0xC0A80009))) ?s = Inr s1"
    "sent s1 = sent ?s @ [p1]"
    "\<exists>c1'. discover sample_cl_env (?c\<lparr>inbox := [Some (reply_dgram DHCPOFFER True (htonl 0xC0A80009) ?o), Some (payload p1)]\<rparr>) = Inr c1' \<and>
       if_addr c1' = htonl 0xC0A80009"
    and later: "\<forall>between s2. server_run between s1 = Inr s2 \<and>
        messages_satisfy (keeps_lease (t_lease (sample_env 100)) 0xC0A80009 (take 6 sample_mac)) between s1 \<longrightarrow>
      (\<exists>s3 p2. server_step (sample_env 101) (Some (request_dgram ?e2 other_mac ?c (htonl DHCP_SERVER_IP_ADDRESS) (htonl 0xC0A80009))) s2 = Inr s3 \<and>
         sent s3 = sent s2 @ [p2] \<and> table s3 = table s2 \<and>
         (\<exists>c2'. discover ?e2 (?c\<lparr>inbox := [Some (reply_dgram DHCPOFFER True (htonl 0xC0A80009) ?o), Some (payload p2)]\<rparr>) = Inr c2' \<and>
            if_addr c2' = 0))"
    using contended_address [OF s c wf x(1) wf x(2) t, of True True]
    by (elim exE conjE) (rule that; (assumption | blast))
  obtain s3 p2 where
    "server_step (sample_env 101) (Some (request_dgram ?e2 other_mac ?c (htonl DHCP_SERVER_IP_ADDRESS) (htonl 0xC0A80009))) s1 = Inr s3"
    "sent s3 = sent s1 @ [p2]"
    "\<exists>c2'. discover ?e2 (?c\<lparr>inbox := [Some (reply_dgram DHCPOFFER True (htonl 0xC0A80009) ?o), Some (payload p2)]\<rparr>) = Inr c2' \<and>
       if_addr c2' = 0"
    using later [rule_format, of "[]" s1] by auto
  moreover have "sent s1 = [p1]" using o(2) by simp
  ultimately show ?thesis using o(1,3) by fastforce
qed

end
