(* ===== verification/Server_Datagrams.thy ===== *)
theory Server_Datagrams
  imports Server_Properties
begin

text \<open>
  The type of what the server puts on the wire along a run: every datagram is empty or a complete
  reply of this server, which every client decodes in the same way.
\<close>

section \<open>What one message makes the server send\<close>

text \<open>At most one datagram, the front of a reply to the message in the buffer.\<close>

definition answers_with :: "server \<Rightarrow> server \<Rightarrow> bool" where
  "answers_with s s' \<longleftrightarrow> sent s' = sent s \<or>
     (\<exists>p. sent s' = sent s @ [p] \<and>
        (payload p = [] \<or>
         (\<exists>st w y. st \<in> {DHCPOFFER, DHCPACK, DHCPNAK} \<and> payload p = reply_dgram st w y (dhcp_recv s))))"

lemma construct_answers:
  assumes "construct_dhcp_packet_srv e st s1 = Inr (n, s2)" "wf_dhcp (dhcp_recv s1)"
    and "sent s1 = sent s" "dhcp_recv s1 = dhcp_recv s" "st \<in> {DHCPOFFER, DHCPACK, DHCPNAK}"
  shows "answers_with s (send_reply n s2)"
  using assms(1,2)
proof (cases rule: construct_cases)
  case exhausted
  then show ?thesis using assms(3) by (simp add: answers_with_def)
next
  case (reply t y w)
  then have "sent (send_reply n s2) = sent s @ [\<lparr>dest = dhcp_client_addr s1, payload = reply_dgram st w y (dhcp_recv s)\<rparr>]"
    using assms(2-4) reply_dgram_eq [of "dhcp_recv s" st w y] by simp
  moreover have "\<exists>st' w' y'. st' \<in> {DHCPOFFER, DHCPACK, DHCPNAK} \<and>
      reply_dgram st w y (dhcp_recv s) = reply_dgram st' w' y' (dhcp_recv s)"
    using assms(5) by blast
  ultimately show ?thesis
    unfolding answers_with_def
    by (intro disjI2 exI [of _ "\<lparr>dest = dhcp_client_addr s1, payload = reply_dgram st w y (dhcp_recv s)\<rparr>"]) simp
qed

lemma dispatch_answers:
  assumes "dispatch e s = Inr s'" "srv_inv s"
  shows "answers_with s s'"
proof -
  have wf: "wf_dhcp (dhcp_recv s)" using assms(2) by (simp add: srv_inv_def)
  have "answers_with s s'" if h: "dhcp_handle_discover e s = Inr s'"
  proof -
    obtain s1 n s2 where 1: "unicast_setup (t_unicast e) (change_socket_setup_srv INADDR_ANY INADDR_BROADCAST s) = Inr s1"
      and 2: "construct_dhcp_packet_srv e DHCPOFFER s1 = Inr (n, s2)" "s' = send_reply n s2"
      using h by (auto simp: dhcp_handle_discover_def res_simps)
    show ?thesis
      unfolding 2(2) by (rule construct_answers [OF 2(1)]) (use unicast_setup_frame [OF 1] wf in simp_all)
  qed
  moreover have "answers_with s s'" if h: "dhcp_handle_request e s = Inr s'"
    using h
  proof (cases rule: request_cases)
    case (selecting i s1 r ip n s2)
    show ?thesis
      unfolding selecting(7)
      by (rule construct_answers [OF selecting(6)]) (use unicast_setup_frame [OF selecting(3)] wf in simp_all)
  next
    case (renewing n s2)
    show ?thesis
      unfolding renewing(4) by (rule construct_answers [OF renewing(3)]) (use wf in simp_all)
  qed (simp add: answers_with_def)
  moreover have "answers_with s s'" if h: "dhcp_handle_inform e s = Inr s'"
  proof -
    obtain n s2 where 2: "construct_dhcp_packet_srv e DHCPACK
        (change_socket_setup_srv DHCP_SERVER_IP_ADDRESS (ntohl (ciaddr (dhcp_recv s))) s) = Inr (n, s2)" "s' = send_reply n s2"
      using h by (auto simp: dhcp_handle_inform_def res_simps)
    show ?thesis
      unfolding 2(2) by (rule construct_answers [OF 2(1)]) (use wf in simp_all)
  qed
  moreover have "answers_with s s'" if "dhcp_handle_release s = Inr s'"
    using release_wf [OF that] by (simp add: answers_with_def)
  moreover have "answers_with s s" by (simp add: answers_with_def)
  ultimately show ?thesis
    using dispatch_message_type [OF assms(1)] by (auto split: option.splits if_splits)
qed

section \<open>The type of the datagrams\<close>

text \<open>What every client finds in its buffer, whatever the buffer held.\<close>

definition server_reply :: "u8 list \<Rightarrow> bool" where
  "server_reply g \<longleftrightarrow> length g \<in> {264, 282, 300} \<and>
     (\<forall>buf. wf_dhcp buf \<longrightarrow>
        (let r = recv_dhcp buf g in
         wf_dhcp r \<and> opcode r = BOOTP_MESSAGE_TYPE_REPLY \<and>
         (type_option r DHCPOFFER \<or> type_option r DHCPACK \<or> type_option r DHCPNAK) \<and>
         addr_option r OPTION_DHCP_SERVER_IDENTIFIER (htonl DHCP_SERVER_IP_ADDRESS)))"

lemma reply_dgram_typed:
  assumes "wf_dhcp d" "st \<in> {DHCPOFFER, DHCPACK, DHCPNAK}"
  shows "server_reply (reply_dgram st w y d)"
proof -
  have "wf_dhcp r \<and> opcode r = BOOTP_MESSAGE_TYPE_REPLY \<and>
      (type_option r DHCPOFFER \<or> type_option r DHCPACK \<or> type_option r DHCPNAK) \<and>
      addr_option r OPTION_DHCP_SERVER_IDENTIFIER (htonl DHCP_SERVER_IP_ADDRESS)"
    if "wf_dhcp buf" "r = recv_dhcp buf (reply_dgram st w y d)" for buf r
    using recv_reply_fields [OF that(1) assms(1) that(2)] assms(2)
      recv_reply_addr [OF that(1) assms(1) map_of_reply_options(2), of st w y] that(2) by auto
  then show ?thesis
    using length_reply_dgram [OF assms(1), of st w y]
    by (auto simp: server_reply_def reply_size_eq Let_def split: if_splits)
qed

lemma server_step_typed:
  assumes "server_step e input s = Inr s'" "srv_inv s"
    and "\<forall>p \<in> set (sent s). payload p = [] \<or> server_reply (payload p)"
  shows "\<forall>p \<in> set (sent s'). payload p = [] \<or> server_reply (payload p)"
proof (cases input)
  case None
  with assms show ?thesis by (auto simp: server_step_def)
next
  case (Some g)
  let ?s = "(change_socket_setup_srv INADDR_ANY INADDR_BROADCAST s)\<lparr>dhcp_recv := recv_dhcp (dhcp_recv s) g\<rparr>"
  have d: "dispatch e ?s = Inr s'" using assms(1) Some by (simp add: server_step_def Let_def)
  have inv: "srv_inv ?s" by (rule received_inv [OF assms(2)])
  then have "wf_dhcp (dhcp_recv ?s)" by (simp only: srv_inv_def)
  with dispatch_answers [OF d inv] assms(3) reply_dgram_typed show ?thesis
    unfolding answers_with_def by fastforce
qed

text \<open>
  C17: Whatever arrives, every datagram that the server has sent along a run is empty or of 264, 282
  or 300 bytes, and in every client's receive buffer it decodes to a well-formed BOOTP reply whose
  message type is OFFER, ACK or NAK and whose server identifier is this server's address.
\<close>

theorem sent_datagrams_typed:
  assumes "main_srv euid argv succeeds inputs = Inr s" "p \<in> set (sent s)"
  shows "payload p = [] \<or> server_reply (payload p)"
proof -
  obtain s0 where s0: "dhcp_setup_srv (argv ! 1) succeeds = Inr s0" "server_run inputs s0 = Inr s"
    using assms(1) by (rule main_srv_InrD)
  have init: "srv_inv s0" "sent s0 = []"
    using setup_inv [OF s0(1)] by simp_all
  have "srv_inv s \<and> (\<forall>p \<in> set (sent s). payload p = [] \<or> server_reply (payload p))"
    by (rule server_run_invariant [where P = "\<lambda>s. srv_inv s \<and> (\<forall>p \<in> set (sent s). payload p = [] \<or> server_reply (payload p))",
          OF s0(2) _ messages_satisfy_True])
      (use init server_step_inv server_step_typed in auto)
  with assms(2) show ?thesis by blast
qed

theorem sent_datagrams_typed_witness:
  "\<exists>s p. main_srv 0 [''server'', ''eth0''] (\<lambda>_. True) [(sample_env 5, Some (dhcp_bytes discover_msg))] = Inr s \<and>
     sent s = [p] \<and> (payload p = [] \<or> server_reply (payload p))"
proof -
  let ?init = "sample_server zero_msg empty_table" and ?in = "[(sample_env 5, Some (dhcp_bytes discover_msg))]"
  let ?s = "(change_socket_setup_srv INADDR_ANY INADDR_BROADCAST ?init)\<lparr>dhcp_recv := discover_msg\<rparr>"
  obtain s where s: "server_step (sample_env 5) (Some (dhcp_bytes discover_msg)) ?init = Inr s" using discover_step by blast
  then have m: "main_srv 0 [''server'', ''eth0''] (\<lambda>_. True) ?in = Inr s"
    by (simp add: main_srv_def started_main(2))
  have "dhcp_handle_discover (sample_env 5) ?s = Inr s"
    using s dispatch_eq [of ?s DHCPDISCOVER "sample_env 5"]
    by (simp add: server_step_def Let_def discover_received discover_msg_facts)
  then obtain p where "sent s = sent ?s @ [p]"
    by (rule discover_sends) (simp_all add: srv_inv_def discover_msg_facts lease_inv_empty)
  then have "sent s = [p]" by simp
  moreover from this sent_datagrams_typed [OF m, of p] have "payload p = [] \<or> server_reply (payload p)" by simp
  ultimately show ?thesis using m by blast
qed

end
