(* ===== verification/Network.thy ===== *)
theory Network
  imports Two_Clients Server_Datagrams
begin

text \<open>
  One server and any number of clients on a network that loses, duplicates, delays and reorders
  datagrams, and on which other parties may send the server anything. A step is a turn of the
  server's loop on some datagram, or a whole operation of one client, whose inbox is any sequence
  of time-outs and of datagrams that the server has sent up to the end of the operation.
\<close>

section \<open>The network\<close>

datatype client_op = Discover | Renew | Rebind | Release | Inform | Alarm

fun perform :: "client_op \<Rightarrow> cl_env \<Rightarrow> client \<Rightarrow> client res" where
  "perform Discover = discover"
| "perform Renew = renew"
| "perform Rebind = rebind"
| "perform Release = release"
| "perform Inform = inform"
| "perform Alarm = alarm_fires"

record network =
  net_server :: server
  net_client :: "nat \<Rightarrow> client"

definition deliverable :: "server \<Rightarrow> u8 list option list \<Rightarrow> bool" where
  "deliverable s ins \<longleftrightarrow> (\<forall>g \<in> set ins. case g of None \<Rightarrow> True | Some g \<Rightarrow> g \<in> payload ` set (sent s))"

text \<open>
  The receive buffers of an operation are local variables that nothing initialises: they hold what
  earlier operations left in the frame, that is datagrams of the server received over each other, over
  something that is not itself a reply to one of the exchanges this operation starts (which has their
  transaction ids, the numbers \<open>rand()\<close> is about to return). Replies to past exchanges, with the addresses
  in them, may stand there.
\<close>

definition stack_ok :: "server \<Rightarrow> client \<Rightarrow> cl_env \<Rightarrow> bool" where
  "stack_ok s c e \<longleftrightarrow> (\<forall>n. \<exists>d gs. wf_dhcp d \<and> (\<forall>k \<ge> calls c. \<not> for_us (rand_of e k) d) \<and>
     set gs \<subseteq> payload ` set (sent s) \<and> ack_stack e n = foldl recv_dhcp d gs)"

inductive net_reach :: "network \<Rightarrow> bool" where
  started: "dhcp_setup_srv dev succeeds = Inr (net_server n) \<Longrightarrow> \<forall>i. if_addr (net_client n i) = 0 \<Longrightarrow> net_reach n"
| server: "net_reach n \<Longrightarrow>
    (case input of None \<Rightarrow> True | Some g \<Rightarrow> \<not> addressless_inform (recv_dhcp (dhcp_recv (net_server n)) g)) \<Longrightarrow>
    server_step e input (net_server n) = Inr s' \<Longrightarrow> net_reach (n\<lparr>net_server := s'\<rparr>)"
| client: "net_reach n \<Longrightarrow> deliverable (net_server n) ins \<Longrightarrow> stack_ok (net_server n) (net_client n i) e \<Longrightarrow>
    perform op e ((net_client n i)\<lparr>inbox := ins\<rparr>) = Inr c' \<Longrightarrow>
    net_reach (n\<lparr>net_client := (net_client n)(i := c')\<rparr>)"

section \<open>The server sends addresses of the pool\<close>

definition pool_reply :: "u8 list \<Rightarrow> bool" where
  "pool_reply g \<longleftrightarrow> g = [] \<or>
     (\<exists>st w y d. wf_dhcp d \<and> g = reply_dgram st w y d \<and> (st = DHCPNAK \<or> in_pool (ntohl y)))"

lemma construct_pool:
  assumes "construct_dhcp_packet_srv e st s = Inr (n, s2)" "srv_inv s" "pool_table (table s)"
    and "\<And>r ip. st = DHCPACK \<Longrightarrow> ciaddr (dhcp_recv s) = 0 \<Longrightarrow>
      get_dhcp_option (options (dhcp_recv s)) OPTION_REQUESTED_IP = Inr r \<Longrightarrow>
      load32 (options (dhcp_recv s)) (opt_set r None) = Inr ip \<Longrightarrow> in_pool (ntohl ip)"
  shows "\<exists>p. sent (send_reply n s2) = sent s @ [p] \<and> pool_reply (payload p)"
proof -
  have wf: "wf_dhcp (dhcp_recv s)" using assms(2) by (simp add: srv_inv_def)
  from assms(1) wf show ?thesis
  proof (cases rule: construct_cases)
    case exhausted
    then show ?thesis by (simp add: pool_reply_def)
  next
    case (reply t y w)
    let ?s1 = "s\<lparr>dhcp_recv := (dhcp_recv s)\<lparr>opcode := BOOTP_MESSAGE_TYPE_REPLY\<rparr>\<rparr>"
    have "st = DHCPNAK \<or> in_pool (ntohl y)"
      using reply(1)
    proof (cases rule: set_yiaddr_cases)
      case (requested ip)
      with requested_ip_okD [OF requested(2)] show ?thesis by (simp add: may_use_def)
    next
      case (granted r ip)
      with assms(4) show ?thesis by simp
    next
      case (allocated rc a t')
      with allocate_may_use [OF allocated(4), of 0] assms(2,3) show ?thesis
        by (simp add: srv_inv_def may_use_def)
    qed simp
    then have "pool_reply (reply_dgram st w y (dhcp_recv s))"
      using wf unfolding pool_reply_def by blast
    moreover have "sent (send_reply n s2) = sent s @ [\<lparr>dest = dhcp_client_addr s, payload = reply_dgram st w y (dhcp_recv s)\<rparr>]"
      using reply(3,4) reply_dgram_eq [OF wf, of st w y] by simp
    ultimately show ?thesis by simp
  qed
qed

lemma dispatch_pool:
  assumes "dispatch e s = Inr s'" "srv_inv s" "pool_table (table s)" "\<not> addressless_inform (dhcp_recv s)"
  shows "sent s' = sent s \<or> (\<exists>p. sent s' = sent s @ [p] \<and> pool_reply (payload p))"
proof -
  have discover: "\<exists>p. sent s' = sent s @ [p] \<and> pool_reply (payload p)" if h: "dhcp_handle_discover e s = Inr s'"
  proof -
    obtain s1 n s2 where 1: "unicast_setup (t_unicast e) (change_socket_setup_srv INADDR_ANY INADDR_BROADCAST s) = Inr s1"
      and 2: "construct_dhcp_packet_srv e DHCPOFFER s1 = Inr (n, s2)" "s' = send_reply n s2"
      using h by (auto simp: dhcp_handle_discover_def res_simps)
    show ?thesis
      using construct_pool [OF 2(1)] unicast_setup_frame [OF 1] assms(2,3) by (simp add: 2(2) srv_inv_def)
  qed
  have request: "sent s' = sent s \<or> (\<exists>p. sent s' = sent s @ [p] \<and> pool_reply (payload p))"
    if h: "dhcp_handle_request e s = Inr s'"
    using h
  proof (cases rule: request_cases)
    case (selecting i s1 r ip n s2)
    note frame = unicast_setup_frame [OF selecting(3)]
    have "\<exists>p. sent (send_reply n s2) = sent s1 @ [p] \<and> pool_reply (payload p)"
    proof (rule construct_pool [OF selecting(6)])
      fix r' ip'
      assume ack: "(if 0 < check_ipaddr (table s1) (t_check e) ip (chaddr (dhcp_recv s)) then DHCPACK else DHCPNAK) = DHCPACK"
        and r': "get_dhcp_option (options (dhcp_recv s1)) OPTION_REQUESTED_IP = Inr r'"
          "load32 (options (dhcp_recv s1)) (opt_set r' None) = Inr ip'"
      have "r' = r" using r'(1) selecting(4) frame by simp
      moreover from this have "opt_set r None = opt_set r (Some i)" using r'(2) by (cases r) auto
      ultimately have "ip' = ip" using r'(2) selecting(5) frame by simp
      with ack show "in_pool (ntohl ip')" by (simp add: check_ipaddr_spec may_use_def split: if_splits)
    qed (use frame assms(2,3) in \<open>simp_all add: srv_inv_def\<close>)
    then show ?thesis using frame by (simp add: selecting(7))
  next
    case (renewing n s2)
    then show ?thesis
      using construct_pool [OF renewing(3)] assms(2,3) by (auto simp: srv_inv_def)
  qed simp
  have inform: "\<exists>p. sent s' = sent s @ [p] \<and> pool_reply (payload p)"
    if h: "dhcp_handle_inform e s = Inr s'" "message_type (dhcp_recv s) = Some DHCPINFORM"
  proof -
    obtain n s2 where 2: "construct_dhcp_packet_srv e DHCPACK
        (change_socket_setup_srv DHCP_SERVER_IP_ADDRESS (ntohl (ciaddr (dhcp_recv s))) s) = Inr (n, s2)" "s' = send_reply n s2"
      using h(1) by (auto simp: dhcp_handle_inform_def res_simps)
    have "ciaddr (dhcp_recv s) \<noteq> 0" using assms(4) h(2) by (simp add: addressless_inform_def)
    then show ?thesis
      using construct_pool [OF 2(1)] assms(2,3) by (simp add: 2(2) srv_inv_def)
  qed
  show ?thesis
    using dispatch_message_type [OF assms(1)] discover request inform release_wf [of s s']
    by (auto split: option.splits if_splits)
qed

lemma server_step_sends_pool:
  assumes "server_step e input s = Inr s'" "srv_inv s" "pool_table (table s)"
    and "case input of None \<Rightarrow> True | Some g \<Rightarrow> \<not> addressless_inform (recv_dhcp (dhcp_recv s) g)"
    and "\<forall>p \<in> set (sent s). pool_reply (payload p)"
  shows "\<forall>p \<in> set (sent s'). pool_reply (payload p)"
proof (cases input)
  case None
  with assms(1,5) show ?thesis by (auto simp: server_step_def)
next
  case (Some g)
  let ?s = "(change_socket_setup_srv INADDR_ANY INADDR_BROADCAST s)\<lparr>dhcp_recv := recv_dhcp (dhcp_recv s) g\<rparr>"
  have d: "dispatch e ?s = Inr s'" using assms(1) Some by (simp add: server_step_def Let_def)
  from dispatch_pool [OF d received_inv [OF assms(2)]] assms(3-5) Some show ?thesis by auto
qed

section \<open>The client configures what the server sent\<close>

text \<open>A buffer that does not make the client take an address outside the pool.\<close>

definition safe_buffer :: "u32 \<Rightarrow> dhcp_t \<Rightarrow> bool" where
  "safe_buffer x d \<longleftrightarrow> wf_dhcp d \<and>
     (for_us x d \<longrightarrow> type_option d DHCPNAK \<or> in_pool (ntohl (yiaddr d)))"

lemma recv_empty [simp]: "wf_dhcp d \<Longrightarrow> recv_dhcp d [] = d"
  by (simp add: recv_dhcp_def dhcp_of_bytes_bytes)

lemma safe_recv:
  assumes "safe_buffer x d" "pool_reply g"
  shows "safe_buffer x (recv_dhcp d g)"
proof (cases "g = []")
  case True
  then show ?thesis using assms(1) by (simp add: safe_buffer_def)
next
  case False
  then obtain st w y d' where g: "wf_dhcp d'" "g = reply_dgram st w y d'" "st = DHCPNAK \<or> in_pool (ntohl y)"
    using assms(2) by (auto simp: pool_reply_def)
  have "wf_dhcp d" using assms(1) by (simp add: safe_buffer_def)
  from recv_reply_fields [OF this g(1) refl, of st w y] g(3) show ?thesis
    by (auto simp: safe_buffer_def g(2))
qed

lemma safe_recv_all: "safe_buffer x d \<Longrightarrow> \<forall>g \<in> set gs. pool_reply g \<Longrightarrow> safe_buffer x (foldl recv_dhcp d gs)"
  by (induction gs arbitrary: d) (auto intro: safe_recv)

text \<open>Inboxes of such datagrams and time-outs, and what is left of them.\<close>

definition pool_inbox :: "u8 list option list \<Rightarrow> bool" where
  "pool_inbox ins \<longleftrightarrow> (\<forall>g. Some g \<in> set ins \<longrightarrow> pool_reply g)"

lemma pool_inbox_parts:
  "pool_inbox (map Some gs @ ins) \<longleftrightarrow> (\<forall>g \<in> set gs. pool_reply g) \<and> pool_inbox ins"
  "pool_inbox (Some g # ins) \<longleftrightarrow> pool_reply g \<and> pool_inbox ins"
  "pool_inbox (None # ins) = pool_inbox ins" "pool_inbox []"
  by (auto simp: pool_inbox_def)

lemma wait_ack_safe:
  assumes "wait_ack x p ins buf sid = Inr (rc, d, sid', ins')" "safe_buffer x buf" "pool_inbox ins"
  shows "pool_inbox ins' \<and> (rc = 0 \<longrightarrow> in_pool (ntohl (yiaddr d)))"
proof (cases rule: ack.outcome [of ins x buf p sid])
  case (answer gs g later)
  let ?d = "recv_dhcp (foldl recv_dhcp buf gs) g"
  have gs: "\<forall>g \<in> set gs. pool_reply g" "pool_reply g" "pool_inbox later"
    using assms(3) unfolding answer(1) by (simp_all add: pool_inbox_parts)
  have safe: "safe_buffer x ?d" by (intro safe_recv safe_recv_all assms(2) gs)
  have "bind_res (take_ack p sid ?d) (\<lambda>(rc, d, sid'). Inr (rc, d, sid', later)) = Inr (rc, d, sid', ins')"
    using answer(4) assms(1) by simp
  then have t: "take_ack p sid ?d = Inr (rc, d, sid')" "ins' = later"
    by (auto simp: res_simps)
  have "d = ?d" using take_ack_buffer [OF t(1)] by simp
  moreover have "\<not> type_option ?d DHCPNAK" if "rc = 0"
    using t(1) take_ack_nak [of ?d p sid] that by auto
  ultimately show ?thesis using safe answer(3) gs(3) t(2) by (auto simp: safe_buffer_def)
qed (use assms(1,3) pool_inbox_parts in auto)

lemma wait_offer_inbox:
  assumes "wait_offer x ins buf = Inr (r, ins')" "pool_inbox ins"
  shows "pool_inbox ins'"
proof (cases rule: offer.outcome [of ins x buf])
  case (answer gs g later)
  then show ?thesis using assms by (auto simp: res_simps pool_inbox_parts)
qed (use assms pool_inbox_parts in auto)

text \<open>The fields that the exchanges leave alone.\<close>

lemma send_message_frame:
  "send_message e st c = Inr c' \<Longrightarrow> if_addr c' = if_addr c \<and> inbox c' = inbox c \<and> cl_xid c' = cl_xid c \<and> calls c' = calls c"
  by (auto simp: send_message_def res_simps)

text \<open>The buffers of the exchanges from the \<open>m\<close>-th on.\<close>

definition safe_stacks :: "nat \<Rightarrow> cl_env \<Rightarrow> bool" where
  "safe_stacks m e \<longleftrightarrow> (\<forall>n. \<forall>k \<ge> m. safe_buffer (rand_of e k) (ack_stack e n))"

lemma stack_ok_safe:
  assumes "stack_ok s c e" "\<forall>p \<in> set (sent s). pool_reply (payload p)"
  shows "safe_stacks (calls c) e"
  unfolding safe_stacks_def
proof (intro allI impI)
  fix n k assume k: "calls c \<le> k"
  obtain d gs where d: "wf_dhcp d" "\<not> for_us (rand_of e k) d" "set gs \<subseteq> payload ` set (sent s)"
    "ack_stack e n = foldl recv_dhcp d gs"
    using assms(1) k unfolding stack_ok_def by metis
  have "safe_buffer (rand_of e k) d" using d(1,2) by (simp add: safe_buffer_def)
  moreover have "\<forall>g \<in> set gs. pool_reply g" using d(3) assms(2) by auto
  ultimately show "safe_buffer (rand_of e k) (ack_stack e n)" unfolding d(4) by (rule safe_recv_all)
qed

lemma receive_ack_safe:
  assumes "receive_ack e p c = Inr (rc, d, c')" "safe_stacks m e" "cl_xid c = rand_of e k" "m \<le> k" "pool_inbox (inbox c)"
  shows "calls c' = calls c \<and> if_addr c' = if_addr c \<and> pool_inbox (inbox c') \<and> (rc = 0 \<longrightarrow> in_pool (ntohl (yiaddr d)))"
proof -
  have "safe_buffer (cl_xid c) (ack_stack e (calls c))"
    using assms(2-4) by (simp add: safe_stacks_def)
  with assms(1,5) wait_ack_safe show ?thesis
    unfolding receive_ack_def by (fastforce simp: res_simps)
qed

text \<open>Every exchange keeps the address, and its acknowledgement carries one of the pool.\<close>

definition exchange_safe :: "client \<Rightarrow> (int \<times> dhcp_t \<times> client) res \<Rightarrow> bool" where
  "exchange_safe c r \<longleftrightarrow> (\<forall>rc d c'. r = Inr (rc, d, c') \<longrightarrow>
     calls c \<le> calls c' \<and> if_addr c' = if_addr c \<and> pool_inbox (inbox c') \<and> (rc = 0 \<longrightarrow> in_pool (ntohl (yiaddr d))))"

lemma send_then_receive:
  assumes "safe_stacks m e" "pool_inbox (inbox c)" "cl_xid c1 = rand_of e k" "m \<le> k" "calls c \<le> calls c1"
    "inbox c1 = inbox c" "if_addr c1 = if_addr c"
  shows "exchange_safe c (bind_res (send_message e st c1) (receive_ack e p))"
  using receive_ack_safe [OF _ assms(1)] send_message_frame [of e st c1] assms(2-7)
  unfolding exchange_safe_def by (fastforce simp: res_simps)

lemma new_xid_frame [simp]:
  "cl_xid (change_socket_setup_cl a b (new_xid e c)) = rand_of e (calls c)"
  "inbox (change_socket_setup_cl a b (new_xid e c)) = inbox c"
  "if_addr (change_socket_setup_cl a b (new_xid e c)) = if_addr c"
  "calls (change_socket_setup_cl a b (new_xid e c)) = Suc (calls c)"
  by (simp_all add: change_socket_setup_cl_def new_xid_def)

lemma exchanges_safe:
  assumes "safe_stacks m e" "pool_inbox (inbox c)" "m \<le> calls c"
  shows "exchange_safe c (dhcp_inform e c)" "exchange_safe c (dhcp_renew e c)" "exchange_safe c (dhcp_rebind e c)"
  using send_then_receive [OF assms(1,2), where k = "calls c"] assms(3)
  by (simp_all add: dhcp_inform_def dhcp_renew_def dhcp_rebind_def Let_def)

lemma dhcp_discover_safe:
  assumes "safe_stacks m e" "pool_inbox (inbox c)" "m \<le> calls c"
  shows "exchange_safe c (dhcp_discover e c)"
  unfolding exchange_safe_def
proof (intro allI impI)
  fix rc d c'
  assume r: "dhcp_discover e c = Inr (rc, d, c')"
  let ?c1 = "change_socket_setup_cl INADDR_ANY INADDR_BROADCAST (new_xid e c)"
  from r obtain c2 r' ins where c2: "send_message e DHCPDISCOVER ?c1 = Inr c2"
    and w: "wait_offer (cl_xid c2) (inbox c2) (offer_stack e (calls c2)) = Inr (r', ins)"
    by (auto simp: dhcp_discover_def Let_def res_simps)
  have f: "if_addr c2 = if_addr c" "inbox c2 = inbox c" "cl_xid c2 = rand_of e (calls c)" "calls c2 = Suc (calls c)"
    using send_message_frame [OF c2] by simp_all
  have ins: "pool_inbox ins" using wait_offer_inbox [OF w] assms(2) f by simp
  show "calls c \<le> calls c' \<and> if_addr c' = if_addr c \<and> pool_inbox (inbox c') \<and> (rc = 0 \<longrightarrow> in_pool (ntohl (yiaddr d)))"
  proof (cases r')
    case None
    with r c2 w ins f show ?thesis by (auto simp: dhcp_discover_def Let_def)
  next
    case (Some q)
    obtain p sid y where q: "q = (p, sid, y)" by (cases q)
    let ?c3 = "c2\<lparr>inbox := ins, dhcp_server_identifier := sid, cl_yiaddr := y\<rparr>"
    have "bind_res (send_message e DHCPREQUEST ?c3) (receive_ack e p) = Inr (rc, d, c')"
      using r c2 w Some q by (simp add: dhcp_discover_def Let_def)
    with send_then_receive [OF assms(1), of ?c3 ?c3 "calls c" DHCPREQUEST p] ins f assms(3) show ?thesis
      by (force simp: exchange_safe_def)
  qed
qed

section \<open>The operations of the client\<close>

definition client_safe :: "client \<Rightarrow> bool" where
  "client_safe c \<longleftrightarrow> if_addr c = 0 \<or> in_pool (ntohl (if_addr c))"

lemma setup_release_safe: "client_safe c \<Longrightarrow> client_safe (setup_interface_release e c)"
  "inbox (setup_interface_release e c) = inbox c" "calls (setup_interface_release e c) = calls c"
  by (simp_all add: client_safe_def setup_interface_release_def do_ioctl_def)

lemma setup_interface_safe:
  "setup_interface e d c = Inr c' \<Longrightarrow> client_safe c \<Longrightarrow> in_pool (ntohl (yiaddr d)) \<Longrightarrow> client_safe c'"
  by (auto simp: setup_interface_def do_ioctl_def client_safe_def Let_def res_simps split: if_splits)

lemma set_alarm_safe: "set_alarm d c = Inr c' \<Longrightarrow> client_safe c \<Longrightarrow> client_safe c'"
  by (auto simp: set_alarm_def client_safe_def Let_def res_simps split: if_splits)

lemma exchange_result:
  "exchange_safe c r \<Longrightarrow> r = Inr (rc, d, c') \<Longrightarrow> client_safe c \<Longrightarrow>
   calls c \<le> calls c' \<and> client_safe c' \<and> pool_inbox (inbox c') \<and> (rc = 0 \<longrightarrow> in_pool (ntohl (yiaddr d)))"
  by (simp add: exchange_safe_def client_safe_def)

lemma discover_safe:
  assumes "discover e c = Inr c'" "safe_stacks m e" "client_safe c" "pool_inbox (inbox c)" "m \<le> calls c"
  shows "client_safe c'"
proof (cases "get_ip_address e c = 0")
  case False
  with assms(1,3) show ?thesis by (simp add: discover_def)
next
  case True
  then obtain state d c1 where 1: "dhcp_discover e c = Inr (state, d, c1)"
    and r: "(if state < 0 then Inr c1 else if state > 0 then Inr (setup_interface_release e c1)
        else bind_res (setup_interface e d c1) (set_alarm d)) = Inr c'"
    using assms(1) by (auto simp: discover_def res_simps)
  note x = exchange_result [OF dhcp_discover_safe [OF assms(2,4,5)] 1 assms(3)]
  show ?thesis
  proof (cases "state = 0")
    case True
    with r obtain c2 where "setup_interface e d c1 = Inr c2" "set_alarm d c2 = Inr c'" by (auto simp: res_simps)
    with x True show ?thesis using setup_interface_safe set_alarm_safe by blast
  next
    case False
    with r x setup_release_safe(1) show ?thesis by (auto split: if_splits)
  qed
qed

lemma renewing_safe:
  assumes "bind_res r (\<lambda>(state, d, c1). if state < 0 then Inr c1
      else if state > 0 then discover e (setup_interface_release e c1) else set_alarm d c1) = Inr c'"
    and "exchange_safe c r" "safe_stacks m e" "client_safe c" "m \<le> calls c"
  shows "client_safe c'"
proof -
  obtain state d c1 where 1: "r = Inr (state, d, c1)"
    and r: "(if state < 0 then Inr c1 else if state > 0 then discover e (setup_interface_release e c1)
        else set_alarm d c1) = Inr c'"
    using assms(1) by (auto simp: res_simps)
  note x = exchange_result [OF assms(2) 1 assms(4)]
  then have "client_safe (setup_interface_release e c1)" "pool_inbox (inbox (setup_interface_release e c1))"
    "m \<le> calls (setup_interface_release e c1)"
    using assms(5) by (simp_all add: setup_release_safe)
  with x r show ?thesis
    using discover_safe [OF _ assms(3)] set_alarm_safe by (auto split: if_splits)
qed

lemma renew_safe:
  assumes "safe_stacks m e" "client_safe c" "pool_inbox (inbox c)" "m \<le> calls c"
  shows "renew e c = Inr c' \<Longrightarrow> client_safe c'" "rebind e c = Inr c' \<Longrightarrow> client_safe c'"
  using renewing_safe [OF _ exchanges_safe(2) [OF assms(1,3,4)] assms(1,2,4)]
    renewing_safe [OF _ exchanges_safe(3) [OF assms(1,3,4)] assms(1,2,4)]
  by (simp_all add: renew_def rebind_def)

lemma release_result:
  assumes "release e c = Inr c'"
  shows "\<exists>c1. c' = setup_interface_release e c1 \<and> if_addr c1 = if_addr c"
proof -
  obtain c1 where c1: "dhcp_release e (c\<lparr>alarm_left := 0\<rparr>) = Inr c1" "Inr (setup_interface_release e c1) = (Inr c' :: client res)"
    using assms unfolding release_def by (rule bind_res_InrE)
  from send_message_frame [OF c1(1) [unfolded dhcp_release_def Let_def]] have "if_addr c1 = if_addr c" by simp
  with c1(2) show ?thesis by blast
qed

lemma perform_safe:
  assumes "perform op e c = Inr c'" "safe_stacks (calls c) e" "client_safe c" "pool_inbox (inbox c)"
  shows "client_safe c'"
proof (cases op)
  case Discover
  then show ?thesis using assms(1) by (auto intro: discover_safe [OF _ assms(2-4) order_refl])
next
  case Renew
  then show ?thesis using assms(1) by (auto intro: renew_safe(1) [OF assms(2-4) order_refl])
next
  case Rebind
  then show ?thesis using assms(1) by (auto intro: renew_safe(2) [OF assms(2-4) order_refl])
next
  case Release
  then obtain c1 where c1: "c' = setup_interface_release e c1" "if_addr c1 = if_addr c"
    using assms(1) by (auto dest: release_result)
  then have "client_safe c1" using assms(3) by (simp add: client_safe_def)
  then show ?thesis using setup_release_safe(1) c1(1) by simp
next
  case Inform
  then obtain state d where "dhcp_inform e c = Inr (state, d, c')"
    using assms(1) by (auto simp: inform_def res_simps)
  from exchange_result [OF exchanges_safe(1) [OF assms(2,4) order_refl] this assms(3)] show ?thesis by simp
next
  case Alarm
  have safe: "client_safe (c\<lparr>alarm_left := a\<rparr>)" "client_safe (c\<lparr>alarm_left := a, t1_time := b\<rparr>)"
    "client_safe (c\<lparr>alarm_left := a, t2_time := b\<rparr>)" for a b
    using assms(3) by (simp_all add: client_safe_def)
  have inbox: "pool_inbox (inbox (c\<lparr>alarm_left := a, t1_time := b\<rparr>))" "pool_inbox (inbox (c\<lparr>alarm_left := a, t2_time := b\<rparr>))" for a b
    using assms(4) by simp_all
  have "lease_time_out e (c\<lparr>alarm_left := 0\<rparr>) = Inr c'" using Alarm assms(1) by (simp add: alarm_fires_def)
  then show ?thesis
    using setup_release_safe(1) [OF safe(1), of e 0]
    by (auto simp: lease_time_out_def intro: renew_safe(1) [OF assms(2) safe(2) inbox(1)]
        renew_safe(2) [OF assms(2) safe(3) inbox(2)] split: if_splits)
qed

section \<open>The network invariant\<close>

text \<open>
  C5: On a network with one server and any number of clients, where datagrams of the server arrive
  late, several times, in any order or not at all, where clients do their operations in any order and
  any number of times, and where anybody may send the server anything but an INFORM without a client
  address, every client has at every time no address or one of the server's pool, and every leased
  address is of the pool. Clients start without an address. A receive buffer may hold what earlier
  operations received, but under it no bytes that happen to be a reply with a transaction id that the
  operation is about to draw.
\<close>

theorem network_addresses_in_pool:
  assumes "net_reach n"
  shows "(if_addr (net_client n i) = 0 \<or> in_pool (ntohl (if_addr (net_client n i)))) \<and>
    (\<forall>a \<in> dom (lease_map (table (net_server n))). in_pool a)"
proof -
  have "srv_inv (net_server n) \<and> pool_table (table (net_server n)) \<and>
      (\<forall>p \<in> set (sent (net_server n)). pool_reply (payload p)) \<and> (\<forall>i. client_safe (net_client n i))"
    using assms
  proof (induction rule: net_reach.induct)
    case (started dev succeeds n)
    with setup_inv [OF started(1)] show ?case
      by (simp add: pool_table_def client_safe_def)
  next
    case (server n input e s')
    then show ?case
      using server_step_inv [OF server(3)] server_step_pool [OF server(3)] server_step_sends_pool [OF server(3)]
      by (auto split: option.splits)
  next
    case (client n ins i e op c')
    have "pool_inbox ins"
      using client(2) client.IH by (force simp: pool_inbox_def deliverable_def split: option.splits)
    moreover have "client_safe ((net_client n i)\<lparr>inbox := ins\<rparr>)"
      using client.IH by (simp add: client_safe_def)
    moreover have "safe_stacks (calls ((net_client n i)\<lparr>inbox := ins\<rparr>)) e"
      using stack_ok_safe [OF client(3)] client.IH by simp
    ultimately have "client_safe c'"
      using perform_safe [OF client(4)] by simp
    with client.IH show ?case by simp
  qed
  then show ?thesis by (simp add: pool_table_def client_safe_def)
qed

text \<open>
  A discovery on the network: two turns of the server, then the operation of the client; and then an
  INFORM of the same client that nobody answers, with the acknowledgement still in its receive buffer.
\<close>

theorem network_addresses_in_pool_witness:
  "\<exists>n. net_reach n \<and> length (sent (net_server n)) = 2 \<and> alarm_left (net_client n 0) = 16 \<and>
     (if_addr (net_client n 0) = 0 \<or> in_pool (ntohl (if_addr (net_client n 0))))"
proof -
  let ?init = "sample_server zero_msg empty_table" and ?c = "sample_client 0 0 0 0"
  let ?g1 = "discover_dgram sample_cl_env sample_mac ?c"
    and ?g2 = "\<lambda>y. request_dgram sample_cl_env sample_mac ?c (htonl DHCP_SERVER_IP_ADDRESS) y"
  let ?n0 = "\<lparr>net_server = ?init, net_client = (\<lambda>_. ?c)\<rparr>"
  have s: "wf_dhcp (dhcp_recv ?init)" "lease_inv (table ?init)" "\<forall>a \<in> dom (lease_map (table ?init)). in_pool a"
    "covers_pool (rnd (sample_env 100))" "t_check (sample_env 100) \<le> t_check (sample_env 101)"
    "mac_known (table ?init) sample_mac \<or> length (leases (table ?init)) < IP_ADDRESS_POOL_AMOUNT"
    "6 \<le> length sample_mac" "get_ip_address sample_cl_env ?c = 0"
    by (simp_all add: wf_zero_msg lease_inv_empty get_ip_address_def sample_client_def)
  have c: "hw_addr sample_cl_env = Some sample_mac" "\<forall>r. kernel_accepts sample_cl_env r"
    "\<forall>n. wf_dhcp (offer_stack sample_cl_env n)" "\<forall>n. wf_dhcp (ack_stack sample_cl_env n)" by (simp_all add: wf_zero_msg)
  obtain s1 s2 p1 p2 d1 d2 w y m where x: "server_step (sample_env 100) (Some ?g1) ?init = Inr s1" "sent s1 = sent ?init @ [p1]"
    "payload p1 = reply_dgram DHCPOFFER w y d1" "server_step (sample_env 101) (Some (?g2 y)) s1 = Inr s2"
    "sent s2 = sent s1 @ [p2]" "payload p2 = reply_dgram DHCPACK True y d2"
    "wf_dhcp d1" "xid d1 = htonl (rand_of sample_cl_env (calls ?c))" "wf_dhcp d2" "xid d2 = htonl (rand_of sample_cl_env (calls ?c))"
    by (rule server_exchange [OF s])
  have r0: "net_reach ?n0" by (rule started [of "''eth0''" "\<lambda>_. True"]) (simp_all add: started_main(2) sample_client_def)
  have "\<not> addressless_inform (recv_dhcp (dhcp_recv ?init) ?g1)"
    using discover_received_at(2) [OF s(1,7,8) refl] by (simp add: addressless_inform_def)
  with net_reach.server [OF r0, of "Some ?g1" "sample_env 100" s1] x(1) have r1: "net_reach (?n0\<lparr>net_server := s1\<rparr>)" by simp
  have "wf_dhcp (dhcp_recv s1)" using server_step_inv [OF x(1)] s(1,2) by (simp add: srv_inv_def)
  then have "\<not> addressless_inform (recv_dhcp (dhcp_recv s1) (?g2 y))"
    using request_received_at(2) [OF _ s(7,8) refl] by (simp add: addressless_inform_def)
  with net_reach.server [OF r1, of "Some (?g2 y)" "sample_env 101" s2] x(4) have r2: "net_reach (?n0\<lparr>net_server := s2\<rparr>)" by simp
  let ?ins = "[Some (payload p1), Some (payload p2)]"
  have "get_ip_address sample_cl_env (?c\<lparr>inbox := ?ins\<rparr>) = 0" using s(8) by simp
  from discover_configures [OF c(1) s(7) this c(2-4) x(7) _ x(9), of w y y "[]"] x(3,6,8,10)
  obtain c' where c': "discover sample_cl_env (?c\<lparr>inbox := ?ins\<rparr>) = Inr c'" "alarm_left c' = 16" by auto
  have "opcode zero_msg = 0" by (simp add: zero_msg_def dhcp_of_bytes_def)
  then have zero: "\<not> for_us x zero_msg" for x by (simp add: for_us_def)
  then have stack: "stack_ok s2 ?c sample_cl_env"
    unfolding stack_ok_def
    by (intro allI exI [of _ zero_msg] exI [of _ "[]"]) (use zero in \<open>simp add: wf_zero_msg sample_cl_env_def\<close>)
  let ?n = "?n0\<lparr>net_server := s2, net_client := (\<lambda>_. ?c)(0 := c')\<rparr>"
  have r3: "net_reach ?n"
    using net_reach.client [OF r2, of ?ins 0 sample_cl_env Discover c'] c'(1) x(2,5) stack
    by (simp add: deliverable_def fun_upd_def)
  let ?e2 = "sample_cl_env\<lparr>ack_stack := \<lambda>_. recv_dhcp zero_msg (payload p2)\<rparr>"
  have "stack_ok s2 c' ?e2"
    unfolding stack_ok_def using zero x(2,5)
    by (intro allI exI [of _ zero_msg] exI [of _ "[payload p2]"]) (simp add: wf_zero_msg)
  moreover have hw: "hw_addr ?e2 = Some sample_mac" "6 \<le> length sample_mac" using c(1) by simp_all
  obtain c'' where c'': "perform Inform ?e2 (c'\<lparr>inbox := []\<rparr>) = Inr c''" "alarm_left c'' = 16"
    using c'(2) by (simp add: inform_def dhcp_inform_def Let_def send_message_eq [OF hw] receive_ack_def
        change_socket_setup_cl_def new_xid_def)
  ultimately have "net_reach (?n\<lparr>net_client := (net_client ?n)(0 := c'')\<rparr>)" (is "net_reach ?n'")
    using net_reach.client [OF r3, of "[]" 0 ?e2 Inform c''] by (simp add: deliverable_def)
  then show ?thesis
    using network_addresses_in_pool [of ?n' 0] c''(2) x(2,5) by (intro exI [of _ ?n']) simp
qed

end
