(* ===== verification/Lease_Heap.thy ===== *)
theory Lease_Heap
  imports Lease_Table
begin

text \<open>
  The lease table in memory (\<open>src/dhcp-server.c\<close>): the singly linked list behind \<open>lease_head\<close> with
  its dummy node, walked, extended and cut by pointers, with \<open>malloc\<close> and \<open>free\<close>. The four
  operations are modelled a second time on this memory and shown to implement those of the table:
  every pointer they follow is to an allocated node, every walk ends, and no node is lost.
\<close>

section \<open>Nodes and memory\<close>

text \<open>\<open>NULL\<close> is 0; \<open>cells\<close> holds the allocated nodes by their address.\<close>

record node =
  n_stamp :: int
  n_addr :: u32
  n_chaddr :: "u8 list"
  n_next :: nat

record lease_mem =
  cells :: "nat \<rightharpoonup> node"
  lease_head :: nat
  lease_count :: i32

definition load_node :: "(nat \<rightharpoonup> node) \<Rightarrow> nat \<Rightarrow> node res" where
  "load_node m p = (case m p of None \<Rightarrow> Inl OutOfBounds | Some n \<Rightarrow> Inr n)"

text \<open>
  The loop \<open>while (lease->next) { if (stop) ...; lease = lease->next; }\<close> of all operations: it ends
  at the last node, or before a node at which the body leaves it. Nothing keeps it from going
  round a cycle (\<open>None\<close>).
\<close>

datatype position = At_End nat | Before nat nat node

partial_function (option) walk_from ::
    "(node \<Rightarrow> bool) \<Rightarrow> (nat \<rightharpoonup> node) \<Rightarrow> nat \<Rightarrow> position res option" where
  "walk_from stop m lease =
     (case m lease of
        None \<Rightarrow> Some (Inl OutOfBounds)
      | Some n \<Rightarrow>
          if n_next n = 0 then Some (Inr (At_End lease))
          else (case m (n_next n) of
              None \<Rightarrow> Some (Inl OutOfBounds)
            | Some l \<Rightarrow> if stop l then Some (Inr (Before lease (n_next n) l))
                else walk_from stop m (n_next n)))"

definition walk :: "(node \<Rightarrow> bool) \<Rightarrow> lease_mem \<Rightarrow> position res" where
  "walk stop h = (case walk_from stop (cells h) (lease_head h) of None \<Rightarrow> Inl Diverges | Some r \<Rightarrow> r)"

section \<open>The operations\<close>

definition check_ipaddr_mem :: "lease_mem \<Rightarrow> int \<Rightarrow> u32 \<Rightarrow> u8 list \<Rightarrow> int res" where
  "check_ipaddr_mem h now ip mac =
     (let req_ip = ntohl ip in
      if req_ip < IP_ADDRESS_POOL_START \<or>
         IP_ADDRESS_POOL_START + of_nat IP_ADDRESS_POOL_AMOUNT - 1 < req_ip then Inr (-1)
      else bind_res (walk (\<lambda>l. n_addr l = req_ip) h) (\<lambda>pos. Inr (case pos of
          At_End p \<Rightarrow> 1
        | Before p q l \<Rightarrow>
            if n_stamp l + uint IP_ADDRESS_LEASE_TIME > now then
              if \<not> same_mac (n_chaddr l) mac then -1 else 1
            else 1)))"

partial_function (option) pick_ip_mem :: "lease_mem \<Rightarrow> (nat \<Rightarrow> nat) \<Rightarrow> nat \<Rightarrow> u32 res option" where
  "pick_ip_mem h rnd k =
     (let num = rnd k mod IP_ADDRESS_POOL_AMOUNT;
          new_ip = IP_ADDRESS_POOL_START + of_nat num
      in case walk (\<lambda>l. n_addr l = new_ip) h of
           Inl f \<Rightarrow> Some (Inl f)
         | Inr (At_End p) \<Rightarrow> Some (Inr new_ip)
         | Inr (Before p q l) \<Rightarrow> pick_ip_mem h rnd (Suc k))"

definition allocate_ip_mem ::
    "lease_mem \<Rightarrow> int \<Rightarrow> (nat \<Rightarrow> nat) \<Rightarrow> u8 list \<Rightarrow> (int \<times> u32 option \<times> lease_mem) res" where
  "allocate_ip_mem h now rnd mac =
     bind_res (walk (\<lambda>l. same_mac (n_chaddr l) mac) h) (\<lambda>pos. case pos of
       Before p q l \<Rightarrow> Inr (0, Some (n_addr l), h\<lparr>cells := (cells h)(q \<mapsto> l\<lparr>n_stamp := now\<rparr>)\<rparr>)
     | At_End p \<Rightarrow>
         if sint (lease_count h) > int IP_ADDRESS_POOL_AMOUNT - 1 then Inr (-1, None, h)
         else (case pick_ip_mem h rnd 0 of
             None \<Rightarrow> Inl Diverges
           | Some r \<Rightarrow> bind_res r (\<lambda>new_ip. Inr (0, Some new_ip, h))))"

text \<open>
  \<open>add_lease\<close>: \<open>new_lease\<close> is the address that \<open>malloc\<close> returns and \<open>junk\<close> what stands there; of the
  hardware address only six bytes are set.
\<close>

definition add_lease_mem ::
    "nat \<Rightarrow> node \<Rightarrow> lease_mem \<Rightarrow> int \<Rightarrow> u32 \<Rightarrow> u8 list \<Rightarrow> lease_mem res" where
  "add_lease_mem new_lease junk h now new_ip mac =
     bind_res (walk (\<lambda>l. n_addr l = ntohl new_ip) h) (\<lambda>pos. case pos of
       Before p q l \<Rightarrow> Inr (h\<lparr>cells := (cells h)(q \<mapsto> l\<lparr>n_stamp := now\<rparr>)\<rparr>)
     | At_End p \<Rightarrow>
         let h1 = h\<lparr>cells := (cells h)(new_lease \<mapsto>
                    \<lparr>n_stamp = now, n_addr = ntohl new_ip,
                     n_chaddr = take HARDWARE_ADDRESS_LENGTH mac @ drop HARDWARE_ADDRESS_LENGTH (n_chaddr junk),
                     n_next = 0\<rparr>)\<rparr> in
         bind_res (walk (\<lambda>l. False) h1) (\<lambda>pos. case pos of
           Before p q l \<Rightarrow> Inr h1
         | At_End lease \<Rightarrow>
             bind_res (load_node (cells h1) lease) (\<lambda>n.
               Inr (h1\<lparr>cells := (cells h1)(lease \<mapsto> n\<lparr>n_next := new_lease\<rparr>),
                       lease_count := lease_count h1 + 1\<rparr>))))"

text \<open>\<open>delete_lease\<close>: the node is bypassed, then freed.\<close>

definition delete_lease_mem :: "lease_mem \<Rightarrow> u32 \<Rightarrow> u8 list \<Rightarrow> lease_mem res" where
  "delete_lease_mem h ip mac =
     bind_res (walk (\<lambda>l. n_addr l = ntohl ip \<and> same_mac (n_chaddr l) mac) h) (\<lambda>pos. case pos of
       At_End p \<Rightarrow> Inr h
     | Before p q l \<Rightarrow>
         bind_res (load_node (cells h) p) (\<lambda>n.
           Inr (h\<lparr>cells := ((cells h)(p \<mapsto> n\<lparr>n_next := n_next l\<rparr>))(q := None),
                  lease_count := lease_count h - 1\<rparr>)))"

text \<open>\<open>dhcp_setup\<close>: the dummy node, of which only \<open>next\<close> is set.\<close>

definition lease_setup_mem :: "nat \<Rightarrow> node \<Rightarrow> lease_mem" where
  "lease_setup_mem p junk = \<lparr>cells = [p \<mapsto> junk\<lparr>n_next := 0\<rparr>], lease_head = p, lease_count = 0\<rparr>"

section \<open>Which table the memory holds\<close>

definition lease_of :: "node \<Rightarrow> lease_t" where
  "lease_of n = \<lparr>time_stamp = n_stamp n, addr = n_addr n,
     lease_chaddr = take HARDWARE_ADDRESS_LENGTH (n_chaddr n)\<rparr>"

definition next_of :: "(nat \<rightharpoonup> node) \<Rightarrow> nat \<rightharpoonup> nat" where
  "next_of m p = map_option n_next (m p)"

fun links :: "(nat \<rightharpoonup> nat) \<Rightarrow> nat \<Rightarrow> nat list \<Rightarrow> bool" where
  "links f p [] = (f p = Some 0)"
| "links f p (q # qs) = (f p = Some q \<and> q \<noteq> 0 \<and> links f q qs)"

definition stored :: "(nat \<rightharpoonup> node) \<Rightarrow> nat list \<Rightarrow> lease_t option list" where
  "stored m qs = map (\<lambda>q. map_option lease_of (m q)) qs"

text \<open>
  The nodes behind the head are those at \<open>qs\<close>, in this order and without a repetition, and they and
  the head are all that is allocated.
\<close>

definition holds_table :: "lease_mem \<Rightarrow> nat list \<Rightarrow> lease_table \<Rightarrow> bool" where
  "holds_table h qs t \<longleftrightarrow>
     links (next_of (cells h)) (lease_head h) qs \<and> distinct (lease_head h # qs) \<and>
     stored (cells h) qs = map Some (leases t) \<and>
     dom (cells h) = set (lease_head h # qs) \<and> lease_count h = num_of_lease t"

lemma stored_simps [simp]:
  "stored m [] = []" "stored m (q # qs) = map_option lease_of (m q) # stored m qs"
  "stored m (qs @ rs) = stored m qs @ stored m rs"
  by (simp_all add: stored_def)

lemma stored_length [simp]: "length (stored m qs) = length qs"
  by (simp add: stored_def)

lemma lease_of_simps [simp]:
  "addr (lease_of n) = n_addr n" "time_stamp (lease_of n) = n_stamp n"
  "same_mac (lease_chaddr (lease_of n)) mac = same_mac (n_chaddr n) mac"
  "lease_of (n\<lparr>n_stamp := now\<rparr>) = (lease_of n)\<lparr>time_stamp := now\<rparr>"
  "lease_of (n\<lparr>n_next := q\<rparr>) = lease_of n"
  by (simp_all add: lease_of_def)

section \<open>Walks\<close>

text \<open>The pointer at which a walk over the nodes \<open>qs\<close> arrives.\<close>

abbreviation end_of :: "nat \<Rightarrow> nat list \<Rightarrow> nat" where
  "end_of p qs \<equiv> last (p # qs)"

lemma walk_to_end:
  assumes "links (next_of m) p qs" "stored m qs = map Some ls"
    "\<And>n. stop n = P (lease_of n)" "\<forall>l \<in> set ls. \<not> P l"
  shows "walk_from stop m p = Some (Inr (At_End (end_of p qs)))"
  using assms(1,2,4)
proof (induction qs arbitrary: p ls)
  case Nil
  then show ?case by (auto simp: walk_from.simps [of stop m p] next_of_def)
next
  case (Cons q qs)
  then obtain l ls' where ls: "ls = l # ls'" by (cases ls) auto
  obtain n where n: "m p = Some n" "n_next n = q" "q \<noteq> 0" using Cons.prems(1) by (auto simp: next_of_def)
  obtain nq where nq: "m q = Some nq" "lease_of nq = l" using Cons.prems(2) ls by auto
  have "\<not> stop nq" using assms(3) nq Cons.prems(3) ls by simp
  with n nq have "walk_from stop m p = walk_from stop m q"
    by (simp add: walk_from.simps [of stop m p])
  with Cons.IH [of q ls'] Cons.prems ls show ?case by simp
qed

lemma walk_to_match:
  assumes "links (next_of m) p (qs @ q # rs)" "stored m qs = map Some ls"
    "\<And>n. stop n = P (lease_of n)" "\<forall>l \<in> set ls. \<not> P l"
    "m q = Some nq" "stop nq"
  shows "walk_from stop m p = Some (Inr (Before (end_of p qs) q nq))"
  using assms(1,2,4)
proof (induction qs arbitrary: p ls)
  case Nil
  then show ?case using assms(5,6) by (auto simp: walk_from.simps [of stop m p] next_of_def)
next
  case (Cons a qs)
  then obtain l ls' where ls: "ls = l # ls'" by (cases ls) auto
  obtain n where n: "m p = Some n" "n_next n = a" "a \<noteq> 0" using Cons.prems(1) by (auto simp: next_of_def)
  obtain na where na: "m a = Some na" "lease_of na = l" using Cons.prems(2) ls by auto
  have "\<not> stop na" using assms(3) na Cons.prems(3) ls by simp
  with n na have "walk_from stop m p = walk_from stop m a"
    by (simp add: walk_from.simps [of stop m p])
  with Cons.IH [of a ls'] Cons.prems ls show ?case by simp
qed

text \<open>Both cases, for a memory that holds a table.\<close>

lemma walk_cases:
  assumes "holds_table h qs t" "\<And>n. stop n = P (lease_of n)"
  obtains
    (none) "\<forall>l \<in> set (leases t). \<not> P l" "walk stop h = Inr (At_End (end_of (lease_head h) qs))"
  | (match) ls1 l ls2 qs1 q qs2 n where "leases t = ls1 @ l # ls2" "\<forall>l \<in> set ls1. \<not> P l" "P l"
      "qs = qs1 @ q # qs2" "length qs1 = length ls1" "cells h q = Some n" "lease_of n = l"
      "walk stop h = Inr (Before (end_of (lease_head h) qs1) q n)"
proof (cases "\<exists>l \<in> set (leases t). P l")
  case False
  have "walk_from stop (cells h) (lease_head h) = Some (Inr (At_End (end_of (lease_head h) qs)))"
    by (rule walk_to_end [where P = P and ls = "leases t"]) (use assms False in \<open>auto simp: holds_table_def\<close>)
  with none False show ?thesis by (simp add: walk_def)
next
  case True
  obtain ls1 l ls2 where ls: "leases t = ls1 @ l # ls2" "P l" "\<forall>l \<in> set ls1. \<not> P l"
    by (rule split_list_first_propE [OF True])
  have data: "stored (cells h) qs = map Some ls1 @ Some l # map Some ls2"
    using assms(1) ls(1) by (simp add: holds_table_def)
  then obtain qs1 rs where 1: "qs = qs1 @ rs" "stored (cells h) qs1 = map Some ls1"
    "stored (cells h) rs = Some l # map Some ls2"
    unfolding stored_def map_eq_append_conv by metis
  then obtain q qs2 where "rs = q # qs2" by (cases rs) auto
  with 1 have qs: "qs = qs1 @ q # qs2" "stored (cells h) qs1 = map Some ls1" "map_option lease_of (cells h q) = Some l"
    by simp_all
  then obtain n where n: "cells h q = Some n" "lease_of n = l" by auto
  have "walk_from stop (cells h) (lease_head h) = Some (Inr (Before (end_of (lease_head h) qs1) q n))"
    by (rule walk_to_match [where P = P and ls = ls1 and rs = qs2])
      (use assms qs n ls in \<open>auto simp: holds_table_def\<close>)
  then have "walk stop h = Inr (Before (end_of (lease_head h) qs1) q n)" by (simp add: walk_def)
  moreover have "length qs1 = length ls1" using qs(2) by (metis stored_length length_map)
  ultimately show ?thesis using match ls qs(1) n by blast
qed

section \<open>Changes of the memory\<close>

lemma links_cong: "(\<And>x. x \<in> set (p # qs) \<Longrightarrow> f x = g x) \<Longrightarrow> links f p qs = links g p qs"
  by (induction qs arbitrary: p) auto

lemma links_fun_upd: "x \<notin> set (p # qs) \<Longrightarrow> links (f(x := v)) p qs = links f p qs"
  by (induction qs arbitrary: p) auto

lemma links_append_node:
  "links f p qs \<Longrightarrow> distinct (p # qs) \<Longrightarrow> new \<notin> set (p # qs) \<Longrightarrow> new \<noteq> 0 \<Longrightarrow>
   links (f(new := Some 0, end_of p qs := Some new)) p (qs @ [new])"
  by (induction qs arbitrary: p) (auto simp: links_fun_upd)

lemma links_next: "links f p (qs @ q # rs) \<Longrightarrow> f q = Some (case rs of [] \<Rightarrow> 0 | r # _ \<Rightarrow> r)"
  by (induction qs arbitrary: p) (auto split: list.splits)

lemma links_cut:
  "links f p (qs @ q # rs) \<Longrightarrow> distinct (p # qs @ q # rs) \<Longrightarrow>
   links (f(end_of p qs := f q, q := None)) p (qs @ rs)"
proof (induction qs arbitrary: p)
  case Nil
  show ?case
  proof (cases rs)
    case (Cons r rs')
    define g where "g = f(p := f q, q := None)"
    have "links g r rs' = links f r rs'"
      using Nil(2) Cons by (intro links_cong) (auto simp: g_def)
    moreover have "g p = f q" using Nil(2) by (simp add: g_def)
    ultimately have "links g p rs" using Nil(1) Cons by simp
    then show ?thesis by (simp only: g_def append_Nil last.simps(1) if_True refl)
  qed (use Nil in simp)
qed auto

lemma next_of_upd:
  "next_of (m(p \<mapsto> n)) = (next_of m)(p \<mapsto> n_next n)" "next_of (m(p := None)) = (next_of m)(p := None)"
  by (auto simp: next_of_def)

lemma stored_fun_upd: "x \<notin> set qs \<Longrightarrow> stored (m(x := v)) qs = stored m qs"
  by (auto simp: stored_def)

text \<open>A node gets another time: the list keeps its shape.\<close>

lemma stamp_node:
  assumes "holds_table h (qs1 @ q # qs2) t" "leases t = ls1 @ l # ls2" "length qs1 = length ls1"
    "cells h q = Some n" "lease_of n = l"
  shows "holds_table (h\<lparr>cells := (cells h)(q \<mapsto> n\<lparr>n_stamp := now\<rparr>)\<rparr>) (qs1 @ q # qs2)
           (t\<lparr>leases := ls1 @ l\<lparr>time_stamp := now\<rparr> # ls2\<rparr>)"
proof -
  have "next_of ((cells h)(q \<mapsto> n\<lparr>n_stamp := now\<rparr>)) = next_of (cells h)"
    using assms(4) by (auto simp: next_of_def)
  then show ?thesis
    using assms by (auto simp: holds_table_def stored_fun_upd)
qed

lemma stored_next: "m p = Some n \<Longrightarrow> stored (m(p \<mapsto> n\<lparr>n_next := x\<rparr>)) qs = stored m qs"
  by (simp add: stored_def)

text \<open>A fresh node is linked behind the last one.\<close>

lemma append_node:
  assumes "holds_table h qs t" "new \<noteq> 0" "new \<notin> dom (cells h)" "n_next nd = 0"
    and "cells h (end_of (lease_head h) qs) = Some n"
  shows "holds_table (h\<lparr>cells := (cells h)(new \<mapsto> nd, end_of (lease_head h) qs \<mapsto> n\<lparr>n_next := new\<rparr>),
      lease_count := lease_count h + 1\<rparr>) (qs @ [new])
      (t\<lparr>leases := leases t @ [lease_of nd], num_of_lease := num_of_lease t + 1\<rparr>)"
proof -
  let ?hd = "lease_head h" and ?last = "end_of (lease_head h) qs"
  let ?m = "(cells h)(new \<mapsto> nd)"
  have h: "links (next_of (cells h)) ?hd qs" "distinct (?hd # qs)" "stored (cells h) qs = map Some (leases t)"
    "dom (cells h) = set (?hd # qs)" "lease_count h = num_of_lease t"
    using assms(1) by (simp_all add: holds_table_def)
  have new: "new \<notin> set (?hd # qs)" using assms(3) h(4) by simp
  have last: "?last \<in> set (?hd # qs)" by (rule last_in_set) simp
  then have n: "?m ?last = Some n" using new assms(5) by auto
  have "links (next_of (?m(?last \<mapsto> n\<lparr>n_next := new\<rparr>))) ?hd (qs @ [new])"
    using links_append_node [OF h(1,2) new assms(2)] by (simp add: next_of_upd assms(4))
  moreover have "stored (?m(?last \<mapsto> n\<lparr>n_next := new\<rparr>)) (qs @ [new]) = map Some (leases t @ [lease_of nd])"
    unfolding stored_next [of ?m, OF n] using h(3) new by (simp add: stored_fun_upd)
  moreover have "dom (?m(?last \<mapsto> n\<lparr>n_next := new\<rparr>)) = set (?hd # qs @ [new])"
    using h(4) last by auto
  ultimately show ?thesis using h(2,5) new by (auto simp: holds_table_def)
qed

text \<open>A node is bypassed and freed.\<close>

lemma cut_node:
  assumes "holds_table h (qs1 @ q # qs2) t" "leases t = ls1 @ l # ls2" "length qs1 = length ls1"
    and "cells h q = Some nq" "cells h (end_of (lease_head h) qs1) = Some n"
  shows "holds_table (h\<lparr>cells := (cells h)(end_of (lease_head h) qs1 \<mapsto> n\<lparr>n_next := n_next nq\<rparr>, q := None),
      lease_count := lease_count h - 1\<rparr>) (qs1 @ qs2)
      (t\<lparr>leases := ls1 @ ls2, num_of_lease := num_of_lease t - 1\<rparr>)"
proof -
  let ?hd = "lease_head h" and ?p = "end_of (lease_head h) qs1"
  have h: "links (next_of (cells h)) ?hd (qs1 @ q # qs2)" "distinct (?hd # qs1 @ q # qs2)"
    "stored (cells h) (qs1 @ q # qs2) = map Some (ls1 @ l # ls2)"
    "dom (cells h) = set (?hd # qs1 @ q # qs2)" "lease_count h = num_of_lease t"
    using assms(1,2) by (simp_all add: holds_table_def)
  have p: "?p \<in> set (?hd # qs1)" by (rule last_in_set) simp
  have "next_of (cells h) q = Some (n_next nq)" using assms(4) by (simp add: next_of_def)
  then have "links (next_of ((cells h)(?p \<mapsto> n\<lparr>n_next := n_next nq\<rparr>, q := None))) ?hd (qs1 @ qs2)"
    using links_cut [OF h(1,2)] by (simp add: next_of_upd)
  moreover have "stored ((cells h)(?p \<mapsto> n\<lparr>n_next := n_next nq\<rparr>, q := None)) (qs1 @ qs2) = map Some (ls1 @ ls2)"
    using h(2,3) assms(3) stored_next [of "cells h" ?p n "n_next nq", OF assms(5)] by (simp add: stored_fun_upd)
  moreover have "dom ((cells h)(?p \<mapsto> n\<lparr>n_next := n_next nq\<rparr>, q := None)) = set (?hd # qs1 @ qs2)"
    using h(2,4) p by auto
  ultimately show ?thesis using h(2,5) by (simp add: holds_table_def)
qed

section \<open>The operations on the memory implement those of the table\<close>

text \<open>What the operations of the table do, split at the first lease that matches.\<close>

lemma check_leases_split:
  "\<forall>l \<in> set ls. addr l \<noteq> ip \<Longrightarrow> check_leases ls now ip mac = 1"
  "\<forall>l \<in> set ls1. addr l \<noteq> ip \<Longrightarrow> check_leases (ls1 @ ls) now ip mac = check_leases ls now ip mac"
  subgoal by (induction ls) simp_all
  subgoal by (induction ls1) simp_all
  done

lemma renew_mac_split:
  "\<forall>l \<in> set ls. \<not> same_mac (lease_chaddr l) mac \<Longrightarrow> renew_mac ls now mac = None"
  "\<forall>l \<in> set ls1. \<not> same_mac (lease_chaddr l) mac \<Longrightarrow> same_mac (lease_chaddr l) mac \<Longrightarrow>
   renew_mac (ls1 @ l # ls2) now mac = Some (addr l, ls1 @ l\<lparr>time_stamp := now\<rparr> # ls2)"
  subgoal by (induction ls) simp_all
  subgoal by (induction ls1) simp_all
  done

lemma renew_addr_split:
  "\<forall>l \<in> set ls. addr l \<noteq> ip \<Longrightarrow> renew_addr ls now ip = None"
  "\<forall>l \<in> set ls1. addr l \<noteq> ip \<Longrightarrow> addr l = ip \<Longrightarrow>
   renew_addr (ls1 @ l # ls2) now ip = Some (ls1 @ l\<lparr>time_stamp := now\<rparr> # ls2)"
  subgoal by (induction ls) simp_all
  subgoal by (induction ls1) simp_all
  done

lemma remove_lease_split:
  "\<forall>l \<in> set ls. \<not> (addr l = ip \<and> same_mac (lease_chaddr l) mac) \<Longrightarrow> remove_lease ls ip mac = None"
  "\<forall>l \<in> set ls1. \<not> (addr l = ip \<and> same_mac (lease_chaddr l) mac) \<Longrightarrow> addr l = ip \<and> same_mac (lease_chaddr l) mac \<Longrightarrow>
   remove_lease (ls1 @ l # ls2) ip mac = Some (ls1 @ ls2)"
  subgoal by (induction ls) simp_all
  subgoal by (induction ls1) auto
  done

lemma check_ipaddr_mem_eq:
  assumes "holds_table h qs t"
  shows "check_ipaddr_mem h now ip mac = Inr (check_ipaddr t now ip mac)"
proof -
  have p: "(n_addr n = ntohl ip) = (addr (lease_of n) = ntohl ip)" for n by simp
  show ?thesis
  proof (cases rule: walk_cases [OF assms, of "\<lambda>n. n_addr n = ntohl ip" "\<lambda>l. addr l = ntohl ip", OF p,
        case_names none match])
    case none
    then show ?thesis by (simp add: check_ipaddr_mem_def check_ipaddr_def Let_def check_leases_split)
  next
    case (match ls1 l ls2 qs1 q qs2 n)
    have "n_addr n = addr l" "n_stamp n = time_stamp l" "same_mac (n_chaddr n) mac = same_mac (lease_chaddr l) mac"
      using match(7) by auto
    with match show ?thesis by (simp add: check_ipaddr_mem_def check_ipaddr_def Let_def check_leases_split)
  qed
qed

text \<open>The loop over random addresses leaves each walk to the table's \<open>addr_taken\<close>.\<close>

lemma walk_addr:
  assumes "holds_table h qs t"
  shows "if addr_taken (leases t) ip then \<exists>p q l. walk (\<lambda>l. n_addr l = ip) h = Inr (Before p q l)
         else \<exists>p. walk (\<lambda>l. n_addr l = ip) h = Inr (At_End p)"
proof -
  have p: "(n_addr n = ip) = (addr (lease_of n) = ip)" for n by simp
  show ?thesis
    by (rule walk_cases [OF assms, of "\<lambda>n. n_addr n = ip" "\<lambda>l. addr l = ip", OF p])
      (auto simp: addr_taken_iff)
qed

lemma pick_ip_mem_eq:
  assumes "holds_table h qs t"
  shows "pick_ip_mem h rnd k = map_option Inr (pick_ip (leases t) rnd k)"
proof (cases "pick_ip_mem h rnd k")
  case (Some r)
  have "\<exists>a. r = Inr a \<and> pick_ip (leases t) rnd k = Some a"
  proof (rule pick_ip_mem.raw_induct [where P = "\<lambda>h' rnd k r. h' = h \<longrightarrow>
        (\<exists>a. r = Inr a \<and> pick_ip (leases t) rnd k = Some a)", OF _ Some, THEN mp, OF _ refl])
    fix f :: "lease_mem \<Rightarrow> (nat \<Rightarrow> nat) \<Rightarrow> nat \<Rightarrow> u32 res option" and h' rnd k r
    assume IH: "\<And>h' rnd k r. f h' rnd k = Some r \<Longrightarrow> h' = h \<longrightarrow>
        (\<exists>a. r = Inr a \<and> pick_ip (leases t) rnd k = Some a)"
      and eq: "(let num = rnd k mod IP_ADDRESS_POOL_AMOUNT; new_ip = IP_ADDRESS_POOL_START + of_nat num
        in case walk (\<lambda>l. n_addr l = new_ip) h' of Inl f \<Rightarrow> Some (Inl f)
           | Inr (At_End p) \<Rightarrow> Some (Inr new_ip) | Inr (Before p q l) \<Rightarrow> f h' rnd (Suc k)) = Some r"
    show "h' = h \<longrightarrow> (\<exists>a. r = Inr a \<and> pick_ip (leases t) rnd k = Some a)"
      using eq IH [of h rnd "Suc k" r]
        walk_addr [OF assms, of "IP_ADDRESS_POOL_START + of_nat (rnd k mod IP_ADDRESS_POOL_AMOUNT)"]
      by (auto simp: pick_ip_step [of _ rnd k] Let_def split: if_splits)
  qed
  with Some show ?thesis by auto
next
  case None
  have "pick_ip_mem h rnd k = Some (Inr a)" if "pick_ip (leases t) rnd k = Some a" for a
  proof (rule pick_ip.raw_induct [where P = "\<lambda>ls rnd k a. ls = leases t \<longrightarrow>
        pick_ip_mem h rnd k = Some (Inr a)", OF _ that, THEN mp, OF _ refl])
    fix f :: "lease_t list \<Rightarrow> (nat \<Rightarrow> nat) \<Rightarrow> nat \<Rightarrow> u32 option" and ls rnd k a
    assume IH: "\<And>ls rnd k a. f ls rnd k = Some a \<Longrightarrow> ls = leases t \<longrightarrow> pick_ip_mem h rnd k = Some (Inr a)"
      and eq: "(let num = rnd k mod IP_ADDRESS_POOL_AMOUNT; new_ip = IP_ADDRESS_POOL_START + of_nat num
              in if addr_taken ls new_ip then f ls rnd (Suc k) else Some new_ip) = Some a"
    show "ls = leases t \<longrightarrow> pick_ip_mem h rnd k = Some (Inr a)"
      using eq IH [of "leases t" rnd "Suc k" a]
        walk_addr [OF assms, of "IP_ADDRESS_POOL_START + of_nat (rnd k mod IP_ADDRESS_POOL_AMOUNT)"]
      by (auto simp: pick_ip_mem.simps [of h rnd k] Let_def split: if_splits)
  qed
  with None show ?thesis by (cases "pick_ip (leases t) rnd k") auto
qed

lemma allocate_ip_mem_eq:
  assumes "holds_table h qs t"
  shows "(\<exists>f. allocate_ip t now rnd mac = Inl f \<and> allocate_ip_mem h now rnd mac = Inl f) \<or>
    (\<exists>rc ip t' h'. allocate_ip t now rnd mac = Inr (rc, ip, t') \<and>
       allocate_ip_mem h now rnd mac = Inr (rc, ip, h') \<and> holds_table h' qs t')"
proof -
  have p: "same_mac (n_chaddr n) mac = same_mac (lease_chaddr (lease_of n)) mac" for n by simp
  show ?thesis
  proof (cases rule: walk_cases [OF assms, of "\<lambda>n. same_mac (n_chaddr n) mac"
        "\<lambda>l. same_mac (lease_chaddr l) mac", OF p, case_names none match])
    case none
    have "lease_count h = num_of_lease t" using assms by (simp add: holds_table_def)
    then show ?thesis
      using none assms pick_ip_mem_eq [OF assms, of rnd 0]
      by (cases "pick_ip (leases t) rnd 0")
        (auto simp: allocate_ip_def allocate_ip_mem_def renew_mac_split)
  next
    case (match ls1 l ls2 qs1 q qs2 n)
    have "allocate_ip t now rnd mac = Inr (0, Some (n_addr n), t\<lparr>leases := ls1 @ l\<lparr>time_stamp := now\<rparr> # ls2\<rparr>)"
      using match(1-3,7) by (auto simp: allocate_ip_def renew_mac_split)
    moreover have "allocate_ip_mem h now rnd mac =
        Inr (0, Some (n_addr n), h\<lparr>cells := (cells h)(q \<mapsto> n\<lparr>n_stamp := now\<rparr>)\<rparr>)"
      using match(8) by (simp add: allocate_ip_mem_def)
    ultimately show ?thesis using stamp_node [of h qs1 q qs2 t ls1 l ls2 n now] assms match by auto
  qed
qed

lemma add_lease_mem_eq:
  assumes "holds_table h qs t" "new \<noteq> 0" "new \<notin> dom (cells h)" "6 \<le> length mac"
  shows "\<exists>h' qs'. add_lease_mem new junk h now ip mac = Inr h' \<and> holds_table h' qs' (add_lease t now ip mac)"
proof -
  have p: "(n_addr n = ntohl ip) = (addr (lease_of n) = ntohl ip)" for n by simp
  show ?thesis
  proof (cases rule: walk_cases [OF assms(1), of "\<lambda>n. n_addr n = ntohl ip" "\<lambda>l. addr l = ntohl ip", OF p,
        case_names none match])
    case (match ls1 l ls2 qs1 q qs2 n)
    have "add_lease t now ip mac = t\<lparr>leases := ls1 @ l\<lparr>time_stamp := now\<rparr> # ls2\<rparr>"
      using match(1-3) by (simp add: add_lease_def renew_addr_split)
    moreover have "add_lease_mem new junk h now ip mac = Inr (h\<lparr>cells := (cells h)(q \<mapsto> n\<lparr>n_stamp := now\<rparr>)\<rparr>)"
      using match(8) by (simp add: add_lease_mem_def)
    ultimately show ?thesis using stamp_node [of h qs1 q qs2 t ls1 l ls2 n now] assms(1) match by auto
  next
      case none
    let ?node = "\<lparr>n_stamp = now, n_addr = ntohl ip,
      n_chaddr = take HARDWARE_ADDRESS_LENGTH mac @ drop HARDWARE_ADDRESS_LENGTH (n_chaddr junk), n_next = 0\<rparr>"
    let ?hd = "lease_head h" and ?m = "(cells h)(new \<mapsto> ?node)"
    let ?last = "end_of ?hd qs"
    have h: "links (next_of (cells h)) ?hd qs" "stored (cells h) qs = map Some (leases t)"
      "dom (cells h) = set (?hd # qs)"
      using assms(1) by (simp_all add: holds_table_def)
    have new: "new \<notin> set (?hd # qs)" using assms(3) h(3) by simp
    have last: "?last \<in> set (?hd # qs)" by (rule last_in_set) simp
    then obtain n where n: "cells h ?last = Some n" using h(3) by (metis domD)
    have ne: "?last \<noteq> new" using last new by metis
    have "walk_from (\<lambda>l. False) ?m ?hd = Some (Inr (At_End ?last))"
      by (rule walk_to_end [where P = "\<lambda>l. False" and ls = "leases t"])
        (use h(1,2) new in \<open>simp_all add: next_of_upd links_fun_upd stored_fun_upd\<close>)
    then have "add_lease_mem new junk h now ip mac =
        Inr (h\<lparr>cells := ?m(?last \<mapsto> n\<lparr>n_next := new\<rparr>), lease_count := lease_count h + 1\<rparr>)"
      using none n ne by (simp add: add_lease_mem_def Let_def walk_def load_node_def)
    moreover have "add_lease t now ip mac =
        t\<lparr>leases := leases t @ [lease_of ?node], num_of_lease := num_of_lease t + 1\<rparr>"
      using none(1) assms(4) by (simp add: add_lease_def renew_addr_split lease_of_def min_absorb2)
    ultimately show ?thesis using append_node [OF assms(1-3) _ n, of ?node] by auto
  qed
qed

lemma delete_lease_mem_eq:
  assumes "holds_table h qs t"
  shows "\<exists>h' qs'. delete_lease_mem h ip mac = Inr h' \<and> holds_table h' qs' (delete_lease t ip mac)"
proof -
  let ?P = "\<lambda>l. addr l = ntohl ip \<and> same_mac (lease_chaddr l) mac"
  have p: "(n_addr n = ntohl ip \<and> same_mac (n_chaddr n) mac) = ?P (lease_of n)" for n by simp
  show ?thesis
  proof (cases rule: walk_cases [OF assms, of "\<lambda>n. n_addr n = ntohl ip \<and> same_mac (n_chaddr n) mac" ?P, OF p,
        case_names none match])
    case none
    then show ?thesis using assms by (auto simp: delete_lease_mem_def delete_lease_def remove_lease_split)
  next
    case (match ls1 l ls2 qs1 q qs2 nq)
    let ?p = "end_of (lease_head h) qs1"
    have "?p \<in> set (lease_head h # qs1)" by (rule last_in_set) simp
    then have "?p \<in> dom (cells h)" using assms match(4) by (auto simp: holds_table_def)
    then obtain n where n: "cells h ?p = Some n" by blast
    have "delete_lease_mem h ip mac = Inr (h\<lparr>cells := (cells h)(?p \<mapsto> n\<lparr>n_next := n_next nq\<rparr>, q := None),
        lease_count := lease_count h - 1\<rparr>)"
      using match(8) n by (simp add: delete_lease_mem_def load_node_def)
    moreover have "delete_lease t ip mac = t\<lparr>leases := ls1 @ ls2, num_of_lease := num_of_lease t - 1\<rparr>"
      using remove_lease_split(2) [OF match(2,3), of ls2] match(1) by (simp add: delete_lease_def)
    ultimately show ?thesis
      using cut_node [of h qs1 q qs2 t ls1 l ls2 nq n] assms match(1,4-6) n by auto
  qed
qed

text \<open>
  C9: The code on pointers does what the table says. From a memory that holds a table, each
  operation returns without following a dangling pointer or going round in a cycle, with the result
  of the table's operation, and leaves a memory that holds the new table: the list is linked as
  before, the node of a deleted lease is freed, and no node is lost. Only the random search can
  run for ever, when the one on the table does.
\<close>

theorem lease_list_implements_table:
  assumes "holds_table h qs t"
  shows "check_ipaddr_mem h now ip mac = Inr (check_ipaddr t now ip mac) \<and>
    ((\<exists>f. allocate_ip t now rnd mac = Inl f \<and> allocate_ip_mem h now rnd mac = Inl f) \<or>
     (\<exists>rc a t' h'. allocate_ip t now rnd mac = Inr (rc, a, t') \<and>
        allocate_ip_mem h now rnd mac = Inr (rc, a, h') \<and> holds_table h' qs t')) \<and>
    (new \<noteq> 0 \<and> new \<notin> dom (cells h) \<and> 6 \<le> length mac \<longrightarrow>
     (\<exists>h' qs'. add_lease_mem new junk h now ip mac = Inr h' \<and> holds_table h' qs' (add_lease t now ip mac))) \<and>
    (\<exists>h' qs'. delete_lease_mem h ip mac = Inr h' \<and> holds_table h' qs' (delete_lease t ip mac))"
  using check_ipaddr_mem_eq [OF assms] allocate_ip_mem_eq [OF assms] add_lease_mem_eq [OF assms]
    delete_lease_mem_eq [OF assms]
  by (intro conjI impI) (blast | simp)+

lemma setup_holds_table: "holds_table (lease_setup_mem p junk) [] empty_table"
  by (simp add: holds_table_def lease_setup_mem_def empty_table_def next_of_def)

definition blank_node :: node where
  "blank_node = \<lparr>n_stamp = 0, n_addr = 0, n_chaddr = replicate 16 0, n_next = 0\<rparr>"

theorem lease_list_implements_table_witness:
  "\<exists>h1 h2 qs. add_lease_mem 32 blank_node (lease_setup_mem 16 blank_node) 5 (htonl 0xC0A80007) [1, 2, 3, 4, 5, 6] = Inr h1 \<and>
     delete_lease_mem h1 (htonl 0xC0A80007) [1, 2, 3, 4, 5, 6] = Inr h2 \<and>
     check_ipaddr_mem h1 6 (htonl 0xC0A80007) [1, 2, 3, 4, 5, 7] = Inr (-1) \<and> holds_table h2 qs empty_table"
proof -
  let ?mac = "[1, 2, 3, 4, 5, 6] :: u8 list" and ?ip = "htonl 0xC0A80007"
  obtain h1 qs1 where 1: "add_lease_mem 32 blank_node (lease_setup_mem 16 blank_node) 5 ?ip ?mac = Inr h1"
    "holds_table h1 qs1 (add_lease empty_table 5 ?ip ?mac)"
    using lease_list_implements_table [OF setup_holds_table [of 16 blank_node], of 6 ?ip ?mac "\<lambda>k. k" 32 blank_node]
      add_lease_mem_eq [OF setup_holds_table [of 16 blank_node], of 32 ?mac blank_node 5 ?ip]
    by (auto simp: lease_setup_mem_def)
  have t: "check_ipaddr (add_lease empty_table 5 ?ip ?mac) 6 ?ip [1, 2, 3, 4, 5, 7] = -1"
    "delete_lease (add_lease empty_table 5 ?ip ?mac) ?ip ?mac = empty_table"
    by (simp_all add: add_lease_def empty_table_def check_ipaddr_def delete_lease_def same_mac_def)
  show ?thesis
    using 1 lease_list_implements_table [OF 1(2), of 6 ?ip "[1, 2, 3, 4, 5, 7]"]
      lease_list_implements_table [OF 1(2), of 6 ?ip ?mac] t by auto
qed

end
