(* ===== verification/Formats.thy ===== *)
theory Formats
  imports Prelude
begin

text \<open>
  The conversions of \<open>printf\<close> that the programs use for numbers: \<open>%d\<close> in decimal, \<open>%x\<close> in
  hexadecimal with small letters, and \<open>%04x\<close> and \<open>%02x\<close>, which put zeros in front.
\<close>

fun show_nat :: "nat \<Rightarrow> string" where
  "show_nat n = (if n < 10 then [char_of (48 + n)] else show_nat (n div 10) @ [char_of (48 + n mod 10)])"

definition show_int :: "int \<Rightarrow> string" where
  "show_int i = (if i < 0 then CHR ''-'' # show_nat (nat (- i)) else show_nat (nat i))"

definition hex_digit :: "nat \<Rightarrow> char" where
  "hex_digit d = ''0123456789abcdef'' ! d"

fun show_hex :: "nat \<Rightarrow> string" where
  "show_hex n = (if n < 16 then [hex_digit n] else show_hex (n div 16) @ [hex_digit (n mod 16)])"

declare show_nat.simps [simp del] show_hex.simps [simp del]

definition padded :: "nat \<Rightarrow> string \<Rightarrow> string" where
  "padded w t = replicate (w - length t) (CHR ''0'') @ t"

text \<open>A digit is read back as its value.\<close>

definition digit_value :: "char \<Rightarrow> nat" where
  "digit_value c = (if of_char c < (58 :: nat) then of_char c - 48 else of_char c - 87)"

lemma digit_value_hex [simp]: "d < 16 \<Longrightarrow> digit_value (hex_digit d) = d"
proof -
  have "\<forall>d \<in> set [0..<16]. digit_value (hex_digit d) = d" by code_simp
  then show "d < 16 \<Longrightarrow> digit_value (hex_digit d) = d" by simp
qed

text \<open>A byte has two digits.\<close>

lemma padded_byte:
  "padded 2 (show_hex (unat (b :: u8))) = [hex_digit (unat b div 16), hex_digit (unat b mod 16)]"
proof -
  have "unat b div 16 < 16" using unat_u8_less [of b] by simp
  moreover have "hex_digit 0 = CHR ''0''" by (simp add: hex_digit_def)
  ultimately show ?thesis
    by (simp add: padded_def show_hex.simps [of "unat b"] show_hex.simps [of "unat b div 16"])
qed

end
