(* ===== verification/Simple_Trace.thy ===== *)
theory Simple_Trace
  imports Formats
begin

text \<open>
  What the stand-alone client prints of its work (\<open>src/simple-dhcp-client.c\<close>): the levels of
  \<open>PRINT\<close>, the dump of a received frame, and the reading of the hardware address.
\<close>

section \<open>Levels\<close>

datatype verbose_level = VERBOSE_LEVEL_NONE | VERBOSE_LEVEL_ERROR | VERBOSE_LEVEL_INFO | VERBOSE_LEVEL_DEBUG

text \<open>The values of the enumeration order the levels.\<close>

fun level_value :: "verbose_level \<Rightarrow> nat" where
  "level_value VERBOSE_LEVEL_NONE = 0"
| "level_value VERBOSE_LEVEL_ERROR = 1"
| "level_value VERBOSE_LEVEL_INFO = 2"
| "level_value VERBOSE_LEVEL_DEBUG = 3"

instantiation verbose_level :: linorder
begin

definition less_eq_verbose_level :: "verbose_level \<Rightarrow> verbose_level \<Rightarrow> bool" where
  "less_eq_verbose_level a b \<longleftrightarrow> level_value a \<le> level_value b"

definition less_verbose_level :: "verbose_level \<Rightarrow> verbose_level \<Rightarrow> bool" where
  "less_verbose_level a b \<longleftrightarrow> level_value a < level_value b"

instance
proof
  fix a b :: verbose_level
  assume "a \<le> b" "b \<le> a"
  then show "a = b" by (cases a; cases b) (simp_all add: less_eq_verbose_level_def)
qed (auto simp: less_eq_verbose_level_def less_verbose_level_def)

end

text \<open>
  \<open>PRINT\<close>: \<open>place\<close> is the place in the source that a message of the level DEBUG is preceded by.
\<close>

definition PRINT :: "verbose_level \<Rightarrow> verbose_level \<Rightarrow> string \<Rightarrow> string \<Rightarrow> string" where
  "PRINT program_verbose_level verbose_level place message =
     (if verbose_level \<le> program_verbose_level
      then (if verbose_level = VERBOSE_LEVEL_DEBUG then place @ ''::'' else []) @ message @ ''\<newline>''
      else [])"

section \<open>The dump of a frame\<close>

text \<open>The bytes are read one by one from the captured part of the frame.\<close>

fun print_packet_from :: "nat \<Rightarrow> nat \<Rightarrow> u8 list \<Rightarrow> string res" where
  "print_packet_from i 0 data = Inr []"
| "print_packet_from i (Suc n) data =
     bind_res (load8 data (Some i)) (\<lambda>b.
     bind_res (print_packet_from (Suc i) n data) (\<lambda>t.
       Inr ((if i mod 16 = 0 then ''\<newline> '' @ padded 4 (show_hex i) @ '' :: '' else []) @
            padded 2 (show_hex (unat b)) @ '' '' @ t)))"

definition print_packet :: "u8 list \<Rightarrow> int \<Rightarrow> string res" where
  "print_packet data len = print_packet_from 0 (nat len) data"

text \<open>
  What \<open>ether_input\<close> prints: \<open>len\<close> is \<open>header->len\<close>, the length of the frame on the wire, of which
  \<open>frame\<close> is the captured part.
\<close>

definition ether_input_trace :: "verbose_level \<Rightarrow> string \<Rightarrow> int \<Rightarrow> u8 list \<Rightarrow> string res" where
  "ether_input_trace program_verbose_level place len frame =
     bind_res (if program_verbose_level = VERBOSE_LEVEL_DEBUG then print_packet frame len else Inr []) (\<lambda>dump.
       Inr (PRINT program_verbose_level VERBOSE_LEVEL_DEBUG place
              (''Received a frame with length of ['' @ show_int len @ '']'') @ dump))"

section \<open>The hardware address\<close>

text \<open>
  The copy of the device's name is the one of \<open>copy_ifr_name\<close>; \<open>ioctl\<close> answers with \<open>sa_data\<close>.
\<close>

definition get_mac_address_simple ::
    "(string \<Rightarrow> u8 list option) \<Rightarrow> string \<Rightarrow> u8 list \<Rightarrow> (int \<times> u8 list) res" where
  "get_mac_address_simple siocgifhwaddr dev_name mac =
     bind_res (copy_ifr_name dev_name) (\<lambda>ifr_name.
      case siocgifhwaddr ifr_name of
        None \<Rightarrow> Inr (-1, mac)
      | Some sa_data \<Rightarrow> bind_res (store_bytes mac 0 (take 6 sa_data)) (\<lambda>mac'. Inr (0, mac')))"

section \<open>Properties\<close>

text \<open>
  The hardware address is the first six of the fourteen bytes of \<open>sa_data\<close>; the name of a device
  has at most 15 characters, one more overflows \<open>ifr_name\<close>.
\<close>

lemma get_mac_address_six_bytes:
  assumes "length mac = 6" "siocgifhwaddr dev_name = Some sa_data" "length sa_data = 14"
  shows "get_mac_address_simple siocgifhwaddr dev_name mac =
    (if length dev_name \<le> 15 then Inr (0, take 6 sa_data) else Inl OutOfBounds)"
  using assms by (simp add: get_mac_address_simple_def copy_ifr_name_def store_bytes_def)

text \<open>Reading the bytes of a dump, of which the offset of the first byte is given.\<close>

fun read_dump :: "nat \<Rightarrow> nat \<Rightarrow> string \<Rightarrow> u8 list" where
  "read_dump i 0 t = []"
| "read_dump i (Suc n) t =
     (let t' = (if i mod 16 = 0 then drop (6 + length (padded 4 (show_hex i))) t else t)
      in of_nat (16 * digit_value (t' ! 0) + digit_value (t' ! 1)) # read_dump (Suc i) n (drop 3 t'))"

lemma of_nat_digits: "(of_nat (16 * (unat b div 16) + unat b mod 16) :: u8) = b"
  by (simp only: mult_div_mod_eq) simp

lemma drop_row: "drop (6 + length h) (''\<newline> '' @ h @ '' :: '' @ body) = body"
proof -
  have "6 + length h = length (''\<newline> '' @ h @ '' :: '')" by simp
  moreover have "drop (length u) (u @ body) = body" for u :: string by simp
  ultimately show ?thesis by (metis append.assoc)
qed

lemma print_packet_from_read:
  "i + n \<le> length data \<Longrightarrow>
   \<exists>t. print_packet_from i n data = Inr t \<and> read_dump i n t = take n (drop i data)"
proof (induction i n data rule: print_packet_from.induct)
  case (2 i n data)
  then obtain t where t: "print_packet_from (Suc i) n data = Inr t" "read_dump (Suc i) n t = take n (drop (Suc i) data)"
    by (auto simp: load8_def)
  let ?b = "data ! i"
  let ?body = "hex_digit (unat ?b div 16) # hex_digit (unat ?b mod 16) # CHR '' '' # t"
  have "print_packet_from i (Suc n) data =
      Inr ((if i mod 16 = 0 then ''\<newline> '' @ padded 4 (show_hex i) @ '' :: '' else []) @ ?body)"
    using "2.prems" t(1) by (simp add: load8_def padded_byte)
  moreover have "take (Suc n) (drop i data) = ?b # take n (drop (Suc i) data)"
    using "2.prems" by (simp flip: Cons_nth_drop_Suc)
  moreover have "unat ?b div 16 < 16" using unat_u8_less [of ?b] by simp
  ultimately show ?case
    using t(2) of_nat_digits [of ?b] drop_row [of "padded 4 (show_hex i)" ?body]
    by (auto simp: Let_def simp del: of_nat_add of_nat_mult)
qed simp

lemma print_packet_from_overrun:
  "length data < i + n \<Longrightarrow> i \<le> length data \<Longrightarrow> print_packet_from i n data = Inl OutOfBounds"
proof (induction i n data rule: print_packet_from.induct)
  case (2 i n data)
  then show ?case by (cases "i < length data") (auto simp: load8_def)
qed simp

text \<open>
  C40: At the level DEBUG, which the program starts with, a frame that was captured completely is
  traced and its bytes can be read back from the dump; but a frame of which only a part was
  captured is read past its end, because the dump takes the length on the wire. At every lower level
  nothing is printed and nothing is read.
\<close>

theorem frame_trace_reads_back:
  assumes "0 \<le> len"
  shows "if level < VERBOSE_LEVEL_DEBUG then ether_input_trace level place len frame = Inr []
    else if nat len \<le> length frame
    then \<exists>dump. ether_input_trace level place len frame =
        Inr (place @ ''::Received a frame with length of ['' @ show_int len @ '']\<newline>'' @ dump) \<and>
      read_dump 0 (nat len) dump = take (nat len) frame
    else ether_input_trace level place len frame = Inl OutOfBounds"
proof (cases "level = VERBOSE_LEVEL_DEBUG")
  case True
  then show ?thesis
    using print_packet_from_read [of 0 "nat len" frame] print_packet_from_overrun [of frame 0 "nat len"]
    by (auto simp: ether_input_trace_def print_packet_def PRINT_def)
next
  case False
  then show ?thesis
    by (cases level) (simp_all add: ether_input_trace_def PRINT_def less_verbose_level_def less_eq_verbose_level_def)
qed

theorem frame_trace_reads_back_witness:
  "ether_input_trace VERBOSE_LEVEL_DEBUG ''client'' 9000 (replicate 8192 0) = Inl OutOfBounds \<and>
   (\<exists>dump. ether_input_trace VERBOSE_LEVEL_DEBUG ''client'' 3 [1, 2, 255] =
      Inr (''client::Received a frame with length of ['' @ show_int 3 @ '']\<newline>'' @ dump) \<and> read_dump 0 3 dump = [1, 2, 255])"
  using frame_trace_reads_back [of 9000 VERBOSE_LEVEL_DEBUG "''client''" "replicate 8192 0"]
    frame_trace_reads_back [of 3 VERBOSE_LEVEL_DEBUG "''client''" "[1, 2, 255]"]
  by simp

end
