(* ===== verification/Simple_Client.thy ===== *)
theory Simple_Client
  imports Dhcp_Packet Simple_Trace
begin

text \<open>
  The stand-alone client \<open>src/simple-dhcp-client.c\<close>, which builds one Ethernet frame with a DHCP
  DISCOVER, from the DHCP options outwards to the Ethernet header, and then reads frames until an
  offer arrives. Memory is a list of bytes; the packet buffer is the caller's, with arbitrary
  contents. The packet capture library is the parameter of the main program: whether the device
  opens, and the frames it delivers, each with its length on the wire (\<open>header->len\<close>) and the
  captured bytes. What is printed is in \<open>Simple_Trace\<close>.
\<close>

section \<open>Constants and sizes\<close>

abbreviation (input) ETHERTYPE_IP :: u16 where "ETHERTYPE_IP \<equiv> 0x0800"
abbreviation (input) IPPROTO_UDP :: u8 where "IPPROTO_UDP \<equiv> 17"
abbreviation (input) ETHER_ADDR_LEN :: nat where "ETHER_ADDR_LEN \<equiv> 6"
abbreviation (input) DHCP_CHADDR_LEN :: nat where "DHCP_CHADDR_LEN \<equiv> 16"
abbreviation (input) DHCP_OPTION_DISCOVER :: u8 where "DHCP_OPTION_DISCOVER \<equiv> 1"
abbreviation (input) DHCP_OPTION_OFFER :: u8 where "DHCP_OPTION_OFFER \<equiv> 2"
abbreviation (input) MESSAGE_TYPE_DHCP :: u8 where "MESSAGE_TYPE_DHCP \<equiv> 53"
abbreviation (input) MESSAGE_TYPE_REQ_IP :: u8 where "MESSAGE_TYPE_REQ_IP \<equiv> 50"
abbreviation (input) MESSAGE_TYPE_PARAMETER_REQ_LIST :: u8 where "MESSAGE_TYPE_PARAMETER_REQ_LIST \<equiv> 55"
abbreviation (input) MESSAGE_TYPE_END :: u8 where "MESSAGE_TYPE_END \<equiv> 255"

abbreviation (input) sizeof_ether_header :: nat where "sizeof_ether_header \<equiv> 14"
abbreviation (input) sizeof_ip :: nat where "sizeof_ip \<equiv> 20"
abbreviation (input) sizeof_udphdr :: nat where "sizeof_udphdr \<equiv> 8"
abbreviation (input) sizeof_dhcp :: nat where "sizeof_dhcp \<equiv> 240"

section \<open>The Internet checksum\<close>

text \<open>
  \<open>in_cksum\<close>: the words are read in the host's order into a 32-bit accumulator; \<open>sum\<close> is signed,
  so its shifts are arithmetic.
\<close>

fun cksum_sum :: "u8 list \<Rightarrow> u32 \<Rightarrow> u32" where
  "cksum_sum [] acc = acc"
| "cksum_sum [b] acc = acc + ucast b"
| "cksum_sum (a # b # w) acc = cksum_sum w (acc + ucast (word_le16 [a, b]))"

definition in_cksum :: "u8 list \<Rightarrow> u16" where
  "in_cksum addr =
     (let s = cksum_sum addr 0;
          s = signed_drop_bit 16 s + (s AND 0xFFFF);
          s = s + signed_drop_bit 16 s
      in NOT (ucast s))"

section \<open>Output\<close>

text \<open>Each layer writes its header into the buffer and adds its size to the length.\<close>

definition fill_dhcp_option_simple :: "u8 list \<Rightarrow> nat \<Rightarrow> u8 \<Rightarrow> u8 list \<Rightarrow> u8 \<Rightarrow> (u8 list \<times> int) res" where
  "fill_dhcp_option_simple packet off code data len =
     (if length data < unat len then Inl OutOfBounds
      else bind_res (store_bytes packet off (code # len # take (unat len) data))
        (\<lambda>packet'. Inr (packet', uint len + 2)))"

definition fill_dhcp_discovery_options :: "nat \<Rightarrow> u8 list \<Rightarrow> (u8 list \<times> int) res" where
  "fill_dhcp_discovery_options dhcp packet =
     (let bp_options = dhcp + sizeof_dhcp in
      bind_res (fill_dhcp_option_simple packet bp_options MESSAGE_TYPE_DHCP [DHCP_OPTION_DISCOVER] 1)
        (\<lambda>(p1, n1). let len = n1 in
      bind_res (fill_dhcp_option_simple p1 (bp_options + nat len) MESSAGE_TYPE_REQ_IP (bytes_le32 (htonl 0xC0A8010A)) 4)
        (\<lambda>(p2, n2). let len = len + n2 in
      bind_res (fill_dhcp_option_simple p2 (bp_options + nat len) MESSAGE_TYPE_PARAMETER_REQ_LIST [1, 3, 6, 15] 4)
        (\<lambda>(p3, n3). let len = len + n3 in
      bind_res (fill_dhcp_option_simple p3 (bp_options + nat len) MESSAGE_TYPE_END [0] 1)
        (\<lambda>(p4, n4). Inr (p4, len + n4))))))"

text \<open>The \<open>memcpy\<close> of \<open>DHCP_CHADDR_LEN\<close> bytes reads that many bytes at \<open>mac\<close>.\<close>

definition dhcp_output :: "nat \<Rightarrow> u8 list \<Rightarrow> int \<Rightarrow> u8 list \<Rightarrow> (u8 list \<times> int) res" where
  "dhcp_output dhcp mac len packet =
     bind_res (store_bytes packet dhcp (replicate sizeof_dhcp 0)) (\<lambda>p1.
     bind_res (store_bytes p1 dhcp [1, 1, 6]) (\<lambda>p2.
     bind_res (load_bytes mac (Some 0) DHCP_CHADDR_LEN) (\<lambda>chaddr.
     bind_res (store_bytes p2 (dhcp + 28) chaddr) (\<lambda>p3.
     bind_res (store_bytes p3 (dhcp + 236) (bytes_le32 (htonl DHCP_MAGIC_COOKIE))) (\<lambda>p4.
       Inr (p4, len + int sizeof_dhcp))))))"

definition udp_output :: "nat \<Rightarrow> int \<Rightarrow> u8 list \<Rightarrow> (u8 list \<times> int) res" where
  "udp_output udp_header len packet =
     (let len = (if odd len then len + 1 else len) + int sizeof_udphdr in
      bind_res (store_bytes packet udp_header
        (bytes_le16 (htons DHCP_CLIENT_PORT) @ bytes_le16 (htons DHCP_SERVER_PORT) @
         bytes_le16 (htons (of_int len)) @ bytes_le16 0))
        (\<lambda>p. Inr (p, len)))"

text \<open>
  The header is written with a zero checksum, then the checksum of its 20 bytes into the field.
  \<open>ip_hl\<close> and \<open>ip_v\<close> are the low and the high half of the first byte; \<open>ip_id\<close> is \<open>htonl(0xffff)\<close>
  cut to 16 bits.
\<close>

definition ip_output :: "nat \<Rightarrow> int \<Rightarrow> u8 list \<Rightarrow> (u8 list \<times> int) res" where
  "ip_output ip_header len packet =
     (let len = len + int sizeof_ip in
      bind_res (store_bytes packet ip_header
        ([0x45, 0x10] @ bytes_le16 (htons (of_int len)) @ bytes_le16 (ucast (htonl 0xFFFF)) @
         bytes_le16 0 @ [16, IPPROTO_UDP] @ bytes_le16 0 @ bytes_le32 0 @ bytes_le32 0xFFFFFFFF)) (\<lambda>p1.
      bind_res (load_bytes p1 (Some ip_header) sizeof_ip) (\<lambda>h.
      bind_res (store_bytes p1 (ip_header + 10) (bytes_le16 (in_cksum h))) (\<lambda>p2.
        Inr (p2, len)))))"

text \<open>The frame handed to \<open>pcap_inject\<close>.\<close>

definition ether_output :: "u8 list \<Rightarrow> int \<Rightarrow> u8 list \<Rightarrow> u8 list res" where
  "ether_output mac len frame =
     bind_res (load_bytes mac (Some 0) ETHER_ADDR_LEN) (\<lambda>shost.
     bind_res (store_bytes frame 6 shost) (\<lambda>f1.
     bind_res (store_bytes f1 0 (replicate ETHER_ADDR_LEN (-1))) (\<lambda>f2.
     bind_res (store_bytes f2 12 (bytes_le16 (htons ETHERTYPE_IP))) (\<lambda>f3.
       load_bytes f3 (Some 0) (nat (len + int sizeof_ether_header))))))"

definition dhcp_discovery :: "u8 list \<Rightarrow> u8 list \<Rightarrow> u8 list res" where
  "dhcp_discovery mac packet =
     (let ip_header = sizeof_ether_header;
          udp_header = ip_header + sizeof_ip;
          dhcp = udp_header + sizeof_udphdr in
      bind_res (fill_dhcp_discovery_options dhcp packet) (\<lambda>(p1, len).
      bind_res (dhcp_output dhcp mac len p1) (\<lambda>(p2, len).
      bind_res (udp_output udp_header len p2) (\<lambda>(p3, len).
      bind_res (ip_output ip_header len p3) (\<lambda>(p4, len).
        ether_output mac len p4)))))"

section \<open>Input\<close>

text \<open>
  The handlers of a received frame, layer by layer; each reads at fixed offsets. The result is the
  address of the offer, if the frame is one; then the program leaves the capture loop.
\<close>

definition load16 :: "u8 list \<Rightarrow> nat \<Rightarrow> u16 res" where
  "load16 m i = bind_res (load_bytes m (Some i) 2) (\<lambda>bs. Inr (word_le16 bs))"

definition dhcp_input :: "u8 list \<Rightarrow> nat \<Rightarrow> u32 option res" where
  "dhcp_input frame dhcp =
     bind_res (load8 frame (Some dhcp)) (\<lambda>op.
       if op \<noteq> DHCP_OPTION_OFFER then Inr None
       else bind_res (load32 frame (Some (dhcp + 16))) (\<lambda>y. Inr (Some (ntohl y))))"

definition udp_input :: "u8 list \<Rightarrow> nat \<Rightarrow> u32 option res" where
  "udp_input frame udp_packet =
     bind_res (load16 frame udp_packet) (\<lambda>sport.
       if ntohs sport = DHCP_SERVER_PORT then dhcp_input frame (udp_packet + sizeof_udphdr)
       else Inr None)"

definition ip_input :: "u8 list \<Rightarrow> nat \<Rightarrow> u32 option res" where
  "ip_input frame ip_packet =
     bind_res (load8 frame (Some (ip_packet + 9))) (\<lambda>ip_p.
       if ip_p = IPPROTO_UDP then udp_input frame (ip_packet + sizeof_ip) else Inr None)"

text \<open>\<open>ether_input\<close> traces the frame first, at the program's level, and reads it for the dump.\<close>

definition ether_input :: "verbose_level \<Rightarrow> int \<times> u8 list \<Rightarrow> (string \<times> u32 option) res" where
  "ether_input program_verbose_level packet =
     (let (len, frame) = packet in
      bind_res (ether_input_trace program_verbose_level ''ether_input'' len frame) (\<lambda>text.
      bind_res (load16 frame 12) (\<lambda>ether_type.
      bind_res (if htons ether_type = ETHERTYPE_IP then ip_input frame sizeof_ether_header else Inr None) (\<lambda>r.
        Inr (text, r)))))"

text \<open>
  \<open>pcap_loop\<close> hands over the frames until one is an offer; the list is all that ever arrives, and
  after it the loop waits for ever.
\<close>

fun listen :: "verbose_level \<Rightarrow> (int \<times> u8 list) list \<Rightarrow> u32 res" where
  "listen level [] = Inl Diverges"
| "listen level (f # fs) =
     bind_res (ether_input level f) (\<lambda>(text, r). case r of None \<Rightarrow> listen level fs | Some a \<Rightarrow> Inr a)"

text \<open>The four numbers printed of the address, by shifts of the 32-bit word.\<close>

definition dotted :: "u32 \<Rightarrow> nat list" where
  "dotted a = map unat [drop_bit 24 a, drop_bit 24 (push_bit 8 a), drop_bit 24 (push_bit 16 a),
                        drop_bit 24 (push_bit 24 a)]"

text \<open>The outcome of a run: the exit status, the frame sent and the address printed.\<close>

record run_result =
  status :: int
  injected :: "u8 list option"
  got_ip :: "nat list option"

text \<open>
  \<open>main\<close>: the level is the one \<open>program_verbose_level\<close> starts with and keeps. \<open>mac\<close> is the array of
  the hardware address, and \<open>packet\<close> the one of the frame, before anything is written to them.
\<close>

definition main_simple ::
    "string list \<Rightarrow> (string \<Rightarrow> u8 list option) \<Rightarrow> bool \<Rightarrow> u8 list \<Rightarrow> u8 list \<Rightarrow> (int \<times> u8 list) list \<Rightarrow> run_result res" where
  "main_simple argv siocgifhwaddr opened mac packet frames =
     (if length argv < 2 \<or> argv ! 1 = ''-h'' then Inr \<lparr>status = 0, injected = None, got_ip = None\<rparr>
      else bind_res (get_mac_address_simple siocgifhwaddr (argv ! 1) mac) (\<lambda>(result, mac).
        if result \<noteq> 0 then Inr \<lparr>status = -1, injected = None, got_ip = None\<rparr>
        else if \<not> opened then Inr \<lparr>status = -1, injected = None, got_ip = None\<rparr>
        else bind_res (dhcp_discovery mac packet) (\<lambda>frame.
          bind_res (listen VERBOSE_LEVEL_DEBUG frames) (\<lambda>a.
            Inr \<lparr>status = 0, injected = Some frame, got_ip = Some (dotted a)\<rparr>))))"

end
