(* ===== verification/Simple_Properties.thy ===== *)
theory Simple_Properties
  imports Simple_Client
begin

text \<open>
  The properties of the stand-alone client: its checksum is the Internet checksum, the frame it
  sends, and the frames it takes for an offer.
\<close>

section \<open>The checksum\<close>

text \<open>The sum of the 16-bit words as a number, and the folding of a number into 16 bits.\<close>

fun words_sum :: "u8 list \<Rightarrow> nat" where
  "words_sum [] = 0"
| "words_sum [b] = unat b"
| "words_sum (a # b # w) = unat (word_le16 [a, b]) + words_sum w"

definition fold16 :: "nat \<Rightarrow> nat" where
  "fold16 s = (let t = s div 65536 + s mod 65536 in (t + t div 65536) mod 65536)"

lemma unat_ucast_u32:
  "unat (ucast (b :: u8) :: u32) = unat b" "unat (ucast (x :: u16) :: u32) = unat x"
  using unat_u8_less [of b] unat_u16_less [of x]
  by (simp_all add: unsigned_ucast_eq take_bit_eq_mod)

lemma words_sum_bound: "words_sum w \<le> 65535 * ((length w + 1) div 2)"
proof (induction w rule: words_sum.induct)
  case (2 b)
  then show ?case using unat_u8_less [of b] by simp
next
  case (3 a b w)
  then show ?case using unat_u16_less [of "word_le16 [a, b]"] by simp
qed simp

lemma cksum_sum_nat:
  "unat s + words_sum w < 2 ^ 32 \<Longrightarrow> unat (cksum_sum w s) = unat s + words_sum w"
proof (induction w s rule: cksum_sum.induct)
  case (2 b s)
  then show ?case by (simp add: unat_word_ariths unat_ucast_u32)
next
  case (3 a b w s)
  have "unat (s + ucast (word_le16 [a, b])) = unat s + unat (word_le16 [a, b])"
    using "3.prems" by (simp add: unat_word_ariths unat_ucast_u32)
  with 3 show ?case by simp
qed simp

lemma signed_drop_16:
  assumes "unat (s :: u32) < 2 ^ 31"
  shows "unat (signed_drop_bit 16 s) = unat s div 65536"
proof -
  have "bit (unat s) 31 = bit s 31" by (simp add: bit_unsigned_iff)
  then have "\<not> bit s 31" using assms by (simp add: bit_iff_odd)
  then have "signed_drop_bit 16 s = drop_bit 16 s"
    by (auto simp: bit_eq_iff bit_simps min_def dest: bit_imp_le_length)
  then show ?thesis by (simp add: drop_bit_eq_div unat_div)
qed

lemma unat_low_16: "unat ((s :: u32) AND 0xFFFF) = unat s mod 65536"
proof -
  have "s AND 0xFFFF = take_bit 16 s" by (simp add: take_bit_eq_mask mask_eq_exp_minus_1)
  then show ?thesis by (simp add: unsigned_take_bit_eq take_bit_eq_mod unat_mod)
qed

lemma unat_not_u16: "unat (NOT (x :: u16)) = 65535 - unat x"
proof -
  have "NOT x = - 1 - x" by (simp add: not_eq_complement)
  moreover have "x \<le> - 1" "unat (- 1 :: u16) = 65535" by (simp_all add: unsigned_minus_1_eq_mask mask_eq_exp_minus_1)
  ultimately show ?thesis by (simp add: unat_sub)
qed

lemma in_cksum_fold:
  assumes "length w \<le> 65534"
  shows "unat (in_cksum w) = 65535 - fold16 (words_sum w)"
proof -
  let ?s = "cksum_sum w 0"
  let ?t = "signed_drop_bit 16 ?s + (?s AND 0xFFFF)"
  let ?n = "words_sum w"
  have "(length w + 1) div 2 \<le> 32767" using assms by simp
  then have n: "?n < 2 ^ 31" using words_sum_bound [of w] by (simp add: le_less_trans)
  then have s: "unat ?s = ?n" using cksum_sum_nat [of 0 w] by simp
  have t: "unat ?t = ?n div 65536 + ?n mod 65536"
    using n by (simp add: unat_word_ariths signed_drop_16 unat_low_16 s)
  then have "unat ?t < 2 ^ 31" using n by simp
  then have "unat (?t + signed_drop_bit 16 ?t) = unat ?t + unat ?t div 65536"
    by (simp add: unat_word_ariths signed_drop_16)
  then have "unat (ucast (?t + signed_drop_bit 16 ?t) :: u16) = fold16 ?n"
    by (simp add: unsigned_ucast_eq take_bit_eq_mod fold16_def t Let_def)
  then show ?thesis by (simp add: in_cksum_def Let_def unat_not_u16)
qed

text \<open>Folding keeps the residue modulo 65535, and yields 65535 for a positive multiple of it.\<close>

lemma fold16_mod:
  assumes "s < 2 ^ 31"
  shows "fold16 s mod 65535 = s mod 65535"
proof -
  define t where "t = s div 65536 + s mod 65536"
  have "s = 65535 * (s div 65536) + t" unfolding t_def by (simp add: mult_div_mod_eq [symmetric])
  then have st: "s mod 65535 = t mod 65535" by (metis mod_mult_self4)
  have t: "t < 131071" using assms by (simp add: t_def less_mult_imp_div_less add_less_mono)
  have "fold16 s mod 65535 = t mod 65535"
  proof (cases "t < 65536")
    case True
    then show ?thesis by (simp add: fold16_def Let_def flip: t_def)
  next
    case False
    with t have "t div 65536 = 1" by simp
    with False t have "fold16 s = t - 65535" by (simp add: fold16_def Let_def le_mod_geq flip: t_def)
    with False show ?thesis by (simp add: le_mod_geq)
  qed
  with st show ?thesis by simp
qed

lemma fold16_multiple:
  assumes "s < 2 ^ 32 - 1" "65535 dvd s" "0 < s"
  shows "fold16 s = 65535"
proof -
  obtain k where k: "s = 65535 * k" using assms(2) by (rule dvdE)
  then have "1 \<le> k" "k \<le> 65536" using assms(1,3) by auto
  then obtain j where j: "k = Suc j" "j \<le> 65535" by (cases k) auto
  have d: "s div 65536 = j" by (rule div_nat_eqI) (use j in \<open>simp_all add: k\<close>)
  moreover have "s mod 65536 = s - j * 65536" using minus_div_mult_eq_mod [of s 65536] d by simp
  moreover have "s - j * 65536 = 65535 - j" using j by (simp add: k)
  ultimately show ?thesis using j(2) by (simp add: fold16_def)
qed

lemma words_sum_append: "even (length u) \<Longrightarrow> words_sum (u @ w) = words_sum u + words_sum w"
  by (induction u rule: words_sum.induct) auto

lemma word_le16_zero: "word_le16 [0, 0] = 0"
  by (simp add: word_le16_def)

lemma cksum_stored:
  assumes "even (length u)" "length u + length w \<le> 65532"
  shows "in_cksum (u @ bytes_le16 (in_cksum (u @ [0, 0] @ w)) @ w) = 0"
proof -
  let ?n = "words_sum (u @ [0, 0] @ w)"
  let ?c = "in_cksum (u @ [0, 0] @ w)"
  have split: "words_sum (u @ [a, b] @ w) = words_sum u + unat (word_le16 [a, b]) + words_sum w" for a b
    using words_sum_append [OF assms(1), of "[a, b] @ w"] by simp
  have "(length (u @ [0, 0 :: u8] @ w) + 1) div 2 \<le> 32767" using assms(2) by simp
  then have n: "?n < 2 ^ 31" using words_sum_bound [of "u @ [0, 0] @ w"] by (simp add: le_less_trans)
  have c: "unat ?c = 65535 - fold16 ?n" by (rule in_cksum_fold) (use assms(2) in simp)
  have f: "fold16 ?n < 65536" by (simp add: fold16_def Let_def)
  let ?m = "words_sum (u @ bytes_le16 ?c @ w)"
  have m: "?m = ?n + (65535 - fold16 ?n)"
    using split [of 0 0] split [of "ucast ?c" "ucast (drop_bit 8 ?c)"] word_le16_bytes [of ?c] c
    by (simp add: bytes_le16_def word_le16_zero)
  have "(int 65535) dvd int ?n - int (fold16 ?n)"
    using fold16_mod [OF n] by (metis mod_eq_dvd_iff zmod_int)
  moreover have "int ?m = (int ?n - int (fold16 ?n)) + int 65535"
    unfolding m using f by (simp only: of_nat_add of_nat_diff less_Suc_eq_le [symmetric])
  ultimately have "(int 65535) dvd int ?m" by (simp only: dvd_add dvd_refl)
  then have dvd: "65535 dvd ?m" by (simp only: int_dvd_int_iff)
  have "0 < ?n + (65535 - fold16 ?n)" by (cases "?n = 0") (simp_all add: fold16_def)
  then have "0 < ?m" by (simp only: m)
  with dvd n f have "fold16 ?m = 65535" by (intro fold16_multiple) (simp_all only: m, simp_all)
  then have "unat (in_cksum (u @ bytes_le16 ?c @ w)) = 0"
    using in_cksum_fold [of "u @ bytes_le16 ?c @ w"] assms(2) by simp
  then show ?thesis by (simp add: unat_eq_0)
qed

text \<open>
  The checksum does its work: when the result for a block of bytes with a zeroed 16-bit field
  is stored into that field, the checksum of the block is 0.
\<close>

theorem in_cksum_verifies:
  assumes "even (length u)" "length u + length w \<le> 65532"
  shows "in_cksum (u @ bytes_le16 (in_cksum (u @ [0, 0] @ w)) @ w) = 0"
  by (rule cksum_stored [OF assms])

theorem in_cksum_verifies_witness:
  "in_cksum ([0x45, 0x10] @ bytes_le16 (in_cksum ([0x45, 0x10] @ [0, 0] @ [16, 17])) @ [16, 17]) = 0"
  by (rule in_cksum_verifies) simp_all

section \<open>The frame\<close>

lemma store_within:
  assumes "store_bytes m i bs = Inr m'"
  shows "store_bytes (pre @ m @ post) (length pre + i) bs = Inr (pre @ m' @ post)"
  using assms by (auto simp: store_bytes_def split: if_splits)

lemma store_segment:
  assumes "length old = length bs" "n = length pre"
  shows "store_bytes (pre @ old @ post) n bs = Inr (pre @ bs @ post)"
  using assms by (simp add: store_bytes_def)

text \<open>The buffer in the segments that the layers write.\<close>

lemma packet_segments:
  assumes "length (packet :: u8 list) = 4096"
  obtains E I U D O1 O2 O3 O4 R where "packet = E @ I @ U @ D @ O1 @ O2 @ O3 @ O4 @ R"
    "length E = 14" "length I = 20" "length U = 8" "length D = 240" "length O1 = 3" "length O2 = 6"
    "length O3 = 6" "length O4 = 3"
proof
  show "packet = take 14 packet @ take 20 (drop 14 packet) @ take 8 (drop 34 packet) @ take 240 (drop 42 packet)
      @ take 3 (drop 282 packet) @ take 6 (drop 285 packet) @ take 6 (drop 291 packet) @ take 3 (drop 297 packet)
      @ drop 300 packet"
    by (simp add: take_drop_step)
qed (use assms in simp_all)

definition simple_opts :: "(u8 \<times> u8 list) list" where
  "simple_opts = [(MESSAGE_TYPE_DHCP, [DHCP_OPTION_DISCOVER]), (MESSAGE_TYPE_REQ_IP, bytes_le32 (htonl 0xC0A8010A)),
     (MESSAGE_TYPE_PARAMETER_REQ_LIST, [1, 3, 6, 15]), (MESSAGE_TYPE_END, [0])]"

lemma fill_options_eq:
  assumes "length pre = dhcp + 240" "length O1 = 3" "length O2 = 6" "length O3 = 6" "length O4 = 3"
  shows "fill_dhcp_discovery_options dhcp (pre @ O1 @ O2 @ O3 @ O4 @ R) = Inr (pre @ enc_opts simple_opts @ R, 18)"
proof -
  let ?a = "[53, 1, 1 :: u8]" and ?b = "50 # 4 # bytes_le32 (htonl 0xC0A8010A)"
  let ?c = "[55, 4, 1, 3, 6, 15 :: u8]" and ?d = "[255, 1, 0 :: u8]"
  have 1: "store_bytes (pre @ O1 @ O2 @ O3 @ O4 @ R) (dhcp + 240) ?a = Inr (pre @ ?a @ O2 @ O3 @ O4 @ R)"
    by (rule store_segment) (use assms in simp_all)
  have 2: "store_bytes ((pre @ ?a) @ O2 @ O3 @ O4 @ R) (dhcp + 243) ?b = Inr ((pre @ ?a) @ ?b @ O3 @ O4 @ R)"
    by (rule store_segment) (use assms in simp_all)
  have 3: "store_bytes ((pre @ ?a @ ?b) @ O3 @ O4 @ R) (dhcp + 249) ?c = Inr ((pre @ ?a @ ?b) @ ?c @ O4 @ R)"
    by (rule store_segment) (use assms in simp_all)
  have 4: "store_bytes ((pre @ ?a @ ?b @ ?c) @ O4 @ R) (dhcp + 255) ?d = Inr ((pre @ ?a @ ?b @ ?c) @ ?d @ R)"
    by (rule store_segment) (use assms in simp_all)
  show ?thesis
    using 1 2 3 4
    by (simp add: fill_dhcp_discovery_options_def fill_dhcp_option_simple_def simple_opts_def enc_opt_def Let_def
        add.commute [of dhcp])
qed

definition simple_dhcp :: "u8 list \<Rightarrow> u8 list" where
  "simple_dhcp mac = [1, 1, 6] @ replicate 25 0 @ take 16 mac @ replicate 192 0 @ bytes_le32 (htonl DHCP_MAGIC_COOKIE)"

lemma dhcp_output_eq:
  assumes "length pre = dhcp" "length D = 240" "16 \<le> length mac"
  shows "dhcp_output dhcp mac len (pre @ D @ post) = Inr (pre @ simple_dhcp mac @ post, len + 240)"
proof -
  let ?k = "bytes_le32 (htonl DHCP_MAGIC_COOKIE)"
  have 1: "store_bytes (pre @ D @ post) dhcp (replicate 240 0) = Inr (pre @ replicate 240 0 @ post)"
    by (rule store_segment) (use assms in simp_all)
  have 2: "store_bytes (pre @ replicate 240 0 @ post) dhcp [1, 1, 6] = Inr (pre @ ([1, 1, 6] @ replicate 237 0) @ post)"
    using store_within [of "replicate 240 0" 0 "[1, 1, 6]" "[1, 1, 6] @ replicate 237 0" pre post] assms(1)
    by (simp add: store_bytes_def)
  have 3: "store_bytes (pre @ ([1, 1, 6] @ replicate 237 0) @ post) (dhcp + 28) (take 16 mac) =
      Inr (pre @ ([1, 1, 6] @ replicate 25 0 @ take 16 mac @ replicate 196 0) @ post)"
    using store_within [of "[1, 1, 6] @ replicate 237 0" 28 "take 16 mac"
        "[1, 1, 6] @ replicate 25 0 @ take 16 mac @ replicate 196 0" pre post] assms(1,3)
    by (simp add: store_bytes_def min_absorb2)
  have 4: "store_bytes (pre @ ([1, 1, 6] @ replicate 25 0 @ take 16 mac @ replicate 196 0) @ post) (dhcp + 236) ?k =
      Inr (pre @ simple_dhcp mac @ post)"
    using store_within [of "[1, 1, 6] @ replicate 25 0 @ take 16 mac @ replicate 196 0" 236 ?k "simple_dhcp mac" pre post]
      assms(1,3)
    by (simp add: store_bytes_def simple_dhcp_def min_absorb2)
  show ?thesis
    using 1 2 3 4 assms(3) by (simp add: dhcp_output_def load_bytes_def)
qed

definition simple_udp :: "u8 list" where
  "simple_udp = bytes_le16 (htons DHCP_CLIENT_PORT) @ bytes_le16 (htons DHCP_SERVER_PORT) @
     bytes_le16 (htons 266) @ bytes_le16 0"

lemma udp_output_eq:
  assumes "length pre = n" "length U = 8"
  shows "udp_output n 258 (pre @ U @ post) = Inr (pre @ simple_udp @ post, 266)"
  using store_segment [of U simple_udp n pre post] assms
  by (simp add: udp_output_def simple_udp_def Let_def)

text \<open>The IP header in front of the checksum field and behind it.\<close>

definition ip_front :: "u8 list" where
  "ip_front = [0x45, 0x10] @ bytes_le16 (htons 286) @ bytes_le16 (ucast (htonl 0xFFFF)) @ bytes_le16 0 @ [16, IPPROTO_UDP]"

definition ip_back :: "u8 list" where
  "ip_back = bytes_le32 0 @ bytes_le32 0xFFFFFFFF"

definition simple_ip :: "u8 list" where
  "simple_ip = ip_front @ bytes_le16 (in_cksum (ip_front @ [0, 0] @ ip_back)) @ ip_back"

lemma length_ip [simp]: "length ip_front = 10" "length ip_back = 8" "length simple_ip = 20"
  by (simp_all add: ip_front_def ip_back_def simple_ip_def)

lemma ip_output_eq:
  assumes "length pre = n" "length I = 20"
  shows "ip_output n 266 (pre @ I @ post) = Inr (pre @ simple_ip @ post, 286)"
proof -
  let ?h = "ip_front @ [0, 0] @ ip_back"
  have h: "[0x45, 0x10] @ bytes_le16 (htons 286) @ bytes_le16 (ucast (htonl 0xFFFF)) @
         bytes_le16 0 @ [16, IPPROTO_UDP] @ bytes_le16 0 @ bytes_le32 0 @ bytes_le32 0xFFFFFFFF = ?h"
    by (simp add: ip_front_def ip_back_def bytes_le16_def)
  have 1: "store_bytes (pre @ I @ post) n ?h = Inr (pre @ ?h @ post)"
    by (rule store_segment) (use assms in simp_all)
  have 2: "load_bytes (pre @ ?h @ post) (Some n) 20 = Inr ?h"
    by (rule load_bytes_middle) (use assms in simp_all)
  have 3: "store_bytes (pre @ ?h @ post) (n + 10) (bytes_le16 (in_cksum ?h)) = Inr (pre @ simple_ip @ post)"
    using store_within [of ?h 10 "bytes_le16 (in_cksum ?h)" simple_ip pre post] assms(1)
    by (simp add: store_bytes_def simple_ip_def)
  have l: "(of_int (266 + int 20) :: u16) = 286" by simp
  show ?thesis
    unfolding ip_output_def Let_def l h by (simp only: 1 2 3 bind_res_Inr) simp
qed

lemma ether_output_eq:
  assumes "length E = 14" "length body = 286" "6 \<le> length mac"
  shows "ether_output mac 286 (E @ body @ R) =
    Inr (replicate 6 (-1) @ take 6 mac @ bytes_le16 (htons ETHERTYPE_IP) @ body)"
proof -
  let ?b = "replicate 6 (-1 :: u8)" and ?m = "take 6 mac" and ?t = "bytes_le16 (htons ETHERTYPE_IP)"
  have 0: "E @ body @ R = take 6 E @ take 6 (drop 6 E) @ drop 12 E @ body @ R"
    by (simp add: take_drop_step)
  have 1: "store_bytes (E @ body @ R) 6 ?m = Inr (take 6 E @ ?m @ drop 12 E @ body @ R)"
    unfolding 0 by (rule store_segment) (use assms in simp_all)
  have 2: "store_bytes ([] @ take 6 E @ ?m @ drop 12 E @ body @ R) 0 ?b = Inr ([] @ ?b @ ?m @ drop 12 E @ body @ R)"
    by (rule store_segment) (use assms in simp_all)
  have 3: "store_bytes ((?b @ ?m) @ drop 12 E @ body @ R) 12 ?t = Inr ((?b @ ?m) @ ?t @ body @ R)"
    by (rule store_segment) (use assms in simp_all)
  have 4: "load_bytes ((?b @ ?m) @ ?t @ body @ R) (Some 0) 300 = Inr (?b @ ?m @ ?t @ body)"
    using assms by (simp add: load_bytes_def)
  show ?thesis
    using 1 2 3 4 assms(3) by (simp add: ether_output_def load_bytes_def)
qed

lemma dhcp_discovery_eq:
  assumes "length packet = 4096" "16 \<le> length mac"
  shows "dhcp_discovery mac packet = Inr (replicate 6 (-1) @ take 6 mac @ bytes_le16 (htons ETHERTYPE_IP) @
    simple_ip @ simple_udp @ simple_dhcp mac @ enc_opts simple_opts)"
proof -
  obtain E I U D O1 O2 O3 O4 R where p: "packet = E @ I @ U @ D @ O1 @ O2 @ O3 @ O4 @ R"
    "length E = 14" "length I = 20" "length U = 8" "length D = 240" "length O1 = 3" "length O2 = 6"
    "length O3 = 6" "length O4 = 3"
    using packet_segments [OF assms(1)] by blast
  have 1: "fill_dhcp_discovery_options 42 packet = Inr (E @ I @ U @ D @ enc_opts simple_opts @ R, 18)"
    using fill_options_eq [of "E @ I @ U @ D" 42 O1 O2 O3 O4 R] p by simp
  have 2: "dhcp_output 42 mac 18 (E @ I @ U @ D @ enc_opts simple_opts @ R) =
      Inr (E @ I @ U @ simple_dhcp mac @ enc_opts simple_opts @ R, 258)"
    using dhcp_output_eq [of "E @ I @ U" 42 D mac 18 "enc_opts simple_opts @ R"] p assms(2) by simp
  have 3: "udp_output 34 258 (E @ I @ U @ simple_dhcp mac @ enc_opts simple_opts @ R) =
      Inr (E @ I @ simple_udp @ simple_dhcp mac @ enc_opts simple_opts @ R, 266)"
    using udp_output_eq [of "E @ I" 34 U] p by simp
  have 4: "ip_output 14 266 (E @ I @ simple_udp @ simple_dhcp mac @ enc_opts simple_opts @ R) =
      Inr (E @ simple_ip @ simple_udp @ simple_dhcp mac @ enc_opts simple_opts @ R, 286)"
    using ip_output_eq [of E 14 I] p by simp
  have "length (simple_ip @ simple_udp @ simple_dhcp mac @ enc_opts simple_opts) = 286"
    using assms(2) by (simp add: simple_udp_def simple_dhcp_def simple_opts_def min_absorb2)
  then have 5: "ether_output mac 286 (E @ simple_ip @ simple_udp @ simple_dhcp mac @ enc_opts simple_opts @ R) =
      Inr (replicate 6 (-1) @ take 6 mac @ bytes_le16 (htons ETHERTYPE_IP) @
        simple_ip @ simple_udp @ simple_dhcp mac @ enc_opts simple_opts)"
    using ether_output_eq [of E "simple_ip @ simple_udp @ simple_dhcp mac @ enc_opts simple_opts" mac R] p assms(2)
    by simp
  show ?thesis using 1 2 3 4 5 by (simp add: dhcp_discovery_def)
qed

text \<open>The 16-bit field of a header at an offset, in network order.\<close>

definition field16 :: "u8 list \<Rightarrow> nat \<Rightarrow> nat" where
  "field16 h i = unat (ntohs (word_le16 (take 2 (drop i h))))"

lemma simple_udp_fields:
  "field16 simple_udp 0 = 68" "field16 simple_udp 2 = 67" "field16 simple_udp 4 = 266" "field16 simple_udp 6 = 0"
  by code_simp+

lemma simple_ip_fields:
  "simple_ip ! 0 = 0x45" "field16 simple_ip 2 = 286" "simple_ip ! 9 = IPPROTO_UDP"
  "take 4 (drop 12 simple_ip) = [0, 0, 0, 0]" "drop 16 simple_ip = [255, 255, 255, 255]"
  by code_simp+

lemma recv_simple:
  assumes "wf_dhcp buf" "16 \<le> length mac"
  shows "options (recv_dhcp buf (simple_dhcp mac @ enc_opts simple_opts)) =
      enc_opts simple_opts @ drop 18 (options buf)"
    "opcode (recv_dhcp buf (simple_dhcp mac @ enc_opts simple_opts)) = BOOTP_MESSAGE_TYPE_REQUEST"
    "chaddr (recv_dhcp buf (simple_dhcp mac @ enc_opts simple_opts)) = take 16 mac"
    "ciaddr (recv_dhcp buf (simple_dhcp mac @ enc_opts simple_opts)) = 0"
proof -
  have l: "length (simple_dhcp mac) = 240" "length (enc_opts simple_opts) = 18"
    using assms(2) by (simp_all add: simple_dhcp_def simple_opts_def min_absorb2)
  have b: "drop 240 (dhcp_bytes buf) = options buf" "drop 258 (dhcp_bytes buf) = drop 18 (options buf)"
    using length_dhcp_header [OF assms(1)] by (simp_all add: dhcp_bytes_def)
  show "options (recv_dhcp buf (simple_dhcp mac @ enc_opts simple_opts)) = enc_opts simple_opts @ drop 18 (options buf)"
    using l b by (simp add: recv_dhcp_def dhcp_of_bytes_def)
  show "opcode (recv_dhcp buf (simple_dhcp mac @ enc_opts simple_opts)) = BOOTP_MESSAGE_TYPE_REQUEST"
    using l by (simp add: recv_dhcp_def dhcp_of_bytes_def) (simp add: simple_dhcp_def)
  show "chaddr (recv_dhcp buf (simple_dhcp mac @ enc_opts simple_opts)) = take 16 mac"
    using l assms(2) by (simp add: recv_dhcp_def dhcp_of_bytes_def) (simp add: simple_dhcp_def min_absorb2)
  have "take 4 (drop 12 (simple_dhcp mac)) = [0, 0, 0, 0]"
    using assms(2) by (simp add: simple_dhcp_def numeral_eq_Suc)
  then show "ciaddr (recv_dhcp buf (simple_dhcp mac @ enc_opts simple_opts)) = 0"
    using l by (simp add: recv_dhcp_def dhcp_of_bytes_def word_le32_def)
qed

text \<open>
  C24: The frame that is sent, when 16 bytes can be read at \<open>mac\<close>, layer by layer: the Ethernet
  header goes from this address to the broadcast address with the type of IP; the IP header has
  version 4 and five words, the length of itself and all behind it, UDP as protocol, goes from
  0.0.0.0 to 255.255.255.255, and its checksum verifies; the UDP header has the two DHCP ports, the
  length of itself and the message, and no checksum; and a server with any buffer contents reads the
  message as a DISCOVER from this MAC for 192.168.1.10.
\<close>

theorem discovery_frame:
  assumes "length packet = 4096" "16 \<le> length mac"
  shows "\<exists>eth ip udp msg. dhcp_discovery mac packet = Inr (eth @ ip @ udp @ msg) \<and>
    eth = replicate 6 (-1) @ take 6 mac @ [8, 0] \<and>
    length ip = 20 \<and> ip ! 0 = 0x45 \<and> field16 ip 2 = length (ip @ udp @ msg) \<and> ip ! 9 = IPPROTO_UDP \<and>
    take 4 (drop 12 ip) = [0, 0, 0, 0] \<and> drop 16 ip = [255, 255, 255, 255] \<and> in_cksum ip = 0 \<and>
    length udp = 8 \<and> field16 udp 0 = 68 \<and> field16 udp 2 = 67 \<and> field16 udp 4 = length (udp @ msg) \<and>
    field16 udp 6 = 0 \<and>
    (\<forall>buf. wf_dhcp buf \<longrightarrow> (let d = recv_dhcp buf msg in
       opcode d = BOOTP_MESSAGE_TYPE_REQUEST \<and> type_option d DHCPDISCOVER \<and> chaddr d = take 16 mac \<and>
       ciaddr d = 0 \<and> addr_option d OPTION_REQUESTED_IP (htonl 0xC0A8010A)))"
proof -
  let ?msg = "simple_dhcp mac @ enc_opts simple_opts" and ?eth = "replicate 6 (-1) @ take 6 mac @ bytes_le16 (htons ETHERTYPE_IP)"
  have eth: "bytes_le16 (htons ETHERTYPE_IP) = [8, 0]" by (simp add: htons_def word_le16_def bytes_le16_def)
  have l: "length simple_udp = 8" "length ?msg = 258"
    using assms(2) by (simp_all add: simple_udp_def simple_dhcp_def simple_opts_def min_absorb2)
  have cksum: "in_cksum simple_ip = 0" unfolding simple_ip_def by (rule cksum_stored) simp_all
  have opts: "type_option d DHCPDISCOVER \<and> addr_option d OPTION_REQUESTED_IP (htonl 0xC0A8010A)"
    if "options d = enc_opts simple_opts @ rest" for d rest
  proof -
    have ok: "enc_ok simple_opts" by (simp add: simple_opts_def)
    have "type_option d DHCPDISCOVER"
      by (rule type_option_first [where rest = "drop 3 (enc_opts simple_opts) @ rest"])
        (simp add: that simple_opts_def enc_opt_def)
    moreover obtain i where "get_dhcp_option (enc_opts simple_opts @ rest) OPTION_REQUESTED_IP = Inr (OptAt 4 i)"
      "load_bytes (enc_opts simple_opts @ rest) (Some i) 4 = Inr (bytes_le32 (htonl 0xC0A8010A))"
      using get_dhcp_option_enc [OF ok, of OPTION_REQUESTED_IP "bytes_le32 (htonl 0xC0A8010A)" rest]
      by (auto simp: simple_opts_def)
    ultimately show ?thesis by (simp add: addr_option_def that load32_def)
  qed
  have msg: "\<forall>buf. wf_dhcp buf \<longrightarrow> (let d = recv_dhcp buf ?msg in
       opcode d = BOOTP_MESSAGE_TYPE_REQUEST \<and> type_option d DHCPDISCOVER \<and> chaddr d = take 16 mac \<and>
       ciaddr d = 0 \<and> addr_option d OPTION_REQUESTED_IP (htonl 0xC0A8010A))"
    using recv_simple [OF _ assms(2)] opts by (simp add: Let_def)
  show ?thesis
    using dhcp_discovery_eq [OF assms] l cksum simple_ip_fields simple_udp_fields msg eth
    by (intro exI [of _ ?eth] exI [of _ simple_ip] exI [of _ simple_udp] exI [of _ ?msg]) simp
qed

theorem discovery_frame_witness:
  "\<exists>eth ip udp msg. dhcp_discovery (replicate 16 7) (replicate 4096 0) = Inr (eth @ ip @ udp @ msg) \<and>
     eth = replicate 6 (-1) @ replicate 6 7 @ [8, 0] \<and> in_cksum ip = 0 \<and> field16 udp 4 = length (udp @ msg)"
proof -
  have l: "length (replicate 4096 (0 :: u8)) = 4096" "16 \<le> length (replicate 16 (7 :: u8))"
    "take 6 (replicate 16 (7 :: u8)) = replicate 6 7" by simp_all
  show ?thesis using discovery_frame [OF l(1,2)] unfolding l(3) by metis
qed

text \<open>
  The program reads past the array that holds the hardware address: \<open>main\<close> has six bytes of
  it, and the copy into the message takes sixteen. No run that gets as far sends a defined frame.
\<close>

lemma get_mac_address_length:
  "get_mac_address_simple q name mac = Inr (rc, mac') \<Longrightarrow> length mac' = length mac"
  by (auto simp: get_mac_address_simple_def res_simps dest: store_bytes_length split: option.splits)

theorem discovery_reads_past_mac:
  assumes "length packet = 4096" "length mac < 16" "2 \<le> length argv" "argv ! 1 \<noteq> ''-h''"
    and "get_mac_address_simple siocgifhwaddr (argv ! 1) mac0 = Inr (0, mac)"
  shows "dhcp_discovery mac packet = Inl OutOfBounds \<and>
    main_simple argv siocgifhwaddr True mac0 packet frames = Inl OutOfBounds"
proof -
  obtain E I U D O1 O2 O3 O4 R where p: "packet = E @ I @ U @ D @ O1 @ O2 @ O3 @ O4 @ R"
    "length E = 14" "length I = 20" "length U = 8" "length D = 240" "length O1 = 3" "length O2 = 6"
    "length O3 = 6" "length O4 = 3"
    using packet_segments [OF assms(1)] by blast
  have 1: "fill_dhcp_discovery_options 42 packet = Inr (E @ I @ U @ D @ enc_opts simple_opts @ R, 18)"
    using fill_options_eq [of "E @ I @ U @ D" 42 O1 O2 O3 O4 R] p by simp
  have 2: "dhcp_output 42 mac 18 (E @ I @ U @ D @ enc_opts simple_opts @ R) = Inl OutOfBounds"
    using p assms(2) by (simp add: dhcp_output_def store_bytes_def load_bytes_def)
  have "dhcp_discovery mac packet = Inl OutOfBounds"
    using 1 2 by (simp add: dhcp_discovery_def)
  with assms(3-5) show ?thesis by (simp add: main_simple_def)
qed

theorem discovery_reads_past_mac_witness:
  "main_simple [''simple-dhcp-client'', ''eth0''] (\<lambda>_. Some (2 # replicate 13 0)) True (replicate 6 0) (replicate 4096 0) [] =
   Inl OutOfBounds"
  using discovery_reads_past_mac [of "replicate 4096 0" "take 6 (2 # replicate 13 0)" "[''simple-dhcp-client'', ''eth0'']"
      "\<lambda>_. Some (2 # replicate 13 0)" "replicate 6 0" "[]"]
    get_mac_address_six_bytes [of "replicate 6 0" "\<lambda>_. Some (2 # replicate 13 0)" "''eth0''"]
  by simp

section \<open>Input\<close>

text \<open>The frames the handlers take for an offer, by the bytes they look at, and its address.\<close>

definition is_offer :: "u8 list \<Rightarrow> bool" where
  "is_offer f \<longleftrightarrow> take 2 (drop 12 f) = [8, 0] \<and> f ! 23 = 17 \<and> take 2 (drop 34 f) = [0, 67] \<and> f ! 42 = 2"

lemma word_le16_eq_iff: "length bs = 2 \<Longrightarrow> word_le16 bs = x \<longleftrightarrow> bs = bytes_le16 x"
  by (metis bytes_le16_word word_le16_bytes)

lemma htons_word: "length bs = 2 \<Longrightarrow> htons (word_le16 bs) = x \<longleftrightarrow> bs = rev (bytes_le16 x)"
  by (simp add: htons_def bytes_le16_word word_le16_eq_iff rev_swap)

lemma ntohs_word: "length bs = 2 \<Longrightarrow> ntohs (word_le16 bs) = x \<longleftrightarrow> bs = rev (bytes_le16 x)"
  by (simp add: ntohs_def bytes_le16_word word_le16_eq_iff rev_swap)

text \<open>The trace does not read past a frame that was captured completely, or is not printed.\<close>

definition traceable :: "verbose_level \<Rightarrow> int \<times> u8 list \<Rightarrow> bool" where
  "traceable level p \<longleftrightarrow> (level = VERBOSE_LEVEL_DEBUG \<longrightarrow> nat (fst p) \<le> length (snd p))"

lemma trace_total: "traceable level (len, f) \<Longrightarrow> \<exists>text. ether_input_trace level place len f = Inr text"
  using print_packet_from_read [of 0 "nat len" f]
  by (auto simp: traceable_def ether_input_trace_def print_packet_def)

lemma ether_input_eq:
  assumes "62 \<le> length f" "traceable level (len, f)"
  shows "\<exists>text. ether_input level (len, f) =
    Inr (text, if is_offer f then Some (ntohl (word_le32 (take 4 (drop 58 f)))) else None)"
proof -
  obtain trace where "ether_input_trace level ''ether_input'' len f = Inr trace" using trace_total [OF assms(2)] by blast
  with assms(1) show ?thesis
    by (auto simp: ether_input_def ip_input_def udp_input_def dhcp_input_def load16_def load8_def load32_def
        load_bytes_def htons_word ntohs_word is_offer_def bytes_le16_def)
qed

lemma dotted_bytes: "dotted a = map unat (rev (bytes_le32 a))"
proof -
  have f: "drop_bit 24 a = ucast (ucast (drop_bit 24 a) :: u8)"
    "drop_bit 24 (push_bit 8 a) = ucast (ucast (drop_bit 16 a) :: u8)"
    "drop_bit 24 (push_bit 16 a) = ucast (ucast (drop_bit 8 a) :: u8)"
    "drop_bit 24 (push_bit 24 a) = ucast (ucast a :: u8)"
    by (auto simp: bit_eq_iff bit_simps dest: bit_imp_le_length)
  note u = f [THEN arg_cong [of _ _ unat], unfolded unat_ucast_u32]
  show ?thesis
    unfolding dotted_def bytes_le32_def rev.simps append.simps list.map by (simp only: u(2-4) u(1) [symmetric])
qed

lemma dotted_ntohl: "length bs = 4 \<Longrightarrow> dotted (ntohl (word_le32 bs)) = map unat bs"
  by (simp add: dotted_bytes ntohl_def bytes_le32_word)

lemma ether_input_overrun: "\<not> traceable level (len, f) \<Longrightarrow> ether_input level (len, f) = Inl OutOfBounds"
  using print_packet_from_overrun [of f 0 "nat len"]
  by (auto simp: traceable_def ether_input_def ether_input_trace_def print_packet_def)

lemma listen_eq:
  assumes "\<forall>p \<in> set frames. 62 \<le> length (snd p)"
  shows "listen level frames = (case find (\<lambda>p. \<not> traceable level p \<or> is_offer (snd p)) frames of None \<Rightarrow> Inl Diverges
    | Some p \<Rightarrow> if traceable level p then Inr (ntohl (word_le32 (take 4 (drop 58 (snd p))))) else Inl OutOfBounds)"
  using assms
proof (induction frames)
  case (Cons p frames)
  obtain len f where p: "p = (len, f)" by (cases p)
  show ?case
  proof (cases "traceable level p")
    case True
    then obtain trace where "ether_input level (len, f) =
        Inr (trace, if is_offer f then Some (ntohl (word_le32 (take 4 (drop 58 f)))) else None)"
      using ether_input_eq [of f level len] Cons.prems p by auto
    with Cons p True show ?thesis by simp
  next
    case False
    with p show ?thesis by (simp add: ether_input_overrun)
  qed
qed simp

text \<open>
  C25: Of the frames that arrive, none shorter than a DHCP header, the program takes the first whose
  bytes name an IP packet, UDP, the server's port and opcode 2, and the four numbers it gets are the
  bytes of the offered address; if there is none, it waits for ever. At the level DEBUG, which the
  program has, a frame before it that was captured only in part is read past its end by the dump.
\<close>

theorem listen_first_offer:
  assumes "\<forall>p \<in> set frames. 62 \<le> length (snd p)"
  shows "case find (\<lambda>p. \<not> traceable level p \<or> is_offer (snd p)) frames of
      None \<Rightarrow> listen level frames = Inl Diverges
    | Some p \<Rightarrow>
        if traceable level p
        then \<exists>a. listen level frames = Inr a \<and> dotted a = map unat (take 4 (drop 58 (snd p)))
        else listen level frames = Inl OutOfBounds"
proof (cases "find (\<lambda>p. \<not> traceable level p \<or> is_offer (snd p)) frames")
  case None
  with listen_eq [OF assms] show ?thesis by simp
next
  case (Some p)
  then have "62 \<le> length (snd p)" using assms by (metis (no_types, lifting) find_Some_iff nth_mem)
  with Some listen_eq [OF assms] show ?thesis by (simp add: dotted_ntohl)
qed

theorem listen_first_offer_witness:
  "\<exists>a. listen VERBOSE_LEVEL_DEBUG [(62, replicate 62 0), (62, replicate 12 0 @ [8, 0] @ replicate 9 0 @ [17] @
      replicate 10 0 @ [0, 67] @ replicate 6 0 @ [2] @ replicate 15 0 @ [192, 168, 1, 10])] = Inr a \<and>
     dotted a = [192, 168, 1, 10]"
  using listen_first_offer [of "[(62, replicate 62 0), (62, replicate 12 0 @ [8, 0] @ replicate 9 0 @ [17] @
      replicate 10 0 @ [0, 67] @ replicate 6 0 @ [2] @ replicate 15 0 @ [192, 168, 1, 10])]" VERBOSE_LEVEL_DEBUG]
  by (simp add: is_offer_def nth_append traceable_def)

end
