(* ===== verification/Checksum_Reference.thy ===== *)
theory Checksum_Reference
  imports Simple_Properties
begin

text \<open>
  The Internet checksum as RFC 1071 states it: the 16-bit words of the block in network order, a
  last odd byte completed by a zero, are added in one's complement arithmetic, where a carry out of
  the top bit is added at the bottom; the checksum is the complement of the sum. \<open>in_cksum\<close>, which
  adds the words in the order of the host with a wide accumulator, computes it.
\<close>

section \<open>The reference\<close>

fun network_words :: "u8 list \<Rightarrow> nat list" where
  "network_words [] = []"
| "network_words [b] = [256 * unat b]"
| "network_words (a # b # w) = (256 * unat a + unat b) # network_words w"

definition ones_add :: "nat \<Rightarrow> nat \<Rightarrow> nat" where
  "ones_add a b = (if a + b < 65536 then a + b else a + b - 65535)"

definition rfc1071_checksum :: "u8 list \<Rightarrow> nat" where
  "rfc1071_checksum w = 65535 - foldr ones_add (network_words w) 0"

section \<open>Sums modulo 65535\<close>

lemma network_word_bound: "v \<in> set (network_words w) \<Longrightarrow> v < 65536"
proof (induction w rule: network_words.induct)
  case (2 b)
  then show ?case using unat_u8_less [of b] by simp
next
  case (3 a b w)
  then show ?case using unat_u8_less [of a] unat_u8_less [of b] by auto
qed simp

text \<open>A one's complement sum has the residue of the sum, and is zero only when the sum is.\<close>

lemma ones_add_sum:
  assumes "a < 65536" "b < 65536"
  shows "ones_add a b < 65536" "ones_add a b mod 65535 = (a + b) mod 65535" "ones_add a b = 0 \<longleftrightarrow> a + b = 0"
  using assms by (auto simp: ones_add_def le_mod_geq)

lemma ones_sum:
  assumes "\<forall>v \<in> set ws. v < 65536"
  shows "foldr ones_add ws 0 < 65536 \<and> foldr ones_add ws 0 mod 65535 = sum_list ws mod 65535 \<and>
    (foldr ones_add ws 0 = 0 \<longleftrightarrow> sum_list ws = 0)"
  using assms
proof (induction ws)
  case (Cons v ws)
  let ?s = "foldr ones_add ws 0"
  have IH: "?s < 65536" "?s mod 65535 = sum_list ws mod 65535" "?s = 0 \<longleftrightarrow> sum_list ws = 0"
    using Cons by simp_all
  have v: "v < 65536" using Cons.prems by simp
  have "(v + ?s) mod 65535 = (v + sum_list ws) mod 65535" using IH(2) by (metis mod_add_right_eq)
  with ones_add_sum [OF v IH(1)] IH(3) show ?case by simp
qed simp

lemma same_residue:
  assumes "a mod 65535 = b mod 65535" "a < 65536" "b < 65536" "a = 0 \<longleftrightarrow> b = (0 :: nat)"
  shows "a = b"
proof -
  have "x mod 65535 = (if x = 65535 then 0 else x)" if "x < 65536" for x :: nat using that by auto
  with assms show ?thesis by (auto split: if_splits)
qed

section \<open>Byte order\<close>

lemma unat_word_le16: "unat (word_le16 [a, b]) = unat a + 256 * unat b"
proof -
  have "unat (ucast c :: u16) = unat c" for c :: u8
    using unat_u8_less [of c] by (simp add: unsigned_ucast_eq take_bit_eq_mod)
  then have "unat (ucast a :: u16) = unat a" "unat (push_bit 8 (ucast b) :: u16) = 256 * unat b"
    using unat_u8_less [of b] by (simp_all add: push_bit_eq_mult unat_word_ariths)
  moreover have "(ucast a OR push_bit 8 (ucast b)) = (ucast a + push_bit 8 (ucast b) :: u16)"
    by (rule disjunctive_add [symmetric]) (auto simp: bit_simps bit_u8_high)
  ultimately show ?thesis
    using unat_u8_less [of a] unat_u8_less [of b]
    by (simp add: word_le16_def unat_word_ariths)
qed

lemma unat_ntohs: "\<exists>h l. unat x = l + 256 * h \<and> unat (ntohs x) = h + 256 * l \<and> h < 256 \<and> l < 256"
proof -
  obtain a b where x: "bytes_le16 x = [a, b]" using list_eq2 [OF length_bytes_le16] by metis
  then have "x = word_le16 [a, b]" by (metis word_le16_bytes)
  with x show ?thesis
    using unat_u8_less [of a] unat_u8_less [of b]
    by (intro exI [of _ "unat b"] exI [of _ "unat a"]) (simp add: ntohs_def unat_word_le16)
qed

lemma ntohs_residue: "unat (ntohs x) mod 65535 = (256 * unat x) mod 65535" "unat (ntohs x) = 0 \<longleftrightarrow> unat x = 0"
proof -
  obtain h l where w: "unat x = l + 256 * h" "unat (ntohs x) = h + 256 * l" using unat_ntohs by blast
  have "256 * unat x = unat (ntohs x) + 65535 * h" by (simp add: w)
  then show "unat (ntohs x) mod 65535 = (256 * unat x) mod 65535" by simp
  show "unat (ntohs x) = 0 \<longleftrightarrow> unat x = 0" by (auto simp: w)
qed

lemma byte_digits: "(l :: nat) < 256 \<Longrightarrow> l' < 256 \<Longrightarrow> l + 256 * h = l' + 256 * h' \<Longrightarrow> l = l' \<and> h = h'"
proof -
  assume a: "l < 256" "l' < 256" "l + 256 * h = l' + 256 * h'"
  have "(l + 256 * h) div 256 = h" "(l' + 256 * h') div 256 = h'" using a(1,2) by simp_all
  with a(3) show ?thesis by simp
qed

lemma ntohs_not: "unat (ntohs (NOT x)) = 65535 - unat (ntohs x)"
proof -
  obtain h l where w: "unat x = l + 256 * h" "unat (ntohs x) = h + 256 * l" "h < 256" "l < 256"
    using unat_ntohs [of x] by blast
  obtain h' l' where w': "unat (NOT x) = l' + 256 * h'" "unat (ntohs (NOT x)) = h' + 256 * l'" "h' < 256" "l' < 256"
    using unat_ntohs [of "NOT x"] by blast
  have "l' + 256 * h' = (255 - l) + 256 * (255 - h)"
    using w'(1) unat_not_u16 [of x] w(1,3,4) by simp
  then have "l' = 255 - l" "h' = 255 - h" using byte_digits [of l' "255 - l"] w'(4) by auto
  with w(2,3,4) w'(2) show ?thesis by linarith
qed

text \<open>The words in the order of the host have, up to the factor 256, the same sum.\<close>

lemma network_words_zero: "sum_list (network_words w) = 0 \<longleftrightarrow> words_sum w = 0"
  by (induction w rule: network_words.induct) (auto simp: unat_word_le16)

lemma network_words_sum: "sum_list (network_words w) mod 65535 = (256 * words_sum w) mod 65535"
proof (induction w rule: network_words.induct)
  case (3 a b w)
  have "256 * words_sum (a # b # w) = (256 * unat a + unat b + 256 * words_sum w) + 65535 * unat b"
    by (simp add: unat_word_le16)
  then have "(256 * words_sum (a # b # w)) mod 65535 = (256 * unat a + unat b + 256 * words_sum w) mod 65535"
    by (simp only: mod_mult_self2)
  also have "\<dots> = (256 * unat a + unat b + sum_list (network_words w)) mod 65535"
    by (rule mod_add_cong [OF refl 3 [symmetric]])
  finally show ?case by simp
qed simp_all

lemma fold16_0:
  assumes "s < 2 ^ 31"
  shows "fold16 s = 0 \<longleftrightarrow> s = 0"
proof
  assume "fold16 s = 0"
  with fold16_mod [OF assms] have "65535 dvd s" by (simp add: mod_eq_0_iff_dvd)
  with fold16_multiple [of s] assms \<open>fold16 s = 0\<close> show "s = 0" by (cases "s = 0") auto
qed (simp add: fold16_def)

lemma fold16_bound: "fold16 s < 65536"
  by (simp add: fold16_def Let_def)

section \<open>The equivalence\<close>

text \<open>
  C23: \<open>in_cksum\<close> is the Internet checksum: for every block of at most 65534 bytes, of even or odd
  length, the number that its result shows in network order is the checksum of RFC 1071, the
  complement of the one's complement sum of the words in network order, although the code adds
  the words in the order of the host and folds the carries only at the end.
\<close>

theorem in_cksum_is_rfc1071:
  assumes "length w \<le> 65534"
  shows "unat (ntohs (in_cksum w)) = rfc1071_checksum w"
proof -
  define f where "f = NOT (in_cksum w)"
  let ?o = "foldr ones_add (network_words w) 0" and ?n = "words_sum w"
  have n: "?n < 2 ^ 31" using words_sum_bound [of w] assms by (simp add: le_less_trans)
  have f: "unat f = fold16 ?n"
    using in_cksum_fold [OF assms] fold16_bound [of ?n] by (simp add: f_def unat_not_u16)
  note o = ones_sum [of "network_words w"]
  have "unat (ntohs f) = ?o"
  proof (rule same_residue)
    have "unat (ntohs f) mod 65535 = (256 * ?n) mod 65535"
      using fold16_mod [OF n] by (simp add: ntohs_residue(1) f) (metis mod_mult_right_eq)
    then show "unat (ntohs f) mod 65535 = ?o mod 65535"
      using o network_word_bound network_words_sum [of w] by auto
    show "unat (ntohs f) < 65536" "?o < 65536"
      using unat_u16_less o network_word_bound by blast+
    show "unat (ntohs f) = 0 \<longleftrightarrow> ?o = 0"
      using o network_word_bound network_words_zero [of w] ntohs_residue(2) [of f] fold16_0 [OF n] by (simp add: f)
  qed
  moreover have "in_cksum w = NOT f" by (simp add: f_def)
  ultimately show ?thesis by (simp add: ntohs_not rfc1071_checksum_def)
qed

theorem in_cksum_is_rfc1071_witness:
  "unat (ntohs (in_cksum [0x45, 0, 0, 0x14, 7])) = 65535 - (0x4500 + 0x14 + 0x700)"
  using in_cksum_is_rfc1071 [of "[0x45, 0, 0, 0x14, 7]"]
  by (simp add: rfc1071_checksum_def ones_add_def)

end
