(* ===== verification/Posix_Files.thy ===== *)
theory Posix_Files
  imports Prelude
begin

text \<open>
  The calls of the operating system that the exercises on files use (\<open>src/l3-lseek1.c\<close>,
  \<open>src/l3-readwrite1.c\<close>, \<open>src/l4-1.c\<close>, \<open>src/l4-2.c\<close>), as POSIX documents them for regular files and
  the standard streams, and the four programs over them. A descriptor is an index into the table
  of open files; \<open>-1\<close> is the error value. The environment says which files may be opened and how
  many bytes each call of \<open>write\<close> accepts. The text of error messages is left out.
\<close>

section \<open>Files and calls\<close>

record open_file =
  of_name :: string
  of_pos :: nat
  of_append :: bool

record os =
  disk :: "string \<rightharpoonup> u8 list"
  descs :: "int \<rightharpoonup> open_file"
  next_fd :: int
  std_in :: "u8 list"
  std_out :: "u8 list"
  writes :: nat

text \<open>
  The \<open>k\<close>-th call of \<open>write\<close> takes at most \<open>accepted k\<close> bytes, or fails. The end of \<open>std_in\<close> is the
  end of the file.
\<close>

record os_env =
  allows :: "string \<Rightarrow> bool"
  accepted :: "nat \<Rightarrow> nat option"

definition contents :: "os \<Rightarrow> string \<Rightarrow> u8 list" where
  "contents s name = (case disk s name of None \<Rightarrow> [] | Some c \<Rightarrow> c)"

text \<open>Bytes written at a position of a file; a gap before it reads as zeros.\<close>

definition put_at :: "nat \<Rightarrow> u8 list \<Rightarrow> u8 list \<Rightarrow> u8 list" where
  "put_at p bs c = take p (c @ replicate (p - length c) 0) @ bs @ drop (p + length bs) c"

definition sys_open :: "os_env \<Rightarrow> string \<Rightarrow> bool \<Rightarrow> bool \<Rightarrow> bool \<Rightarrow> os \<Rightarrow> int \<times> os" where
  "sys_open e name o_creat o_trunc o_append s =
     (if \<not> allows e name \<or> disk s name = None \<and> \<not> o_creat then (-1, s)
      else (next_fd s,
        s\<lparr>disk := (disk s)(name \<mapsto> if o_trunc then [] else contents s name),
          descs := (descs s)(next_fd s \<mapsto> \<lparr>of_name = name, of_pos = 0, of_append = o_append\<rparr>),
          next_fd := next_fd s + 1\<rparr>))"

text \<open>The bytes read, none at the end of the file; \<open>None\<close> is an error.\<close>

definition sys_read :: "int \<Rightarrow> nat \<Rightarrow> os \<Rightarrow> u8 list option \<times> os" where
  "sys_read fd n s =
     (if fd = 0 then (Some (take n (std_in s)), s\<lparr>std_in := drop n (std_in s)\<rparr>)
      else case descs s fd of
        None \<Rightarrow> (None, s)
      | Some f \<Rightarrow>
          let bs = take n (drop (of_pos f) (contents s (of_name f))) in
          (Some bs, s\<lparr>descs := (descs s)(fd \<mapsto> f\<lparr>of_pos := of_pos f + length bs\<rparr>)\<rparr>))"

definition sys_write :: "os_env \<Rightarrow> int \<Rightarrow> u8 list \<Rightarrow> os \<Rightarrow> int \<times> os" where
  "sys_write e fd data s =
     (let s' = s\<lparr>writes := writes s + 1\<rparr> in
      case accepted e (writes s) of
        None \<Rightarrow> (-1, s')
      | Some k \<Rightarrow>
          let bs = take k data in
          if fd = 1 then (int (length bs), s'\<lparr>std_out := std_out s @ bs\<rparr>)
          else case descs s fd of
            None \<Rightarrow> (-1, s')
          | Some f \<Rightarrow>
              let c = contents s (of_name f); p = (if of_append f then length c else of_pos f) in
              (int (length bs),
               s'\<lparr>disk := (disk s)(of_name f \<mapsto> put_at p bs c),
                  descs := (descs s)(fd \<mapsto> f\<lparr>of_pos := p + length bs\<rparr>)\<rparr>))"

text \<open>\<open>lseek (fd, off, SEEK_SET)\<close>.\<close>

definition sys_lseek :: "int \<Rightarrow> nat \<Rightarrow> os \<Rightarrow> int \<times> os" where
  "sys_lseek fd off s =
     (case descs s fd of
        None \<Rightarrow> (-1, s)
      | Some f \<Rightarrow> (int off, s\<lparr>descs := (descs s)(fd \<mapsto> f\<lparr>of_pos := off\<rparr>)\<rparr>))"

definition sys_close :: "int \<Rightarrow> os \<Rightarrow> os" where
  "sys_close fd s = s\<lparr>descs := (descs s)(fd := None)\<rparr>"

text \<open>The system has the standard streams open and hands out new descriptors.\<close>

definition os_ok :: "os \<Rightarrow> bool" where
  "os_ok s \<longleftrightarrow> 2 < next_fd s \<and> (\<forall>fd. descs s fd \<noteq> None \<longrightarrow> 2 < fd \<and> fd < next_fd s)"

definition takes_all :: "os_env \<Rightarrow> bool" where
  "takes_all e \<longleftrightarrow> (\<forall>k. \<exists>n \<ge> 4096. accepted e k = Some n)"

section \<open>The programs\<close>

text \<open>\<open>src/l3-lseek1.c\<close>: \<open>creat\<close> is \<open>open\<close> with \<open>O_CREAT\<close> and \<open>O_TRUNC\<close>. The exit status and the state.\<close>

definition buf1 :: "u8 list" where "buf1 = [97, 98, 99, 100, 101, 102, 103, 104, 105, 106]"

definition buf2 :: "u8 list" where "buf2 = [65, 66, 67, 68, 69, 70, 71, 72, 73, 74]"

definition lseek1_main :: "os_env \<Rightarrow> os \<Rightarrow> int \<times> os" where
  "lseek1_main e s =
     (let (fd, s1) = sys_open e ''file.hole'' True True False s in
      if fd < 0 then (1, s1)
      else let (n, s2) = sys_write e fd buf1 s1 in
      if n \<noteq> 10 then (1, s2)
      else let (off, s3) = sys_lseek fd 40 s2 in
      if off = -1 then (1, s3)
      else let (n, s4) = sys_write e fd buf2 s3 in
      if n \<noteq> 10 then (1, s4)
      else (0, s4))"

text \<open>
  \<open>src/l3-readwrite1.c\<close>: \<open>b\<close> is \<open>buf[0]\<close>, at first what stands there. A failing \<open>open\<close> is only
  reported. When \<open>read\<close> delivers nothing, \<open>buf[0]\<close> keeps its value.
\<close>

partial_function (option) readwrite1_loop :: "os_env \<Rightarrow> int \<Rightarrow> u8 \<Rightarrow> os \<Rightarrow> os option" where
  "readwrite1_loop e fd b s =
     (if b = 46 then Some s
      else
        let (r, s1) = sys_read 0 1 s;
            b' = (case r of Some (c # _) \<Rightarrow> c | _ \<Rightarrow> b);
            s2 = snd (sys_write e fd [b'] s1);
            s3 = snd (sys_write e 1 [b'] s2)
        in readwrite1_loop e fd b' s3)"

definition readwrite1_main :: "os_env \<Rightarrow> u8 \<Rightarrow> os \<Rightarrow> (int \<times> os) option" where
  "readwrite1_main e junk s =
     (let (fd, s1) = sys_open e ''out.out'' True False False s in
      map_option (\<lambda>s2. (0, sys_close fd s2)) (readwrite1_loop e fd junk s1))"

text \<open>\<open>src/l4-1.c\<close>: the loop goes on while \<open>read\<close> does not return 0.\<close>

partial_function (option) copy_loop :: "os_env \<Rightarrow> int \<Rightarrow> int \<Rightarrow> u8 \<Rightarrow> os \<Rightarrow> os option" where
  "copy_loop e fd1 fd2 b s =
     (let (r, s1) = sys_read fd2 1 s in
      if r = Some [] then Some s1
      else
        let b' = (case r of Some (c # _) \<Rightarrow> c | _ \<Rightarrow> b)
        in copy_loop e fd1 fd2 b' (snd (sys_write e fd1 [b'] s1)))"

definition append_copy_main :: "os_env \<Rightarrow> u8 \<Rightarrow> os \<Rightarrow> (int \<times> os) option" where
  "append_copy_main e junk s =
     (let (fd1, s1) = sys_open e ''test1'' False False True s in
      if fd1 = -1 then Some (1, s1)
      else let (fd2, s2) = sys_open e ''test2'' False False False s1 in
      if fd2 = -1 then Some (1, s2)
      else map_option (\<lambda>s3. (0, sys_close fd2 (sys_close fd1 s3))) (copy_loop e fd1 fd2 junk s2))"

text \<open>
  \<open>src/l4-2.c\<close>: the exit status, the offset printed, the text that \<open>printf\<close> prints of the array \<open>s\<close>
  of 50 bytes up to a zero byte, and the state. \<open>junk\<close> is what stands in the array before.
\<close>

definition print_array :: "u8 list \<Rightarrow> u8 list res" where
  "print_array m = (if 0 \<in> set m then Inr (takeWhile (\<lambda>b. b \<noteq> 0) m) else Inl OutOfBounds)"

definition append_seek_main :: "os_env \<Rightarrow> u8 list \<Rightarrow> os \<Rightarrow> (int \<times> int \<times> u8 list \<times> os) res" where
  "append_seek_main e junk s =
     (let (fd1, s1) = sys_open e ''test1'' False False True s in
      if fd1 = -1 then Inr (1, 0, [], s1)
      else
        let (_, s2) = sys_write e fd1 [72, 105, 105, 105, 105] s1;
            (off, s3) = sys_lseek fd1 0 s2;
            (r, s4) = sys_read fd1 50 s3;
            bs = (case r of None \<Rightarrow> [] | Some bs \<Rightarrow> bs)
        in bind_res (print_array (bs @ drop (length bs) junk)) (\<lambda>text.
          let (_, s5) = sys_lseek fd1 0 s4;
              (_, s6) = sys_write e fd1 [65, 98, 98, 98, 98] s5
          in Inr (0, off, text, sys_close fd1 s6)))"

section \<open>Calls on an open file\<close>

lemma contents_upd [simp]:
  "contents (s\<lparr>disk := (disk s)(name \<mapsto> c)\<rparr>) name' = (if name' = name then c else contents s name')"
  by (simp add: contents_def)

lemma put_at_end [simp]: "put_at (length c) bs c = c @ bs"
  by (simp add: put_at_def)

lemma put_at_twice: "p \<le> length c \<Longrightarrow> put_at (p + length bs) bs' (put_at p bs c) = put_at p (bs @ bs') c"
  by (simp add: put_at_def min_absorb2 ac_simps)

lemma sys_read_file:
  assumes "descs s fd = Some f" "fd \<noteq> 0"
  shows "sys_read fd n s = (let bs = take n (drop (of_pos f) (contents s (of_name f))) in
    (Some bs, s\<lparr>descs := (descs s)(fd \<mapsto> f\<lparr>of_pos := of_pos f + length bs\<rparr>)\<rparr>))"
  using assms by (simp add: sys_read_def Let_def)

lemma sys_write_file:
  assumes "descs s fd = Some f" "fd \<noteq> 1" "takes_all e" "length data \<le> 4096"
  shows "sys_write e fd data s =
    (let c = contents s (of_name f); p = (if of_append f then length c else of_pos f) in
     (int (length data), s\<lparr>writes := writes s + 1, disk := (disk s)(of_name f \<mapsto> put_at p data c),
        descs := (descs s)(fd \<mapsto> f\<lparr>of_pos := p + length data\<rparr>)\<rparr>))"
proof -
  obtain n where "n \<ge> 4096" "accepted e (writes s) = Some n" using assms(3) by (auto simp: takes_all_def)
  with assms show ?thesis by (simp add: sys_write_def Let_def)
qed

lemma sys_write_out:
  assumes "takes_all e" "length data \<le> 4096"
  shows "sys_write e 1 data s = (int (length data), s\<lparr>writes := writes s + 1, std_out := std_out s @ data\<rparr>)"
proof -
  obtain n where "n \<ge> 4096" "accepted e (writes s) = Some n" using assms(1) by (auto simp: takes_all_def)
  with assms(2) show ?thesis by (simp add: sys_write_def Let_def)
qed

end
