(* ===== verification/File_Properties.thy ===== *)
theory File_Properties
  imports Posix_Files
begin

text \<open>
  What the exercises on files leave behind: the sparse file, the copy of the terminal's input, the
  appended copy, and the effect of \<open>O_APPEND\<close> after \<open>lseek\<close>.
\<close>

section \<open>A file with a hole\<close>

lemma open_new:
  assumes "os_ok s" "sys_open e name cr tr ap s = (fd, s')" "0 \<le> fd"
  shows "2 < fd" "descs s' fd = Some \<lparr>of_name = name, of_pos = 0, of_append = ap\<rparr>"
    "disk s' = (disk s)(name \<mapsto> if tr then [] else contents s name)" "writes s' = writes s"
    "std_in s' = std_in s" "std_out s' = std_out s" "os_ok s'"
proof -
  have less: "fd \<le> next_fd s" if "descs s fd = Some f" for fd f
    using assms(1) that by (force simp: os_ok_def)
  show "2 < fd" "descs s' fd = Some \<lparr>of_name = name, of_pos = 0, of_append = ap\<rparr>"
    "disk s' = (disk s)(name \<mapsto> if tr then [] else contents s name)" "writes s' = writes s"
    "std_in s' = std_in s" "std_out s' = std_out s" "os_ok s'"
    using assms less by (auto simp: sys_open_def os_ok_def split: if_splits)
qed

lemma open_fails: "sys_open e name cr tr ap s = (fd, s') \<Longrightarrow> os_ok s \<Longrightarrow> fd < 0 \<Longrightarrow> s' = s"
  by (auto simp: sys_open_def os_ok_def split: if_splits)

lemma open_works:
  "os_ok s \<Longrightarrow> sys_open e name cr tr ap s = (fd, s') \<Longrightarrow>
   0 \<le> fd \<longleftrightarrow> allows e name \<and> (name \<in> dom (disk s) \<or> cr)"
  by (auto simp: sys_open_def os_ok_def split: if_splits)

text \<open>A write of the exercise: all ten bytes, or a result that the program takes for an error.\<close>

lemma write_ten:
  assumes "descs s fd = Some f" "fd \<noteq> 1" "\<not> of_append f" "length data = 10"
    "sys_write e fd data s = (n, s')"
  shows "(n = 10 \<longrightarrow> disk s' = (disk s)(of_name f \<mapsto> put_at (of_pos f) data (contents s (of_name f))) \<and>
       descs s' = (descs s)(fd \<mapsto> f\<lparr>of_pos := of_pos f + 10\<rparr>))"
    "takes_all e \<Longrightarrow> n = 10" "\<forall>name. name \<noteq> of_name f \<longrightarrow> disk s' name = disk s name"
proof -
  show "takes_all e \<Longrightarrow> n = 10"
    using assms by (auto simp: sys_write_file Let_def)
qed (use assms in \<open>auto simp: sys_write_def Let_def split: option.splits\<close>)

text \<open>
  \<open>l3-lseek1\<close> ends with 0 or 1. When it ends with 0, the file holds ten letters, thirty zero
  bytes and ten letters, whatever it held before; when the file may be created and every write
  is taken, it does end with 0. No other file changes.
\<close>

theorem lseek1_hole:
  assumes "os_ok s"
  shows "case lseek1_main e s of (rc, s') \<Rightarrow>
    (rc = 0 \<or> rc = 1) \<and> (allows e ''file.hole'' \<and> takes_all e \<longrightarrow> rc = 0) \<and>
    (rc = 0 \<longrightarrow> disk s' ''file.hole'' = Some (buf1 @ replicate 30 0 @ buf2)) \<and>
    (\<forall>name. name \<noteq> ''file.hole'' \<longrightarrow> disk s' name = disk s name)"
proof -
  let ?n = "''file.hole''"
  obtain fd s1 where o: "sys_open e ?n True True False s = (fd, s1)" by fastforce
  show ?thesis
  proof (cases "fd < 0")
    case True
    with open_fails [OF o assms] open_works [OF assms o] show ?thesis
      by (simp add: lseek1_main_def o)
  next
    case False
    then have fd: "0 \<le> fd" by simp
    note new = open_new [OF assms o fd]
    obtain n s2 where w1: "sys_write e fd buf1 s1 = (n, s2)" by fastforce
    have 1: "(n = 10 \<longrightarrow> disk s2 = (disk s1)(?n \<mapsto> buf1) \<and>
        descs s2 = (descs s1)(fd \<mapsto> \<lparr>of_name = ?n, of_pos = 10, of_append = False\<rparr>))"
      "takes_all e \<Longrightarrow> n = 10" "\<forall>name. name \<noteq> ?n \<longrightarrow> disk s2 name = disk s1 name"
      using write_ten [OF new(2) _ _ _ w1] new(1,3)
      by (auto simp: buf1_def put_at_def contents_def)
    show ?thesis
    proof (cases "n = 10")
      case False
      with 1 new(3) show ?thesis by (auto simp: lseek1_main_def o w1 fd not_less [symmetric])
    next
      case True
      obtain off s3 where l: "sys_lseek fd 40 s2 = (off, s3)" by fastforce
      then have 3: "off = 40" "disk s3 = disk s2"
        "descs s3 = (descs s2)(fd \<mapsto> \<lparr>of_name = ?n, of_pos = 40, of_append = False\<rparr>)"
        using 1(1) True by (auto simp: sys_lseek_def)
      obtain n' s4 where w2: "sys_write e fd buf2 s3 = (n', s4)" by fastforce
      have "put_at 40 buf2 buf1 = buf1 @ replicate 30 0 @ buf2"
        by (simp add: put_at_def buf1_def buf2_def)
      moreover have "n' = 10 \<longrightarrow> disk s4 = (disk s3)(?n \<mapsto> put_at 40 buf2 buf1)"
        "takes_all e \<Longrightarrow> n' = 10" "\<forall>name. name \<noteq> ?n \<longrightarrow> disk s4 name = disk s3 name"
        using write_ten [OF _ _ _ _ w2] new(1) 1(1) True 3
        by (auto simp: buf2_def contents_def)
      ultimately show ?thesis
        using 1(3) 3(1,2) new(3) True fd by (auto simp: lseek1_main_def o w1 l w2 not_less [symmetric])
    qed
  qed
qed

definition sample_os :: os where
  "sample_os = \<lparr>disk = [''test1'' \<mapsto> [1, 2], ''test2'' \<mapsto> [3, 4], ''out.out'' \<mapsto> [7, 7, 7]],
     descs = (\<lambda>_. None), next_fd = 3, std_in = [104, 105, 46, 106], std_out = [], writes = 0\<rparr>"

definition sample_os_env :: os_env where
  "sample_os_env = \<lparr>allows = (\<lambda>_. True), accepted = (\<lambda>_. Some 4096)\<rparr>"

lemma sample_os_facts [simp]:
  "os_ok sample_os" "takes_all sample_os_env" "allows sample_os_env name"
  "disk sample_os = [''test1'' \<mapsto> [1, 2], ''test2'' \<mapsto> [3, 4], ''out.out'' \<mapsto> [7, 7, 7]]"
  "std_in sample_os = [104, 105, 46, 106]" "std_out sample_os = []"
  by (simp_all add: os_ok_def takes_all_def sample_os_def sample_os_env_def)

theorem lseek1_hole_witness:
  "\<exists>s'. lseek1_main sample_os_env sample_os = (0, s') \<and>
     disk s' ''file.hole'' = Some (buf1 @ replicate 30 0 @ buf2) \<and> disk s' ''test1'' = Some [1, 2]"
  using lseek1_hole [of sample_os sample_os_env] by (auto split: prod.splits)

section \<open>Copying the terminal\<close>

text \<open>One turn of the loop, when a character was typed and every write is taken.\<close>

lemma readwrite1_turn:
  assumes "b \<noteq> 46" "std_in s = c # cs" "descs s fd = Some f" "fd \<noteq> 0" "fd \<noteq> 1" "\<not> of_append f"
    "takes_all e"
  obtains s' where "readwrite1_loop e fd b s = readwrite1_loop e fd c s'"
    "std_in s' = cs" "std_out s' = std_out s @ [c]" "descs s' fd = Some (f\<lparr>of_pos := of_pos f + 1\<rparr>)"
    "disk s' = (disk s)(of_name f \<mapsto> put_at (of_pos f) [c] (contents s (of_name f)))"
proof -
  let ?s1 = "s\<lparr>std_in := cs\<rparr>"
  have r: "sys_read 0 1 s = (Some [c], ?s1)" using assms(2) by (simp add: sys_read_def)
  have w: "sys_write e fd [c] ?s1 = (1, ?s1\<lparr>writes := writes s + 1,
      disk := (disk s)(of_name f \<mapsto> put_at (of_pos f) [c] (contents s (of_name f))),
      descs := (descs s)(fd \<mapsto> f\<lparr>of_pos := of_pos f + 1\<rparr>)\<rparr>)"
    using assms(3,5-7) sys_write_file [of ?s1 fd f e "[c]"] by (simp add: Let_def contents_def)
  let ?s2 = "snd (sys_write e fd [c] ?s1)"
  have "readwrite1_loop e fd b s = readwrite1_loop e fd c (?s2\<lparr>writes := writes ?s2 + 1, std_out := std_out ?s2 @ [c]\<rparr>)"
    using assms(1) by (simp add: readwrite1_loop.simps [of e fd b s] r [unfolded One_nat_def] w Let_def sys_write_out [OF assms(7)])
  then show ?thesis by (rule that) (simp_all add: w)
qed

lemma readwrite1_copies:
  assumes "std_in s = pre @ 46 # rest" "46 \<notin> set pre" "b \<noteq> 46" "descs s fd = Some f" "fd \<noteq> 0" "fd \<noteq> 1"
    "\<not> of_append f" "takes_all e" "of_pos f \<le> length (contents s (of_name f))"
  shows "\<exists>s'. readwrite1_loop e fd b s = Some s' \<and> std_in s' = rest \<and> std_out s' = std_out s @ pre @ [46] \<and>
    disk s' = (disk s)(of_name f \<mapsto> put_at (of_pos f) (pre @ [46]) (contents s (of_name f)))"
  using assms
proof (induction pre arbitrary: s b f)
  case Nil
  obtain s' where s': "readwrite1_loop e fd b s = readwrite1_loop e fd 46 s'"
    "std_in s' = rest" "std_out s' = std_out s @ [46]"
    "disk s' = (disk s)(of_name f \<mapsto> put_at (of_pos f) [46] (contents s (of_name f)))"
    by (rule readwrite1_turn [OF Nil.prems(3) _ Nil.prems(4-8)]) (use Nil.prems(1) in simp)
  then show ?case by (simp add: readwrite1_loop.simps [of e fd 46] fun_upd_def)
next
  case (Cons c pre)
  obtain s' where s': "readwrite1_loop e fd b s = readwrite1_loop e fd c s'"
    "std_in s' = pre @ 46 # rest" "std_out s' = std_out s @ [c]" "descs s' fd = Some (f\<lparr>of_pos := of_pos f + 1\<rparr>)"
    "disk s' = (disk s)(of_name f \<mapsto> put_at (of_pos f) [c] (contents s (of_name f)))"
    by (rule readwrite1_turn [OF Cons.prems(3) _ Cons.prems(4-8)]) (use Cons.prems(1) in simp)
  have c: "contents s' (of_name f) = put_at (of_pos f) [c] (contents s (of_name f))"
    using s'(5) by (simp add: contents_def)
  have len: "of_pos f + 1 \<le> length (contents s' (of_name f))"
    using Cons.prems(9) by (simp add: c put_at_def)
  obtain s2 where s2: "readwrite1_loop e fd c s' = Some s2" "std_in s2 = rest" "std_out s2 = std_out s' @ pre @ [46]"
    "disk s2 = (disk s')(of_name f \<mapsto> put_at (of_pos f + 1) (pre @ [46]) (contents s' (of_name f)))"
    using Cons.IH [of s' c "f\<lparr>of_pos := of_pos f + 1\<rparr>"] s'(2,4) Cons.prems len
    by (auto simp: fun_upd_def)
  have "disk s2 = (disk s)(of_name f \<mapsto> put_at (of_pos f) (c # pre @ [46]) (contents s (of_name f)))"
    using s2(4) s'(5) c put_at_twice [OF Cons.prems(9), of "[c]" "pre @ [46]"] by simp
  with s2(1-3) s'(1,3) show ?case by (intro exI [of _ s2]) simp
qed

lemma readwrite1_no_stop:
  assumes "readwrite1_loop e fd b s = Some s'"
  shows "b = 46 \<or> 46 \<in> set (std_in s)"
proof (rule readwrite1_loop.raw_induct [where P = "\<lambda>e fd b s s'. b = 46 \<or> 46 \<in> set (std_in s)", OF _ assms])
  fix loop e fd b s s'
  assume IH: "\<And>e fd b s s'. loop e fd b s = Some s' \<Longrightarrow> b = 46 \<or> 46 \<in> set (std_in s)"
    and eq: "(if b = 46 then Some s
      else let (r, s1) = sys_read 0 1 s; b' = (case r of Some (c # _) \<Rightarrow> c | _ \<Rightarrow> b);
        s2 = snd (sys_write e fd [b'] s1); s3 = snd (sys_write e 1 [b'] s2) in loop e fd b' s3) = Some s'"
  have frame: "std_in (snd (sys_write e fd data s)) = std_in s" for fd data and s :: os
    by (auto simp: sys_write_def Let_def split: option.splits)
  show "b = 46 \<or> 46 \<in> set (std_in s)"
  proof (cases "std_in s")
    case Nil
    with eq show ?thesis by (auto simp: sys_read_def Let_def frame split: if_splits dest: IH)
  next
    case (Cons c cs)
    with eq show ?thesis by (auto simp: sys_read_def Let_def frame split: if_splits dest: IH)
  qed
qed

text \<open>
  \<open>l3-readwrite1\<close> copies what is typed, up to and with the first full stop, to the terminal and
  over the beginning of its file, of which a longer old content keeps its tail; provided the
  array does not hold a full stop by chance. When the input has no full stop, the program never
  ends, the end of the input included.
\<close>

theorem readwrite1_copies_until_stop:
  assumes "os_ok s" "takes_all e" "allows e ''out.out''" "junk \<noteq> 46"
  shows "(\<forall>pre rest. std_in s = pre @ 46 # rest \<longrightarrow> 46 \<notin> set pre \<longrightarrow>
      (\<exists>s'. readwrite1_main e junk s = Some (0, s') \<and> std_in s' = rest \<and> std_out s' = std_out s @ pre @ [46] \<and>
         disk s' ''out.out'' = Some (pre @ [46] @ drop (length pre + 1) (contents s ''out.out'')))) \<and>
    (46 \<notin> set (std_in s) \<longrightarrow> readwrite1_main e junk s = None)"
proof -
  obtain fd s1 where o: "sys_open e ''out.out'' True False False s = (fd, s1)" by fastforce
  have fd: "0 \<le> fd" using open_works [OF assms(1) o] assms(3) by simp
  note new = open_new [OF assms(1) o fd]
  have c: "contents s1 ''out.out'' = contents s ''out.out''" using new(3) by (simp add: contents_def)
  have "\<exists>s'. readwrite1_main e junk s = Some (0, s') \<and> std_in s' = rest \<and> std_out s' = std_out s @ pre @ [46] \<and>
      disk s' ''out.out'' = Some (pre @ [46] @ drop (length pre + 1) (contents s ''out.out''))"
    if "std_in s = pre @ 46 # rest" "46 \<notin> set pre" for pre rest
  proof -
    from readwrite1_copies [of s1 pre rest junk fd _ e, OF _ that(2) assms(4) new(2) _ _ _ assms(2)] that(1) new(1,5)
    obtain s2 where "readwrite1_loop e fd junk s1 = Some s2" "std_in s2 = rest" "std_out s2 = std_out s1 @ pre @ [46]"
      "disk s2 = (disk s1)(''out.out'' \<mapsto> put_at 0 (pre @ [46]) (contents s1 ''out.out''))"
      by auto
    then show ?thesis
      using new(6) c by (simp add: readwrite1_main_def o sys_close_def put_at_def)
  qed
  moreover have "readwrite1_main e junk s = None" if "46 \<notin> set (std_in s)"
    using readwrite1_no_stop [of e fd junk s1] assms(4) that new(5)
    by (cases "readwrite1_loop e fd junk s1") (auto simp: readwrite1_main_def o)
  ultimately show ?thesis by blast
qed

theorem readwrite1_copies_until_stop_witness:
  "\<exists>s'. readwrite1_main sample_os_env 0 sample_os = Some (0, s') \<and> std_out s' = [104, 105, 46] \<and>
     disk s' ''out.out'' = Some [104, 105, 46]"
proof -
  have "std_in sample_os = [104, 105] @ 46 # [106]" by simp
  with readwrite1_copies_until_stop [of sample_os sample_os_env 0] show ?thesis
    by (fastforce simp: contents_def)
qed

section \<open>Appending a file to another\<close>

lemma copy_loop_appends:
  assumes "descs s fd2 = Some g" "descs s fd1 = Some f" "fd1 \<noteq> fd2" "fd1 \<notin> {0, 1}" "fd2 \<noteq> 0"
    "of_append f" "of_name f \<noteq> of_name g" "takes_all e" "drop (of_pos g) (contents s (of_name g)) = cs"
  shows "\<exists>s'. copy_loop e fd1 fd2 b s = Some s' \<and>
    (disk s' = (if cs = [] then disk s else (disk s)(of_name f \<mapsto> contents s (of_name f) @ cs)))"
  using assms
proof (induction cs arbitrary: s f g b)
  case Nil
  then have "sys_read fd2 1 s = (Some [], s\<lparr>descs := (descs s)(fd2 \<mapsto> g)\<rparr>)"
    by (simp add: sys_read_file Let_def)
  then show ?case by (simp add: copy_loop.simps [of e fd1 fd2 b s])
next
  case (Cons c cs)
  let ?g = "g\<lparr>of_pos := of_pos g + 1\<rparr>"
  let ?s1 = "s\<lparr>descs := (descs s)(fd2 \<mapsto> ?g)\<rparr>"
  have r: "sys_read fd2 1 s = (Some [c], ?s1)"
    using Cons.prems(1,5,9) by (simp add: sys_read_file Let_def)
  define s2 where "s2 = snd (sys_write e fd1 [c] ?s1)"
  have w: "disk s2 = (disk s)(of_name f \<mapsto> contents s (of_name f) @ [c])"
    "descs s2 fd2 = Some ?g" "\<exists>n. descs s2 fd1 = Some (f\<lparr>of_pos := n\<rparr>)"
    using Cons.prems(2-4,6,8) sys_write_file [of ?s1 fd1 f e "[c]"]
    by (auto simp: s2_def Let_def contents_def)
  then obtain n where n: "descs s2 fd1 = Some (f\<lparr>of_pos := n\<rparr>)" by blast
  have c: "contents s2 (of_name f) = contents s (of_name f) @ [c]" "contents s2 (of_name g) = contents s (of_name g)"
    using w(1) Cons.prems(7) by (simp_all add: contents_def)
  have d: "drop (of_pos g + 1) (contents s2 (of_name g)) = cs"
    using Cons.prems(9) c(2) by (metis drop_drop drop0 drop_Suc_Cons One_nat_def add.commute)
  obtain s' where "copy_loop e fd1 fd2 c s2 = Some s'"
    "disk s' = (if cs = [] then disk s2 else (disk s2)(of_name f \<mapsto> contents s2 (of_name f) @ cs))"
    using Cons.IH [of s2 ?g "f\<lparr>of_pos := n\<rparr>" c] w(2) n Cons.prems(3-8) d by auto
  moreover have "copy_loop e fd1 fd2 b s = copy_loop e fd1 fd2 c s2"
    using r [unfolded One_nat_def] by (simp add: copy_loop.simps [of e fd1 fd2 b s] s2_def)
  ultimately have "copy_loop e fd1 fd2 b s = Some s'"
    "disk s' = (disk s)(of_name f \<mapsto> contents s (of_name f) @ c # cs)"
    using w(1) c(1) by (simp_all split: if_splits)
  then show ?case by auto
qed

text \<open>
  \<open>l4-1\<close> appends the second file to the first and leaves the second and all other files alone,
  when both exist and may be opened and every write is taken; when one cannot be opened, it ends
  with 1 and no file changes.
\<close>

theorem append_copy_appends:
  assumes "os_ok s"
  shows "(allows e ''test1'' \<and> allows e ''test2'' \<and> {''test1'', ''test2''} \<subseteq> dom (disk s) \<and> takes_all e \<longrightarrow>
      (\<exists>s'. append_copy_main e junk s = Some (0, s') \<and>
         disk s' = (disk s)(''test1'' \<mapsto> contents s ''test1'' @ contents s ''test2''))) \<and>
    (\<not> (allows e ''test1'' \<and> ''test1'' \<in> dom (disk s)) \<or> \<not> (allows e ''test2'' \<and> ''test2'' \<in> dom (disk s)) \<longrightarrow>
      (\<exists>s'. append_copy_main e junk s = Some (1, s') \<and> disk s' = disk s))"
proof -
  obtain fd1 s1 where o1: "sys_open e ''test1'' False False True s = (fd1, s1)" by fastforce
  obtain fd2 s2 where o2: "sys_open e ''test2'' False False False s1 = (fd2, s2)" by fastforce
  note a1 = open_works [OF assms o1]
  have minus: "fd = -1 \<longleftrightarrow> fd < 0" if "os_ok s" "sys_open e name cr tr ap s = (fd, s')" for fd name cr tr ap s s'
    using that by (auto simp: sys_open_def os_ok_def split: if_splits)
  show ?thesis
  proof (cases "0 \<le> fd1")
    case False
    with a1 open_fails [OF o1 assms] minus [OF assms o1] show ?thesis
      by (auto simp: append_copy_main_def o1)
  next
    case fd1: True
    note n1 = open_new [OF assms o1 fd1]
    have d1: "disk s1 = disk s" using a1 fd1 n1(3) by (auto simp: contents_def)
    have next1: "next_fd s1 = fd1 + 1"
      using o1 fd1 by (auto simp: sys_open_def split: if_splits)
    note a2 = open_works [OF n1(7) o2]
    show ?thesis
    proof (cases "0 \<le> fd2")
      case False
      with a1 fd1 a2 open_fails [OF o2 n1(7)] minus [OF n1(7) o2] d1 n1(1) show ?thesis
        by (auto simp: append_copy_main_def o1 o2)
    next
      case fd2: True
      note n2 = open_new [OF n1(7) o2 fd2]
      have d2: "disk s2 = disk s" using a2 fd2 n2(3) d1 by (auto simp: contents_def)
      then have c: "contents s2 name = contents s name" for name by (simp add: contents_def)
      have f: "descs s2 fd1 = Some \<lparr>of_name = ''test1'', of_pos = 0, of_append = True\<rparr>" "fd1 \<noteq> fd2"
        using o2 n1(2) next1 fd2 by (auto simp: sys_open_def split: if_splits)
      have "\<exists>s'. append_copy_main e junk s = Some (0, s') \<and>
         disk s' = (disk s)(''test1'' \<mapsto> contents s ''test1'' @ contents s ''test2'')" if "takes_all e"
      proof -
        from copy_loop_appends [OF n2(2) f _ _ _ _ that, of "contents s ''test2''" junk] n1(1) n2(1) c
        obtain s3 where "copy_loop e fd1 fd2 junk s2 = Some s3"
          "disk s3 = (if contents s ''test2'' = [] then disk s2
             else (disk s2)(''test1'' \<mapsto> contents s ''test1'' @ contents s ''test2''))" by auto
        moreover have "(disk s)(''test1'' \<mapsto> contents s ''test1'') = disk s"
          using a1 fd1 by (auto simp: contents_def)
        ultimately show ?thesis
          using n1(1) n2(1) d2 by (auto simp: append_copy_main_def o1 o2 sys_close_def)
      qed
      with a1 a2 fd1 fd2 d1 show ?thesis by auto
    qed
  qed
qed

theorem append_copy_appends_witness:
  "\<exists>s'. append_copy_main sample_os_env 0 sample_os = Some (0, s') \<and> disk s' ''test1'' = Some [1, 2, 3, 4]"
  using append_copy_appends [of sample_os sample_os_env 0] by (auto simp: contents_def)

section \<open>Seeking in a file opened for appending\<close>

text \<open>
  C39: \<open>l4-2\<close>: a file opened with \<open>O_APPEND\<close> is written at its end although \<open>lseek\<close> moved to its
  beginning, so both words stand behind the old content, and the offset printed is 0. The text
  printed is the beginning of the file, and whatever stands behind it in the array up to a zero
  byte: when the file has no zero byte in its first fifty, and the array none behind what was
  read, the program reads past the array.
\<close>

theorem append_seek_appends:
  assumes "os_ok s" "takes_all e" "allows e ''test1''" "disk s ''test1'' = Some c" "length junk = 50"
    and "m = take 50 (c @ [72, 105, 105, 105, 105]) @ drop (length c + 5) junk"
  shows "if 0 \<in> set m
    then \<exists>s'. append_seek_main e junk s = Inr (0, 0, takeWhile (\<lambda>b. b \<noteq> 0) m, s') \<and>
      disk s' = (disk s)(''test1'' \<mapsto> c @ [72, 105, 105, 105, 105] @ [65, 98, 98, 98, 98])
    else append_seek_main e junk s = Inl OutOfBounds"
proof -
  let ?h = "[72, 105, 105, 105, 105] :: u8 list" and ?a = "[65, 98, 98, 98, 98] :: u8 list"
  obtain fd s1 where o: "sys_open e ''test1'' False False True s = (fd, s1)" by fastforce
  have fd: "0 \<le> fd" using open_works [OF assms(1) o] assms(3,4) by auto
  note n = open_new [OF assms(1) o fd]
  define f where "f = \<lparr>of_name = ''test1'', of_pos = 0, of_append = True\<rparr>"
  have c1: "contents s1 ''test1'' = c" using n(3) assms(4) by (simp add: contents_def)
  obtain s2 where w: "sys_write e fd ?h s1 = (5, s2)" "disk s2 = (disk s1)(''test1'' \<mapsto> c @ ?h)"
    "descs s2 fd = Some (f\<lparr>of_pos := length c + 5\<rparr>)"
    using sys_write_file [OF n(2) _ assms(2), of ?h] n(1) c1 by (simp add: Let_def f_def)
  obtain s3 where l: "sys_lseek fd 0 s2 = (0, s3)" "disk s3 = disk s2" "descs s3 fd = Some f"
    using w(3) by (simp add: sys_lseek_def f_def)
  have c3: "contents s3 ''test1'' = c @ ?h" using l(2) w(2) by (simp add: contents_def)
  let ?bs = "take 50 (c @ ?h)"
  obtain s4 where r: "sys_read fd 50 s3 = (Some ?bs, s4)" "disk s4 = disk s3"
    "descs s4 fd = Some (f\<lparr>of_pos := length ?bs\<rparr>)"
    using sys_read_file [OF l(3), of 50] n(1) c3 by (simp add: Let_def f_def)
  obtain s5 where l2: "sys_lseek fd 0 s4 = (0, s5)" "disk s5 = disk s4" "descs s5 fd = Some f"
    using r(3) by (simp add: sys_lseek_def f_def)
  have c5: "contents s5 ''test1'' = c @ ?h" using l2(2) r(2) c3 by (simp add: contents_def)
  obtain s6 where w2: "sys_write e fd ?a s5 = (5, s6)" "disk s6 = (disk s5)(''test1'' \<mapsto> (c @ ?h) @ ?a)"
    using sys_write_file [OF l2(3) _ assms(2), of ?a] n(1) c5 by (simp add: Let_def f_def)
  have m: "m = ?bs @ drop (length ?bs) junk"
    using assms(5,6) by (cases "length c + 5 \<le> 50") (simp_all add: eval_nat_numeral)
  have d: "disk s6 = (disk s)(''test1'' \<mapsto> c @ ?h @ ?a)"
    using w2(2) l2(2) r(2) l(2) w(2) n(3) by simp
  have "append_seek_main e junk s = bind_res (print_array m) (\<lambda>text. Inr (0, 0, text, sys_close fd s6))"
    using n(1) unfolding m by (simp add: append_seek_main_def o w(1) l(1) r(1) l2(1) w2(1) Let_def)
  with d show ?thesis by (simp add: print_array_def sys_close_def)
qed

theorem append_seek_appends_witness:
  "\<exists>s'. append_seek_main sample_os_env (replicate 50 0) sample_os =
       Inr (0, 0, [1, 2, 72, 105, 105, 105, 105], s') \<and>
     disk s' ''test1'' = Some [1, 2, 72, 105, 105, 105, 105, 65, 98, 98, 98, 98]"
  using append_seek_appends [of sample_os sample_os_env "[1, 2]" "replicate 50 0", OF _ _ _ _ _ refl] by auto

end
