(* ===== verification/Net_Exercises.thy ===== *)
theory Net_Exercises
  imports Posix_Files
begin

text \<open>
  The exercises on sockets: the echo client and server over datagrams (\<open>src/l6-EchoClient.c\<close>,
  \<open>src/l6-EchoServer.c\<close>) and the file transfer over a stream (\<open>src/l7-Client.c\<close>,
  \<open>src/l7-Server.c\<close>). A string of C is the list of its bytes without the zero. A failing \<open>socket\<close>,
  \<open>bind\<close> or \<open>connect\<close>, which is only reported or not tested, does not occur.
\<close>

section \<open>Echo\<close>

abbreviation (input) ECHOMAX :: nat where "ECHOMAX \<equiv> 255"

text \<open>
  The loop of the client over the words: each is sent as a datagram; the flag is the report that
  the word is too long, which does not keep it from being sent.
\<close>

fun echo_send :: "u8 list list \<Rightarrow> (u8 list \<times> bool) list" where
  "echo_send [] = []"
| "echo_send (w # ws) = (w, length w > ECHOMAX) # echo_send ws"

text \<open>The exit status, the address and port of the server, and what was sent.\<close>

definition echo_client_main ::
    "(u8 list \<Rightarrow> u32) \<Rightarrow> u8 list list \<Rightarrow> int \<times> (u32 \<times> u16) option \<times> (u8 list \<times> bool) list" where
  "echo_client_main inet_addr argv =
     (if length argv < 3 then (1, None, [])
      else (0, Some (inet_addr (argv ! 1), 56325), echo_send (drop 2 argv)))"

text \<open>
  One turn of the server: the sender, the number read from its port field, and the text printed.
  \<open>None\<close> is a failing \<open>recvfrom\<close>, which returns -1 and is then used as an index.
\<close>

definition echo_recv ::
    "(u32 \<times> u16 \<times> u8 list) option \<Rightarrow> u8 list \<Rightarrow> ((u32 \<times> u16 \<times> u8 list) \<times> u8 list) res" where
  "echo_recv input buf =
     (case input of
        None \<Rightarrow> Inl OutOfBounds
      | Some (ip, port, g) \<Rightarrow>
          let bs = take ECHOMAX g in
          bind_res (store_bytes buf 0 bs) (\<lambda>b1.
          bind_res (store_bytes b1 (length bs) [0]) (\<lambda>b2.
          bind_res (print_array b2) (\<lambda>text. Inr ((ip, port, text), b2)))))"

text \<open>The text printed for a sequence of arrivals, from an array with any contents.\<close>

fun echo_server_run :: "(u32 \<times> u16 \<times> u8 list) option list \<Rightarrow> u8 list \<Rightarrow> (u32 \<times> u16 \<times> u8 list) list res" where
  "echo_server_run [] buf = Inr []"
| "echo_server_run (input # ins) buf =
     bind_res (echo_recv input buf) (\<lambda>(line, buf').
     bind_res (echo_server_run ins buf') (\<lambda>lines. Inr (line # lines)))"

section \<open>File transfer\<close>

definition name_of :: "u8 list \<Rightarrow> string" where
  "name_of bs = map (\<lambda>b. char_of (unat b)) bs"

text \<open>
  The server's inner loop: what has been sent so far, and the count \<open>transferSize\<close>, an \<open>int\<close>. \<open>read\<close> on a descriptor that was not opened
  returns -1, which is not 0, and \<open>send\<close> is then called with a length far beyond its buffer of 100
  bytes.
\<close>

partial_function (option) send_loop ::
    "int \<Rightarrow> u8 list \<Rightarrow> i32 \<Rightarrow> os \<Rightarrow> (u8 list \<times> i32 \<times> os) res option" where
  "send_loop fd stream transferSize s =
     (let (r, s1) = sys_read fd 50 s in
      case r of
        None \<Rightarrow> Some (Inl OutOfBounds)
      | Some bs \<Rightarrow>
          if bs = [] then Some (Inr (stream, transferSize, s1))
          else send_loop fd (stream @ bs) (transferSize + of_nat (length bs)) s1)"

text \<open>
  One connection: \<open>fileName\<close> is the array of 20 bytes, which keeps its contents from one connection
  to the next; the request is what \<open>recv\<close> delivers (\<open>None\<close> is -1). The result is the stream sent
  and the number printed of its bytes, if the request was not empty.
\<close>

definition serve_file ::
    "os_env \<Rightarrow> u8 list option \<Rightarrow> u8 list \<Rightarrow> os \<Rightarrow> ((u8 list \<times> int) option \<times> u8 list \<times> os) res" where
  "serve_file e request fileName s =
     (if request = Some [] then Inr (None, fileName, s)
      else
        let fileName = (case request of None \<Rightarrow> fileName
              | Some bs \<Rightarrow> take 20 bs @ drop (length (take 20 bs)) fileName) in
        bind_res (print_array fileName) (\<lambda>name.
        bind_res (store_bytes fileName (length name) [0]) (\<lambda>fileName.
          let (file, s1) = sys_open e (name_of name) False False False s in
          case send_loop file [] 0 s1 of
            None \<Rightarrow> Inl Diverges
          | Some r \<Rightarrow> bind_res r (\<lambda>(stream, transferSize, s2).
              Inr (Some (stream, sint transferSize), fileName, sys_close file s2)))))"

text \<open>The server's loop over the connections: the streams that the clients get and the numbers printed.\<close>

fun file_server_run ::
    "os_env \<Rightarrow> u8 list option list \<Rightarrow> u8 list \<Rightarrow> os \<Rightarrow> (u8 list \<times> int) option list res" where
  "file_server_run e [] fileName s = Inr []"
| "file_server_run e (request # rs) fileName s =
     bind_res (serve_file e request fileName s) (\<lambda>(stream, fileName', s').
     bind_res (file_server_run e rs fileName' s') (\<lambda>streams. Inr (stream # streams)))"

text \<open>
  The client's loop: the pieces in which the stream arrives, of at most 50 bytes each, and its end.
  A failing \<open>recv\<close> returns -1, which is not 0, and \<open>write\<close> is then called with a length far beyond
  its buffer.
\<close>

fun recv_loop :: "os_env \<Rightarrow> int \<Rightarrow> u8 list option list \<Rightarrow> i32 \<Rightarrow> os \<Rightarrow> (i32 \<times> os) res" where
  "recv_loop e file [] transferSize s = Inr (transferSize, s)"
| "recv_loop e file (None # ins) transferSize s = Inl OutOfBounds"
| "recv_loop e file (Some piece # ins) transferSize s =
     (if piece = [] then Inr (transferSize, s)
      else recv_loop e file ins (transferSize + of_nat (length piece)) (snd (sys_write e file piece s)))"

text \<open>
  \<open>main\<close>: the request sent, the number of bytes printed and the state. \<open>room\<close> is the number of bytes
  that may be written behind the string \<open>argv[2]\<close>, to which \<open>strcat\<close> appends four.
\<close>

definition file_client_main ::
    "os_env \<Rightarrow> u8 list list \<Rightarrow> nat \<Rightarrow> u8 list option list \<Rightarrow> os \<Rightarrow> (int \<times> u8 list \<times> int \<times> os) res" where
  "file_client_main e argv room ins s =
     (if length argv \<noteq> 3 then Inr (1, [], 0, s)
      else
        let request = argv ! 2 in
        if room < 4 then Inl OutOfBounds
        else
          let (file, s1) = sys_open e (name_of (request @ [46, 98, 97, 107])) True False False s
          in bind_res (recv_loop e file ins 0 s1) (\<lambda>(transferSize, s2).
               Inr (0, request, sint transferSize, sys_close file s2)))"

end
