(* ===== verification/Net_Properties.thy ===== *)
theory Net_Properties
  imports Net_Exercises File_Properties
begin

text \<open>
  What the exercises on sockets do together: the words that the echo client sends are what the
  echo server prints, up to the length at which the server leaves its array; the file that the
  transfer server reads is what the transfer client stores.
\<close>

section \<open>Echo\<close>

lemma print_array_prefix: "0 \<notin> set w \<Longrightarrow> print_array (w @ 0 # rest) = Inr w"
  by (simp add: print_array_def) (induction w; simp)

lemma echo_recv_short:
  assumes "length buf = 255" "length w < 255" "0 \<notin> set w"
  shows "\<exists>buf'. echo_recv (Some (ip, port, w)) buf = Inr ((ip, port, w), buf') \<and> length buf' = 255"
proof -
  have "store_bytes (w @ drop (length w) buf) (length w) [0] = Inr (w @ 0 # drop (Suc (length w)) buf)"
    using assms(1,2) by (simp add: store_bytes_def)
  moreover have "store_bytes buf 0 w = Inr (w @ drop (length w) buf)"
    using assms(1,2) by (simp add: store_bytes_def)
  ultimately show ?thesis
    using assms by (simp add: echo_recv_def Let_def print_array_prefix)
qed

lemma echo_recv_long: "length buf = 255 \<Longrightarrow> 255 \<le> length w \<Longrightarrow> echo_recv (Some (ip, port, w)) buf = Inl OutOfBounds"
  by (simp add: echo_recv_def Let_def store_bytes_def)

lemma echo_sent: "map fst (echo_send ws) = ws"
  by (induction ws) auto

text \<open>
  C37: The words of the echo client's command line, sent in this order, are printed by the echo
  server in this order and unchanged, each with the address and port of the sender, whatever its
  array holds before, as long as each has fewer than 255 bytes. The first one that has 255 bytes or
  more makes the server write past its array, and among these the client reports only the ones of
  more than 255.
\<close>

theorem echo_prints_what_was_sent:
  assumes "echo_client_main inet_addr argv = (0, Some dest, sent)" "length buf = 255"
    and "\<forall>w \<in> set (drop 2 argv). 0 \<notin> set w"
  shows "map fst sent = drop 2 argv \<and>
    echo_server_run (map (\<lambda>(w, _). Some (ip, port, w)) sent) buf =
      (if \<forall>w \<in> set (drop 2 argv). length w < 255 then Inr (map (\<lambda>w. (ip, port, w)) (drop 2 argv))
       else Inl OutOfBounds) \<and>
    (\<forall>(w, reported) \<in> set sent. reported \<longleftrightarrow> 255 < length w)"
proof -
  have sent: "sent = echo_send (drop 2 argv)"
    using assms(1) by (simp add: echo_client_main_def split: if_splits)
  have "echo_server_run (map (\<lambda>(w, _). Some (ip, port, w)) (echo_send ws)) buf =
      (if \<forall>w \<in> set ws. length w < 255 then Inr (map (\<lambda>w. (ip, port, w)) ws) else Inl OutOfBounds)"
    if "\<forall>w \<in> set ws. 0 \<notin> set w" for ws
    using that assms(2)
  proof (induction ws arbitrary: buf)
    case (Cons w ws)
    show ?case
    proof (cases "length w < 255")
      case True
      with Cons.prems echo_recv_short [of buf w ip port] obtain buf' where
        b: "echo_recv (Some (ip, port, w)) buf = Inr ((ip, port, w), buf')" "length buf' = 255" by auto
      from Cons.IH [OF _ b(2)] Cons.prems(1) True show ?thesis by (simp add: b(1))
    qed (use Cons.prems(2) echo_recv_long in simp)
  qed simp
  moreover have "\<forall>(w, reported) \<in> set (echo_send ws). reported \<longleftrightarrow> 255 < length w" for ws
    by (induction ws) auto
  ultimately show ?thesis
    using assms(3) unfolding sent by (simp add: echo_sent)
qed

theorem echo_prints_what_was_sent_witness:
  "echo_server_run (map (\<lambda>(w, _). Some (1, 2, w)) (echo_send [[104, 105], [111]])) (replicate 255 7) =
     Inr [(1, 2, [104, 105]), (1, 2, [111])]"
proof -
  have "echo_client_main (\<lambda>_. 0) [[], [49], [104, 105], [111]] = (0, Some (0, 56325), echo_send [[104, 105], [111]])"
    by (simp add: echo_client_main_def eval_nat_numeral)
  moreover have "\<forall>w \<in> set (drop 2 [[], [49], [104, 105], [111]]). 0 \<notin> set (w :: u8 list)"
    "drop 2 [[], [49], [104, 105], [111]] = [[104, 105], [111 :: u8]]"
    by simp_all
  ultimately show ?thesis
    using echo_prints_what_was_sent [of "\<lambda>_. 0" _ _ _ "replicate 255 7" 1 2] by fastforce
qed

section \<open>File transfer\<close>

lemma take_drop_length: "take n xs @ drop (length (take n xs)) xs = xs"
  by (cases "n \<le> length xs") simp_all

lemma send_loop_sends:
  assumes "descs s fd = Some f" "fd \<noteq> 0"
  shows "\<exists>s'. send_loop fd stream n s =
      Some (Inr (stream @ drop (of_pos f) (contents s (of_name f)),
        n + of_nat (length (contents s (of_name f)) - of_pos f), s')) \<and>
      disk s' = disk s \<and> (os_ok s \<longrightarrow> os_ok s')"
  using assms
proof (induction "length (contents s (of_name f)) - of_pos f" arbitrary: s f stream n rule: less_induct)
  case less
  define bs where "bs = take 50 (drop (of_pos f) (contents s (of_name f)))"
  define s1 where "s1 = s\<lparr>descs := (descs s)(fd \<mapsto> f\<lparr>of_pos := of_pos f + length bs\<rparr>)\<rparr>"
  have r: "sys_read fd 50 s = (Some bs, s1)"
    using sys_read_file [OF less.prems] by (simp add: bs_def s1_def Let_def)
  show ?case
  proof (cases "bs = []")
    case True
    then have "length (contents s (of_name f)) \<le> of_pos f" by (simp add: bs_def)
    with r True less.prems(1) show ?thesis
      by (auto simp: send_loop.simps [of fd stream n s] s1_def os_ok_def)
  next
    case False
    let ?f = "f\<lparr>of_pos := of_pos f + length bs\<rparr>" and ?c = "contents s (of_name f)"
    have s1: "descs s1 fd = Some ?f" "contents s1 (of_name ?f) = ?c" "disk s1 = disk s" "os_ok s \<longrightarrow> os_ok s1"
      using less.prems(1) by (auto simp: s1_def contents_def os_ok_def)
    have len: "length bs = min 50 (length ?c - of_pos f)" by (simp add: bs_def)
    then have "length (contents s1 (of_name ?f)) - of_pos ?f < length ?c - of_pos f"
      using False s1(2) length_greater_0_conv [of bs] by (simp del: length_greater_0_conv)
    from less.hyps [OF this s1(1) less.prems(2), of "stream @ bs" "n + of_nat (length bs)"]
    obtain s' where "send_loop fd (stream @ bs) (n + of_nat (length bs)) s1 =
        Some (Inr ((stream @ bs) @ drop (of_pos f + length bs) ?c,
          n + of_nat (length bs) + of_nat (length ?c - (of_pos f + length bs)), s'))" "disk s' = disk s1"
      "os_ok s1 \<longrightarrow> os_ok s'"
      using s1(2) by auto
    moreover have "bs @ drop (of_pos f + length bs) ?c = drop (of_pos f) ?c"
      using take_drop_length [of 50 "drop (of_pos f) ?c"] by (simp add: bs_def add.commute)
    moreover have "length bs + (length ?c - (of_pos f + length bs)) = length ?c - of_pos f"
      using len by linarith
    then have "n + of_nat (length bs) + of_nat (length ?c - (of_pos f + length bs)) = n + of_nat (length ?c - of_pos f)"
      by (metis add.assoc of_nat_add)
    ultimately show ?thesis
      using r False s1(3,4) by (simp add: send_loop.simps [of fd stream n s])
  qed
qed

lemma send_loop_closed: "descs s fd = None \<Longrightarrow> fd \<noteq> 0 \<Longrightarrow> send_loop fd stream n s = Some (Inl OutOfBounds)"
  by (simp add: send_loop.simps [of fd stream n s] sys_read_def)

text \<open>The name that the server takes from its array, and the array afterwards.\<close>

definition asked_array :: "u8 list option \<Rightarrow> u8 list \<Rightarrow> u8 list" where
  "asked_array request fileName =
     (case request of None \<Rightarrow> fileName | Some bs \<Rightarrow> take 20 bs @ drop (length (take 20 bs)) fileName)"

text \<open>A request that fits, with a zero behind it, is the name; the zero stays where it is.\<close>

lemma asked_name:
  assumes "length fileName = 20" "0 \<notin> set name" "length name < 20" "fileName ! length name = 0"
  shows "asked_array (Some name) fileName = name @ 0 # drop (Suc (length name)) fileName"
    "0 \<in> set (asked_array (Some name) fileName)"
    "takeWhile (\<lambda>b. b \<noteq> 0) (asked_array (Some name) fileName) = name"
proof -
  show 1: "asked_array (Some name) fileName = name @ 0 # drop (Suc (length name)) fileName"
    using assms by (simp add: asked_array_def flip: Cons_nth_drop_Suc)
  show "0 \<in> set (asked_array (Some name) fileName)"
    "takeWhile (\<lambda>b. b \<noteq> 0) (asked_array (Some name) fileName) = name"
    using print_array_prefix [OF assms(2)] unfolding 1 by (auto simp: print_array_def split: if_splits)
qed

lemma store_zero_idem:
  assumes "0 \<in> set m"
  shows "store_bytes m (length (takeWhile (\<lambda>b. b \<noteq> 0) m)) [0] = Inr m"
proof -
  obtain ys zs where m: "m = ys @ 0 # zs" "0 \<notin> set ys" using split_list_first [OF assms] by blast
  then have "takeWhile (\<lambda>b. b \<noteq> 0) m = ys"
    using print_array_prefix [of ys zs] assms by (simp add: print_array_def)
  then show ?thesis by (simp add: m(1) store_bytes_def)
qed

text \<open>One connection, in every case.\<close>

lemma serve_file_result:
  assumes "os_ok s" "length fileName = 20"
  shows "if request = Some [] then serve_file e request fileName s = Inr (None, fileName, s)
    else let m = asked_array request fileName; name = name_of (takeWhile (\<lambda>b. b \<noteq> 0) m) in
      if 0 \<in> set m \<and> allows e name \<and> name \<in> dom (disk s)
      then \<exists>s'. serve_file e request fileName s =
          Inr (Some (contents s name, sint (of_nat (length (contents s name)) :: i32)), m, s') \<and> disk s' = disk s \<and> os_ok s'
      else serve_file e request fileName s = Inl OutOfBounds"
proof (cases "request = Some [] \<or> 0 \<notin> set (asked_array request fileName)")
  case True
  then show ?thesis by (auto simp: serve_file_def print_array_def asked_array_def Let_def)
next
  case False
  define m name where "m = asked_array request fileName" and "name = takeWhile (\<lambda>b. b \<noteq> 0) m"
  obtain fd s1 where o: "sys_open e (name_of name) False False False s = (fd, s1)" by fastforce
  have eq: "serve_file e request fileName s = (case send_loop fd [] 0 s1 of None \<Rightarrow> Inl Diverges
      | Some r \<Rightarrow> bind_res r (\<lambda>(stream, n, s2). Inr (Some (stream, sint n), m, sys_close fd s2)))"
    using False store_zero_idem [of m] unfolding serve_file_def asked_array_def [symmetric]
    by (simp add: print_array_def Let_def m_def [symmetric] name_def [symmetric] o)
  have fd: "0 \<le> fd \<longleftrightarrow> allows e (name_of name) \<and> name_of name \<in> dom (disk s)"
    using open_works [OF assms(1) o] by simp
  show ?thesis
  proof (cases "0 \<le> fd")
    case True
    note new = open_new [OF assms(1) o True]
    have "contents s1 (name_of name) = contents s (name_of name)" "disk s1 = disk s"
      using new(3) fd True by (auto simp: contents_def)
    with send_loop_sends [OF new(2), of "[]" 0] new(1,7) obtain s2 where
      s2: "send_loop fd [] 0 s1 = Some (Inr (contents s (name_of name), of_nat (length (contents s (name_of name))), s2))"
      "disk s2 = disk s" "os_ok s2" by auto
    then have "os_ok (sys_close fd s2)" by (simp add: os_ok_def sys_close_def)
    with s2 show ?thesis
      using False fd True by (simp add: eq Let_def m_def name_def) (simp add: sys_close_def)
  next
    case neg: False
    have "s1 = s" "fd = -1" using o neg assms(1) by (auto simp: sys_open_def os_ok_def split: if_splits)
    then have "descs s1 fd = None" using assms(1) by (force simp: os_ok_def)
    with send_loop_closed [of s1 fd "[]" 0] \<open>fd = -1\<close> neg fd False show ?thesis
      by (simp add: eq Let_def m_def name_def)
  qed
qed

lemma sample_names:
  "name_of [116, 101, 115, 116, 49] = ''test1''" "name_of [120] = ''x''"
  "name_of ([116, 101, 115, 116, 49] @ [46, 98, 97, 107]) = ''test1.bak''"
  by code_simp+

lemma sample_requests:
  "asked_array (Some [116, 101, 115, 116, 49]) (replicate 20 0) = [116, 101, 115, 116, 49] @ 0 # replicate 14 0"
  "asked_array (Some [120]) (replicate 20 0) = [120] @ 0 # replicate 18 0"
  "takeWhile (\<lambda>b. b \<noteq> 0) ([116, 101, 115, 116, 49] @ 0 # replicate 14 0) = [116, 101, 115, 116, 49 :: u8]"
  "takeWhile (\<lambda>b. b \<noteq> 0) ([120] @ 0 # replicate 18 0) = [120 :: u8]"
  by code_simp+

text \<open>
  C35: What the transfer server does with one connection, in every case: an empty request is
  skipped; otherwise the name is what stands in the array of 20 bytes up to a zero byte, after the
  request was laid over its beginning. When no byte of the array is zero the server reads past it,
  when the file of this name cannot be opened it reads past its buffer, and else it sends the
  whole file, keeps its files as they are and prints how many bytes it sent, in an \<open>int\<close>: a wrong
  number only when there are \<open>2^31\<close> or more.
\<close>

theorem serve_file_outcome:
  assumes "os_ok s" "length fileName = 20"
  shows "if request = Some [] then serve_file e request fileName s = Inr (None, fileName, s)
    else let m = asked_array request fileName; name = name_of (takeWhile (\<lambda>b. b \<noteq> 0) m);
        c = contents s name in
      if 0 \<in> set m \<and> allows e name \<and> name \<in> dom (disk s)
      then \<exists>n s'. serve_file e request fileName s = Inr (Some (c, n), m, s') \<and>
        n = sint (of_nat (length c) :: i32) \<and> (length c < 2 ^ 31 \<longrightarrow> n = int (length c)) \<and>
        disk s' = disk s \<and> os_ok s'
      else serve_file e request fileName s = Inl OutOfBounds"
  using serve_file_result [OF assms, of request e] by (auto simp: Let_def split: if_splits)

theorem serve_file_outcome_witness:
  "(\<exists>s'. serve_file sample_os_env (Some [116, 101, 115, 116, 49]) (replicate 20 0) sample_os =
     Inr (Some ([1, 2], 2), [116, 101, 115, 116, 49] @ 0 # replicate 14 0, s')) \<and>
   serve_file sample_os_env (Some [120]) (replicate 20 0) sample_os = Inl OutOfBounds"
proof -
  have "os_ok sample_os" "length (replicate 20 (0 :: u8)) = 20" by simp_all
  note r = serve_file_outcome [OF this, of _ sample_os_env]
  show ?thesis
    using r [of "Some [116, 101, 115, 116, 49]"] r [of "Some [120]"]
    unfolding sample_requests Let_def sample_names by (auto simp: contents_def)
qed

lemma recv_loop_stores:
  assumes "descs s fd = Some f" "fd \<noteq> 1" "\<not> of_append f" "takes_all e" "\<forall>p \<in> set pieces. p \<noteq> [] \<and> length p \<le> 50"
    "of_pos f \<le> length (contents s (of_name f))" "of_name f \<in> dom (disk s)"
  shows "\<exists>s'. recv_loop e fd (map Some pieces) n s = Inr (n + of_nat (length (concat pieces)), s') \<and>
    disk s' = (disk s)(of_name f \<mapsto> put_at (of_pos f) (concat pieces) (contents s (of_name f)))"
  using assms
proof (induction pieces arbitrary: s f n)
  case Nil
  then have "(disk s)(of_name f \<mapsto> put_at (of_pos f) [] (contents s (of_name f))) = disk s"
    by (auto simp: put_at_def contents_def)
  then show ?case by simp
next
  case (Cons p ps)
  let ?f = "f\<lparr>of_pos := of_pos f + length p\<rparr>" and ?c = "put_at (of_pos f) p (contents s (of_name f))"
  define s1 where "s1 = snd (sys_write e fd p s)"
  have s1: "descs s1 fd = Some ?f" "disk s1 = (disk s)(of_name f \<mapsto> ?c)"
    using Cons.prems(1-5) sys_write_file [of s fd f e p] by (simp_all add: s1_def Let_def)
  have c: "contents s1 (of_name f) = ?c" using s1(2) by (simp add: contents_def)
  have len: "of_pos ?f \<le> length (contents s1 (of_name ?f))"
    using Cons.prems(6) by (simp add: c) (simp add: put_at_def)
  have dom: "of_name ?f \<in> dom (disk s1)" by (simp add: s1(2))
  obtain s' where "recv_loop e fd (map Some ps) (n + of_nat (length p)) s1 =
      Inr (n + of_nat (length p) + of_nat (length (concat ps)), s')"
    "disk s' = (disk s1)(of_name f \<mapsto> put_at (of_pos f + length p) (concat ps) ?c)"
    using Cons.IH [OF s1(1) _ _ _ _ len dom, of "n + of_nat (length p)"] Cons.prems(2-5) by (auto simp: c fun_upd_def)
  moreover have "put_at (of_pos f + length p) (concat ps) ?c = put_at (of_pos f) (concat (p # ps)) (contents s (of_name f))"
    using put_at_twice [OF Cons.prems(6)] by simp
  ultimately show ?case
    using Cons.prems(5) s1 by (simp add: s1_def [symmetric]) (simp add: fun_eq_iff)
qed

text \<open>
  C34: A transfer: the request that the client sends makes the server send the whole file, and the
  client, whatever pieces of at most 50 bytes the stream arrives in, stores it under the name with
  \<open>.bak\<close> and prints the same number of bytes as the server, which is the length of the file unless it
  has \<open>2^31\<close> bytes or more and overflows the \<open>int\<close>. A longer old file of this name keeps
  its tail. This needs a name of fewer than 20 bytes, a zero behind it in the server's array, and
  four free bytes behind the client's argument; without these four the client writes past it.
\<close>

theorem transfer_copies_file:
  assumes "os_ok s" "os_ok t" "takes_all ce" "length fileName = 20" "name \<noteq> []" "0 \<notin> set name" "length name < 20"
    and "fileName ! length name = 0" "allows e (name_of name)" "disk s (name_of name) = Some c"
    and "bak = name_of (name @ [46, 98, 97, 107])" "allows ce bak"
    and "concat pieces = c" "\<forall>p \<in> set pieces. p \<noteq> [] \<and> length p \<le> 50"
  shows "\<exists>n. (\<exists>fileName' s'. serve_file e (Some name) fileName s = Inr (Some (c, n), fileName', s') \<and> disk s' = disk s) \<and>
    (if room < 4 then file_client_main ce [prog, ip, name] room (map Some pieces) t = Inl OutOfBounds
     else \<exists>t'. file_client_main ce [prog, ip, name] room (map Some pieces) t = Inr (0, name, n, t') \<and>
       disk t' = (disk t)(bak \<mapsto> c @ drop (length c) (contents t bak))) \<and>
    n = sint (of_nat (length c) :: i32) \<and> (length c < 2 ^ 31 \<longrightarrow> n = int (length c))"
proof -
  let ?m = "asked_array (Some name) fileName"
  note m = asked_name [OF assms(4,6-8)]
  have dom: "name_of name \<in> dom (disk s)" "contents s (name_of name) = c"
    using assms(10) by (auto simp: contents_def)
  have server: "\<exists>fileName' s'. serve_file e (Some name) fileName s = Inr (Some (c, sint (of_nat (length c) :: i32)), fileName', s') \<and> disk s' = disk s"
    using serve_file_result [OF assms(1,4), of "Some name" e] by (auto simp: m(2,3) dom assms(5,9) Let_def)
  obtain fd t1 where o: "sys_open ce bak True False False t = (fd, t1)" by fastforce
  have fd: "0 \<le> fd" using open_works [OF assms(2) o] assms(12) by simp
  note new = open_new [OF assms(2) o fd]
  from recv_loop_stores [OF new(2) _ _ assms(3,14), of 0] new(1,3) obtain t2 where
    "recv_loop ce fd (map Some pieces) 0 t1 = Inr (of_nat (length c), t2)"
    "disk t2 = (disk t1)(bak \<mapsto> put_at 0 c (contents t1 bak))"
    using assms(13) by auto
  then have "file_client_main ce [prog, ip, name] room (map Some pieces) t = Inr (0, name, sint (of_nat (length c) :: i32), sys_close fd t2) \<and>
       disk (sys_close fd t2) = (disk t)(bak \<mapsto> c @ drop (length c) (contents t bak))" if "4 \<le> room"
    using that new(3) o by (simp add: file_client_main_def assms(11) Let_def sys_close_def put_at_def contents_def)
  with server show ?thesis
    by (intro exI [of _ "sint (of_nat (length c) :: i32)"]) (auto simp: file_client_main_def Let_def)
qed

theorem transfer_copies_file_witness:
  "\<exists>t'. file_client_main sample_os_env [[], [49], [116, 101, 115, 116, 49]] 4 [Some [1], Some [2]] sample_os =
       Inr (0, [116, 101, 115, 116, 49], 2, t') \<and>
     disk t' = (disk sample_os)(''test1.bak'' \<mapsto> [1, 2])"
proof -
  have c: "contents sample_os ''test1.bak'' = []" by (simp add: contents_def)
  show ?thesis
    using transfer_copies_file [of sample_os sample_os sample_os_env "replicate 20 0" "[116, 101, 115, 116, 49]"
        sample_os_env "[1, 2]" "''test1.bak''" "[[1], [2]]" 4 "[]" "[49]"]
    unfolding sample_names c by simp
qed

section \<open>A request after a longer one\<close>

text \<open>
  C36: The transfer server does not end the name with a zero of its own, so a request that is shorter
  than the one before it is completed with the rest of that one: the second client gets the file of
  the mixed name, or the server reads past its buffer when there is none. The numbers printed are
  the lengths of the files, as \<open>int\<close>.
\<close>

theorem shorter_request_mixes_names:
  assumes "os_ok s" "length fileName = 20" "length long < 20" "fileName ! length long = 0" "0 \<notin> set long"
    and "allows e (name_of long)" "name_of long \<in> dom (disk s)"
    and "short \<noteq> []" "length short < length long" "0 \<notin> set short" "mixed = short @ drop (length short) long"
  shows "file_server_run e [Some long, Some short] fileName s =
    (if allows e (name_of mixed) \<and> name_of mixed \<in> dom (disk s)
     then Inr (map (\<lambda>name. Some (contents s (name_of name), sint (of_nat (length (contents s (name_of name))) :: i32))) [long, mixed])
     else Inl OutOfBounds)"
proof -
  note m = asked_name [OF assms(2,5,3,4)]
  have ne: "long \<noteq> []" using assms(9) by auto
  let ?f = "asked_array (Some long) fileName"
  obtain s1 where s1: "serve_file e (Some long) fileName s =
      Inr (Some (contents s (name_of long), sint (of_nat (length (contents s (name_of long))) :: i32)), ?f, s1)"
    "disk s1 = disk s" "os_ok s1"
    using serve_file_result [OF assms(1,2), of "Some long" e] by (auto simp: m(2,3) ne assms(6,7) Let_def)
  have len: "length ?f = 20" using assms(2,3) by (simp add: m(1))
  have "asked_array (Some short) ?f = mixed @ 0 # drop (Suc (length long)) fileName"
    using assms(3,9,11) by (simp add: asked_array_def [of "Some short"] m(1))
  moreover have "0 \<notin> set mixed" using assms(5,10,11) by (auto dest: in_set_dropD)
  ultimately have short: "0 \<in> set (asked_array (Some short) ?f)"
    "takeWhile (\<lambda>b. b \<noteq> 0) (asked_array (Some short) ?f) = mixed"
    using print_array_prefix [of mixed] by (auto simp: print_array_def split: if_splits)
  have c: "contents s1 name = contents s name" for name by (simp add: contents_def s1(2))
  show ?thesis
    using serve_file_result [OF s1(3) len, of "Some short" e] assms(8)
    by (auto simp: s1(1,2) short c Let_def split: if_splits)
qed

theorem shorter_request_mixes_names_witness:
  "file_server_run sample_os_env [Some [116, 101, 115, 116, 49], Some [120]] (replicate 20 0) sample_os = Inl OutOfBounds"
proof -
  have "name_of ([120] @ drop (length [120 :: u8]) [116, 101, 115, 116, 49]) = ''xest1''" by code_simp
  moreover have "name_of [116, 101, 115, 116, 49] \<in> dom (disk sample_os)" by (simp add: sample_names)
  ultimately show ?thesis
    using shorter_request_mixes_names [of sample_os "replicate 20 0" "[116, 101, 115, 116, 49]" sample_os_env "[120]"
        "[120] @ drop (length [120 :: u8]) [116, 101, 115, 116, 49]"] by simp
qed

end
