(* ===== verification/Posix_Processes.thy ===== *)
theory Posix_Processes
  imports Formats
begin

text \<open>
  Processes as the exercises \<open>src/l3-fork1.c\<close>, \<open>src/l3-fork2.c\<close> and \<open>src/l3-exec1.c\<close> use them, and
  the signal of \<open>src/l3-signal1.c\<close>. A program is the tree of the calls that it makes, each with the
  rest of the program as a function of the result. Processes are scheduled in any order, one call
  at a time. \<open>printf\<close> writes into the buffer of the process, which a terminal empties at the end of
  a line, and anything else at the end of the process only; \<open>fork\<close> copies the buffer and \<open>execv\<close>
  drops it.
\<close>

section \<open>Programs and processes\<close>

datatype code =
    Printf string code
  | Fork "int \<Rightarrow> code"
  | Getpid "int \<Rightarrow> code"
  | Getppid "int \<Rightarrow> code"
  | Execv string "int \<Rightarrow> code"
  | Exit int

record process =
  pid :: int
  ppid :: int
  buffer :: string
  todo :: code

record world =
  procs :: "process list"
  printed :: string
  next_pid :: int

text \<open>
  Whether the output is a terminal, the programs that can be executed, and the process that
  adopts orphans.
\<close>

record proc_env =
  terminal :: bool
  program :: "string \<Rightarrow> code option"
  reaper :: int

definition text_line :: "string \<Rightarrow> string" where
  "text_line t = t @ ''\<newline>''"

text \<open>The text that goes out and what stays in the buffer when \<open>text\<close> is printed.\<close>

definition put_text :: "bool \<Rightarrow> string \<Rightarrow> string \<Rightarrow> string \<times> string" where
  "put_text tty buf text =
     (let all = buf @ text;
          open_line = rev (takeWhile (\<lambda>c. c \<noteq> CHR ''\<newline>'') (rev all))
      in if tty then (take (length all - length open_line) all, open_line) else ([], all))"

text \<open>
  The worlds that one call of the process between \<open>before\<close> and \<open>behind\<close> leads to; \<open>fork\<close> may
  succeed or fail.
\<close>

fun proc_call :: "proc_env \<Rightarrow> world \<Rightarrow> process list \<Rightarrow> process \<Rightarrow> process list \<Rightarrow> world list" where
  "proc_call e w before p behind =
     (case todo p of
        Printf text k \<Rightarrow>
          (let (out, buf) = put_text (terminal e) (buffer p) text in
           [w\<lparr>printed := printed w @ out, procs := before @ p\<lparr>buffer := buf, todo := k\<rparr> # behind\<rparr>])
      | Fork k \<Rightarrow>
          [w\<lparr>procs := before @ p\<lparr>todo := k (-1)\<rparr> # behind\<rparr>,
           w\<lparr>procs := before @ p\<lparr>todo := k (next_pid w)\<rparr> # behind @
               [\<lparr>pid = next_pid w, ppid = pid p, buffer = buffer p, todo = k 0\<rparr>],
             next_pid := next_pid w + 1\<rparr>]
      | Getpid k \<Rightarrow> [w\<lparr>procs := before @ p\<lparr>todo := k (pid p)\<rparr> # behind\<rparr>]
      | Getppid k \<Rightarrow>
          [w\<lparr>procs := before @
             p\<lparr>todo := k (if ppid p \<in> pid ` set (before @ behind) then ppid p else reaper e)\<rparr> # behind\<rparr>]
      | Execv path k \<Rightarrow>
          (case program e path of
             None \<Rightarrow> [w\<lparr>procs := before @ p\<lparr>todo := k (-1)\<rparr> # behind\<rparr>]
           | Some c \<Rightarrow> [w\<lparr>procs := before @ p\<lparr>buffer := [], todo := c\<rparr> # behind\<rparr>])
      | Exit status \<Rightarrow> [w\<lparr>printed := printed w @ buffer p, procs := before @ behind\<rparr>])"

text \<open>The worlds that one step of the system leads to, whichever process takes it.\<close>

fun calls_from :: "proc_env \<Rightarrow> world \<Rightarrow> process list \<Rightarrow> process list \<Rightarrow> world list" where
  "calls_from e w before [] = []"
| "calls_from e w before (p # behind) = proc_call e w before p behind @ calls_from e w (before @ [p]) behind"

definition next_worlds :: "proc_env \<Rightarrow> world \<Rightarrow> world list" where
  "next_worlds e w = calls_from e w [] (procs w)"

text \<open>A run of \<open>n\<close> steps, and what can have been printed when all processes have ended.\<close>

inductive runs_to :: "proc_env \<Rightarrow> nat \<Rightarrow> world \<Rightarrow> world \<Rightarrow> bool" for e where
  stop: "runs_to e 0 w w"
| step: "w' \<in> set (next_worlds e w) \<Longrightarrow> runs_to e n w' w'' \<Longrightarrow> runs_to e (Suc n) w w''"

definition started :: "code \<Rightarrow> int \<Rightarrow> int \<Rightarrow> int \<Rightarrow> world" where
  "started main parent self fresh =
     \<lparr>procs = [\<lparr>pid = self, ppid = parent, buffer = [], todo = main\<rparr>], printed = [], next_pid = fresh\<rparr>"

definition outputs :: "proc_env \<Rightarrow> code \<Rightarrow> int \<Rightarrow> int \<Rightarrow> int \<Rightarrow> string set" where
  "outputs e main parent self fresh =
     {printed w | w n. procs w = [] \<and> runs_to e n (started main parent self fresh) w}"

section \<open>The programs\<close>

definition fork1_main :: code where
  "fork1_main = Fork (\<lambda>t. Printf (text_line (''fork returned '' @ show_int t)) (Exit 0))"

definition fork2_main :: code where
  "fork2_main =
     Getpid (\<lambda>self. Printf (text_line (''Original program, pid = '' @ show_int self)) (
     Fork (\<lambda>t.
       if t = 0 then
         Getpid (\<lambda>self. Getppid (\<lambda>parent.
         Printf (text_line (''In child process, pid = '' @ show_int self @ '', ppid = '' @ show_int parent)) (Exit 0)))
       else
         Getpid (\<lambda>self.
         Printf (text_line (''In parent, pid = '' @ show_int self @ '', for returned = '' @ show_int t)) (Exit 0)))))"

definition exec1_main :: code where
  "exec1_main =
     (let continues = Printf (text_line ''Execution continues in parent process'') (Exit 0) in
      Fork (\<lambda>t.
        if t = 0 then
          Printf (text_line ''In child process:'') (
          Execv ''/bin/ls'' (\<lambda>_.
          Printf (text_line ''I will never be called'') continues))
        else continues))"

text \<open>
  \<open>src/l3-signal1.c\<close> on a terminal: \<open>Turn\<close> is a turn of the program, \<open>Interrupt\<close> the arrival of
  \<open>SIGINT\<close>, which ends the program when the handler is not installed yet.
\<close>

datatype sig_event = Turn | Interrupt

datatype sig_state = Before_Print | In_Loop bool | Ended "int option"

fun signal_step :: "sig_event \<Rightarrow> sig_state \<times> string \<Rightarrow> sig_state \<times> string" where
  "signal_step Turn (Before_Print, out) = (In_Loop False, out @ text_line ''signal processing demo program'')"
| "signal_step Turn (In_Loop installed, out) = (In_Loop True, out)"
| "signal_step Interrupt (In_Loop True, out) = (Ended (Some 0), out @ text_line (''Signal routine called['' @ show_int 2 @ '']''))"
| "signal_step Interrupt (Ended r, out) = (Ended r, out)"
| "signal_step Turn (Ended r, out) = (Ended r, out)"
| "signal_step Interrupt (s, out) = (Ended None, out)"

definition signal_main :: "sig_event list \<Rightarrow> sig_state \<times> string" where
  "signal_main events = fold signal_step events (Before_Print, [])"

end
