(* ===== verification/Process_Properties.thy ===== *)
theory Process_Properties
  imports Posix_Processes
begin

text \<open>
  The exact sets of outputs of the exercises on processes, over all orders in which the processes
  can be scheduled, and what the buffering of the output does to them.
\<close>

section \<open>Exploring all schedules\<close>

text \<open>
  The worlds at the end of all runs of at most \<open>n\<close> steps. When all of them have no process left,
  they are the final worlds.
\<close>

fun explore :: "proc_env \<Rightarrow> nat \<Rightarrow> world \<Rightarrow> world list" where
  "explore e 0 w = [w]"
| "explore e (Suc n) w = (if procs w = [] then [w] else concat (map (explore e n) (next_worlds e w)))"

inductive_cases runs_to_cases: "runs_to e n w w'"

lemma no_process [simp]: "procs w = [] \<Longrightarrow> next_worlds e w = []"
  by (simp add: next_worlds_def)

lemma runs_to_done: "runs_to e k w w' \<Longrightarrow> procs w = [] \<Longrightarrow> w' = w \<and> k = 0"
  by (erule runs_to_cases) simp_all

text \<open>A run that starts where the exploration comes to an end is short, and ends where it ends.\<close>

lemma explore_complete:
  assumes "runs_to e k w w'" "\<forall>v \<in> set (explore e n w). procs v = []"
  shows "k \<le> n \<and> (procs w' = [] \<longrightarrow> w' \<in> set (explore e n w))"
  using assms
proof (induction n arbitrary: w k)
  case 0
  then show ?case using runs_to_done by auto
next
  case (Suc n)
  from Suc.prems(1) show ?case
  proof (cases rule: runs_to.cases)
    case stop
    then show ?thesis by simp
  next
    case (step v m)
    then have "procs w \<noteq> []" by auto
    then have sub: "set (explore e n v) \<subseteq> set (explore e (Suc n) w)"
      using step(2) unfolding explore.simps by (simp only: if_False set_concat set_map) blast
    then have "\<forall>u \<in> set (explore e n v). procs u = []" using Suc.prems(2) by blast
    from Suc.IH [OF step(3) this] sub step(1) show ?thesis by blast
  qed
qed

lemma explore_sound: "w' \<in> set (explore e n w) \<Longrightarrow> \<exists>k. runs_to e k w w'"
proof (induction n arbitrary: w)
  case (Suc n)
  show ?case
  proof (cases "procs w = []")
    case False
    with Suc.prems obtain v where v: "v \<in> set (next_worlds e w)" "w' \<in> set (explore e n v)" by auto
    from Suc.IH [OF v(2)] v(1) show ?thesis by (blast intro: step)
  qed (use Suc.prems in \<open>auto intro: stop\<close>)
qed (auto intro: stop)

text \<open>The exploration is evaluated once, for the end of all runs and for what they print.\<close>

lemma outputs_explored:
  assumes "set (map (\<lambda>w. (procs w = [], printed w)) (explore e n (started main parent self fresh))) = Pair True ` S"
  shows "outputs e main parent self fresh = S \<and> (\<forall>k w. runs_to e k (started main parent self fresh) w \<longrightarrow> k \<le> n)"
proof -
  let ?w = "started main parent self fresh"
  have 1: "procs v = [] \<and> printed v \<in> S" if "v \<in> set (explore e n ?w)" for v
  proof -
    from that have "(procs v = [], printed v) \<in> Pair True ` S" unfolding assms [symmetric] by auto
    then show ?thesis by auto
  qed
  have 2: "\<exists>v \<in> set (explore e n ?w). printed v = t" if "t \<in> S" for t
  proof -
    from that have "(True, t) \<in> set (map (\<lambda>w. (procs w = [], printed w)) (explore e n ?w))" unfolding assms by simp
    then show ?thesis by auto
  qed
  have "outputs e main parent self fresh \<subseteq> S"
    using 1 explore_complete [of e _ ?w _ n] by (auto simp: outputs_def)
  moreover have "S \<subseteq> outputs e main parent self fresh"
    using 1 2 explore_sound [of _ e n ?w] by (fastforce simp: outputs_def)
  ultimately show ?thesis using 1 explore_complete [of e _ ?w _ n] by blast
qed

lemma put_line [simp]:
  "put_text True buf (text_line t) = (buf @ text_line t, [])" "put_text False buf text = ([], buf @ text)"
  by (simp_all add: put_text_def text_line_def Let_def)

section \<open>fork\<close>

text \<open>
  \<open>l3-fork1\<close> prints what \<open>fork\<close> returned once for each process, 0 in the child and the number of
  the child in the parent, in either order, or -1 once when \<open>fork\<close> fails; on a terminal or not.
  In whatever order the processes run, they end within five calls.
\<close>

theorem fork1_outputs:
  "outputs e fork1_main parent self fresh =
     (let returned = \<lambda>t. text_line (''fork returned '' @ show_int t) in
      {returned (-1), returned fresh @ returned 0, returned 0 @ returned fresh}) \<and>
   (\<forall>k w. runs_to e k (started fork1_main parent self fresh) w \<longrightarrow> k \<le> 5)"
  by (rule outputs_explored, cases "terminal e")
    (simp add: started_def fork1_main_def next_worlds_def eval_nat_numeral Let_def; blast)+

theorem fork1_outputs_witness:
  "\<nexists>w. runs_to \<lparr>terminal = True, program = (\<lambda>_. None), reaper = 1\<rparr> 6 (started fork1_main 7 8 9) w"
  using fork1_outputs [of "\<lparr>terminal = True, program = (\<lambda>_. None), reaper = 1\<rparr>" 7 8 9]
  by (elim conjE) (auto dest: spec [of _ "6 :: nat"])

text \<open>
  C38: \<open>l3-fork2\<close> on a terminal prints the line of the original program once and first, and then the
  lines of the child and the parent in either order; the child names its parent, or the process
  that adopts it when the parent has ended before. When the output is not a terminal, the line of
  the original program stands in the buffer that \<open>fork\<close> copies, and is printed twice. In whatever
  order the processes run, they end within ten calls.
\<close>

theorem fork2_outputs:
  assumes "self \<noteq> fresh" "parent \<noteq> fresh" "fresh \<noteq> 0"
  shows "outputs e fork2_main parent self fresh =
     (let orig = text_line (''Original program, pid = '' @ show_int self);
          child = \<lambda>pp. text_line (''In child process, pid = '' @ show_int fresh @ '', ppid = '' @ show_int pp);
          par = \<lambda>t. text_line (''In parent, pid = '' @ show_int self @ '', for returned = '' @ show_int t)
      in if terminal e
         then {orig @ par (-1), orig @ child self @ par fresh, orig @ par fresh @ child self,
               orig @ par fresh @ child (reaper e)}
         else {orig @ par (-1), orig @ child self @ orig @ par fresh, orig @ par fresh @ orig @ child self,
               orig @ par fresh @ orig @ child (reaper e)}) \<and>
    (\<forall>k w. runs_to e k (started fork2_main parent self fresh) w \<longrightarrow> k \<le> 10)"
  by (rule outputs_explored, insert assms, cases "terminal e")
    (simp add: started_def fork2_main_def next_worlds_def eval_nat_numeral Let_def; blast)+

theorem fork2_outputs_witness:
  "text_line (''Original program, pid = '' @ show_int 8) @
   text_line (''In parent, pid = '' @ show_int 8 @ '', for returned = '' @ show_int 9) @
   text_line (''Original program, pid = '' @ show_int 8) @
   text_line (''In child process, pid = '' @ show_int 9 @ '', ppid = '' @ show_int 1)
   \<in> outputs \<lparr>terminal = False, program = (\<lambda>_. None), reaper = 1\<rparr> fork2_main 7 8 9"
proof -
  let ?e = "\<lparr>terminal = False, program = (\<lambda>_. None), reaper = 1\<rparr>"
  have "(8 :: int) \<noteq> 9" "(7 :: int) \<noteq> 9" "(9 :: int) \<noteq> 0" by simp_all
  note o = conjunct1 [OF fork2_outputs [OF this, of ?e]]
  show ?thesis unfolding o Let_def proc_env.select_convs if_False by blast
qed

section \<open>exec\<close>

text \<open>
  \<open>l3-exec1\<close>: when \<open>ls\<close> can be executed, the child announces itself and lists the directory,
  the parent's line stands anywhere, and the line behind \<open>execv\<close> is never printed; but when the
  output is not a terminal, \<open>execv\<close> drops the buffer and the announcement is lost. When \<open>ls\<close>
  cannot be executed, the child goes on behind the branch and prints the parent's line as well.
  In whatever order the processes run, they end within eight calls.
\<close>

theorem exec1_outputs:
  assumes "program e ''/bin/ls'' \<in> {None, Some (Printf (text_line listing) (Exit 0))}" "fresh \<noteq> 0"
  shows "outputs e exec1_main parent self fresh =
     (let c = text_line ''In child process:''; l = text_line listing; never = text_line ''I will never be called'';
          p = text_line ''Execution continues in parent process''
      in if program e ''/bin/ls'' = None
         then if terminal e then {p, p @ c @ never @ p, c @ p @ never @ p, c @ never @ p @ p}
              else {p, p @ c @ never @ p, c @ never @ p @ p}
         else if terminal e then {p, p @ c @ l, c @ p @ l, c @ l @ p}
              else {p, p @ l, l @ p}) \<and>
    (\<forall>k w. runs_to e k (started exec1_main parent self fresh) w \<longrightarrow> k \<le> 8)"
proof (rule outputs_explored, cases "program e ''/bin/ls''")
  case None
  let ?case = "set (map (\<lambda>w. (procs w = [], printed w)) (explore e 8 (started exec1_main parent self fresh)))"
  show "?case = Pair True ` (let c = text_line ''In child process:''; l = text_line listing;
          never = text_line ''I will never be called''; p = text_line ''Execution continues in parent process''
      in if program e ''/bin/ls'' = None
         then if terminal e then {p, p @ c @ never @ p, c @ p @ never @ p, c @ never @ p @ p}
              else {p, p @ c @ never @ p, c @ never @ p @ p}
         else if terminal e then {p, p @ c @ l, c @ p @ l, c @ l @ p}
              else {p, p @ l, l @ p})"
    using None assms(2)
    by (cases "terminal e")
      (simp add: started_def exec1_main_def next_worlds_def eval_nat_numeral Let_def; blast)+
next
  case (Some d)
  with assms(1) have "program e ''/bin/ls'' = Some (Printf (text_line listing) (Exit 0))" by simp
  then show "set (map (\<lambda>w. (procs w = [], printed w)) (explore e 8 (started exec1_main parent self fresh))) =
      Pair True ` (let c = text_line ''In child process:''; l = text_line listing;
          never = text_line ''I will never be called''; p = text_line ''Execution continues in parent process''
      in if program e ''/bin/ls'' = None
         then if terminal e then {p, p @ c @ never @ p, c @ p @ never @ p, c @ never @ p @ p}
              else {p, p @ c @ never @ p, c @ never @ p @ p}
         else if terminal e then {p, p @ c @ l, c @ p @ l, c @ l @ p}
              else {p, p @ l, l @ p})"
    using assms(2)
    by (cases "terminal e")
      (simp add: started_def exec1_main_def next_worlds_def eval_nat_numeral Let_def; blast)+
qed

theorem exec1_outputs_witness:
  "text_line ''Execution continues in parent process'' @ text_line ''src''
   \<in> outputs \<lparr>terminal = False, program = (\<lambda>_. Some (Printf (text_line ''src'') (Exit 0))), reaper = 1\<rparr> exec1_main 7 8 9"
proof -
  let ?e = "\<lparr>terminal = False, program = (\<lambda>_. Some (Printf (text_line ''src'') (Exit 0))), reaper = 1\<rparr>"
  have "program ?e ''/bin/ls'' \<in> {None, Some (Printf (text_line ''src'') (Exit 0))}" "(9 :: int) \<noteq> 0" by simp_all
  note o = conjunct1 [OF exec1_outputs [OF this]]
  show ?thesis unfolding o Let_def proc_env.select_convs if_False by simp
qed

section \<open>signal\<close>

lemma signal_turns:
  "(signal_step Turn ^^ n) (In_Loop b, out) = (In_Loop (b \<or> 0 < n), out)"
  by (induction n) auto

lemma signal_ended: "fold signal_step events (Ended r, out) = (Ended r, out)"
proof (induction events)
  case (Cons ev events)
  then show ?case by (cases ev) simp_all
qed simp

text \<open>
  \<open>l3-signal1\<close> never ends without an interrupt. The first interrupt ends it: with the handler's
  line and status 0 when the program had two turns before it, and by the default action, without
  that line, when it comes earlier.
\<close>

theorem signal1_ends_at_interrupt:
  "signal_main (replicate n Turn) =
     (if n = 0 then (Before_Print, []) else (In_Loop (1 < n), text_line ''signal processing demo program'')) \<and>
   signal_main (replicate n Turn @ Interrupt # events) =
     (if 1 < n then (Ended (Some 0), text_line ''signal processing demo program'' @ text_line ''Signal routine called[2]'')
      else (Ended None, if n = 0 then [] else text_line ''signal processing demo program''))"
proof (cases n)
  case 0
  then show ?thesis by (simp add: signal_main_def signal_ended)
next
  case (Suc m)
  have 2: "''Signal routine called['' @ show_int 2 @ '']'' = ''Signal routine called[2]''" by code_simp
  show ?thesis
    using Suc 2 by (cases m) (simp_all add: signal_main_def signal_turns signal_ended)
qed

end
