(* ===== verification/Host_Lookup.thy ===== *)
theory Host_Lookup
  imports Formats
begin

text \<open>
  The look-up of a host (\<open>src/l5.c\<close>): the two queries of the resolver and \<open>inet_addr\<close> are arguments;
  the lists of \<open>struct hostent\<close>, which a null pointer ends, are lists.
\<close>

section \<open>The program\<close>

record hostent =
  h_name :: string
  h_aliases :: "string list"
  h_addr_list :: "u32 list"

text \<open>\<open>inet_ntoa\<close>: the bytes of an address in memory order, in decimal.\<close>

definition inet_ntoa :: "u32 \<Rightarrow> string" where
  "inet_ntoa a = (case map (\<lambda>b. show_nat (unat b)) (bytes_le32 a) of
     [p, q, r, s] \<Rightarrow> p @ ''.'' @ q @ ''.'' @ r @ ''.'' @ s)"

fun print_aliases :: "string list \<Rightarrow> string" where
  "print_aliases [] = []"
| "print_aliases (n # ns) = ''Host aliases: '' @ n @ ''\<newline>'' @ print_aliases ns"

fun print_addresses :: "u32 list \<Rightarrow> string" where
  "print_addresses [] = []"
| "print_addresses (a # as) = ''IP address: '' @ inet_ntoa a @ ''\<newline>'' @ print_addresses as"

text \<open>
  \<open>main\<close>: the exit status and the text. The address is stored in a \<open>long\<close> of eight bytes, all of which
  are handed to the resolver.
\<close>

definition lookup_main ::
    "(string \<Rightarrow> u32) \<Rightarrow> (u8 list \<Rightarrow> hostent option) \<Rightarrow> (string \<Rightarrow> hostent option) \<Rightarrow> string list \<Rightarrow> int \<times> string" where
  "lookup_main inet_addr gethostbyaddr gethostbyname argv =
     (if length argv \<noteq> 2 then
        (1, ''Usage:\<newline>'' @ argv ! 0 @ '' sample.com\<newline>or\<newline>'' @ argv ! 0 @ '' 8.8.8.8\<newline>'')
      else
        let name = argv ! 1;
            by_addr = inet_addr name \<noteq> - 1;
            h = (if by_addr then gethostbyaddr (bytes_le32 (inet_addr name) @ [0, 0, 0, 0]) else gethostbyname name)
        in case h of
          None \<Rightarrow> (1, (if by_addr then ''gethostbyaddr error for address: '' else ''gethostbyname error for name: '') @
                       name @ ''\<newline>'')
        | Some h \<Rightarrow> (0, ''Looking information for host: '' @ name @ ''\<newline>'' @ ''Official Name: '' @ h_name h @ ''\<newline>'' @
                       print_aliases (h_aliases h) @ print_addresses (h_addr_list h)))"

section \<open>What is printed\<close>

lemma print_aliases_all: "print_aliases ns = concat (map (\<lambda>n. ''Host aliases: '' @ n @ ''\<newline>'') ns)"
  by (induction ns) simp_all

lemma print_addresses_all: "print_addresses as = concat (map (\<lambda>a. ''IP address: '' @ inet_ntoa a @ ''\<newline>'') as)"
  by (induction as) simp_all

text \<open>
  The program reports all that the resolver knows, in its order. The argument 255.255.255.255, for which
  \<open>inet_addr\<close> returns its error value, is looked up as a name.
\<close>

theorem lookup_reports_all:
  assumes "inet_addr ''255.255.255.255'' = - 1" "gethostbyname ''255.255.255.255'' = Some h"
  shows "lookup_main inet_addr gethostbyaddr gethostbyname [prog, ''255.255.255.255''] =
    (0, ''Looking information for host: 255.255.255.255\<newline>'' @ ''Official Name: '' @ h_name h @ ''\<newline>'' @
      concat (map (\<lambda>n. ''Host aliases: '' @ n @ ''\<newline>'') (h_aliases h)) @
      concat (map (\<lambda>a. ''IP address: '' @ inet_ntoa a @ ''\<newline>'') (h_addr_list h)))"
  using assms by (simp add: lookup_main_def print_aliases_all print_addresses_all)

theorem lookup_reports_all_witness:
  "lookup_main (\<lambda>_. - 1) (\<lambda>_. None) (\<lambda>_. Some \<lparr>h_name = ''all'', h_aliases = [], h_addr_list = [0x0100007F]\<rparr>)
     [''l5'', ''255.255.255.255''] =
   (0, ''Looking information for host: 255.255.255.255\<newline>Official Name: all\<newline>IP address: 127.0.0.1\<newline>'')"
proof -
  have "inet_ntoa 0x0100007F = ''127.0.0.1''" by code_simp
  then show ?thesis
    using lookup_reports_all [of "\<lambda>_. - 1" "\<lambda>_. Some \<lparr>h_name = ''all'', h_aliases = [], h_addr_list = [0x0100007F]\<rparr>"]
    by simp
qed

end
