(* ===== verification/Spec2Isabelle.thy ===== *)
theory Spec2Isabelle
  imports Network Lease_Heap Checksum_Reference Simple_Trace
    File_Properties Net_Properties Process_Properties Host_Lookup
begin

text \<open>
  A model of the DHCP programs of the repository, with their correctness theorems.

  \<^bold>\<open>The programs.\<close> \<open>src/dhcp-server.c\<close> is a DHCP server for a pool of 100 addresses. It has one
  message buffer, in which a request arrives and over which the reply is built, and one linked
  list of leases. \<open>src/dhcp-client.c\<close> is a client with a command line and a menu: it discovers,
  releases, informs, renews and rebinds, sets the network interface up and runs the timers T1 and
  T2 by alarms. Both share \<open>src/dhcp-project.h\<close>: the constants, \<open>struct dhcp_t\<close>, the option writer
  and the option scan. \<open>src/simple-dhcp-client.c\<close> stands alone: it writes one DISCOVER frame, from
  the Ethernet header down to the options, and waits for an offer. Server and client interact only by
  datagrams. The files \<open>src/l3-*\<close> to \<open>src/l7-*\<close> are exercises on files, processes and sockets.

  \<^bold>\<open>The theories.\<close>
  \<^item> \<open>Prelude\<close>: the widths, the result type \<open>fault + 'a\<close> and its sequencing, bytes of words on a
    little-endian host, \<open>htonl\<close> and its kin (locale \<open>byte_order\<close>), and loads and stores in an array.
  \<^item> \<open>Dhcp_Options\<close>: \<open>get_dhcp_option\<close> and \<open>fill_dhcp_option\<close> on the bytes of the option area; an
    independent parser \<open>tlvs\<close> and the encoder \<open>enc_opts\<close>, and the agreement of the code with both.
  \<^item> \<open>Dhcp_Packet\<close>: the constants, \<open>dhcp_t\<close> with its layout in memory, \<open>recv_dhcp\<close> (what
    \<open>recvfrom\<close> does to the buffer), \<open>dhcp_dump\<close>.
  \<^item> \<open>Lease_Table\<close>: \<open>check_ipaddr\<close>, \<open>allocate_ip\<close>, \<open>add_lease\<close> and \<open>delete_lease\<close> on the list; the
    abstract map \<open>lease_map\<close>, which they refine, and the contract of a store of leases (locale
    \<open>lease_store\<close>), from which the rules about exclusive use follow.
  \<^item> \<open>Dhcp_Server\<close>: \<open>construct_dhcp_packet\<close>, the four handlers, the dispatch, the loop
    (\<open>server_step\<close>, \<open>server_run\<close>), \<open>dhcp_setup\<close> and \<open>main\<close>.
  \<^item> \<open>Server_Replies\<close>: the bytes of a reply in closed form and what their receiver reads.
    \<open>Server_Invariants\<close>: the locale \<open>table_property\<close>, which lifts a property of the table from its
    operations to the handlers, with three instances (the representation, the pool, a lease that
    is held). \<open>Server_Total\<close>: no fault on messages that can be served. \<open>Server_Runs\<close>: reachable
    states and runs. \<open>Server_Properties\<close>: the properties of the server.
  \<^item> \<open>Dhcp_Client\<close>: \<open>construct_dhcp_packet\<close> of the client, the receive loops \<open>wait_offer\<close> and
    \<open>wait_ack\<close>, the five exchanges \<open>dhcp_discover\<close>, ..., \<open>dhcp_rebind\<close>, the operations \<open>discover\<close>,
    ..., \<open>rebind\<close> over them, \<open>setup_interface\<close>, \<open>set_alarm\<close>, the alarm handler, the menu,
    \<open>dhcp_setup\<close> and \<open>main\<close>.
  \<^item> \<open>Client_Messages\<close>, \<open>Client_Waits\<close> (locale \<open>reply_loop\<close>, of which both loops are instances) and
    \<open>Client_Runs\<close>: the messages in closed form, the outcomes of the loops and of the exchanges.
    \<open>Client_Properties\<close>: the properties, with the phases of a lease as a linear order.
  \<^item> \<open>Exchange\<close>: what the server makes of a message of this client and the client of a reply of this
    server. \<open>Two_Clients\<close>: two clients that contend for an address. \<open>Server_Datagrams\<close>: the type of
    all that the server sends. \<open>Network\<close>: any number of clients and the server as a step relation, on
    a network that loses, duplicates and reorders; the receive buffers of an operation hold what
    earlier ones left there. This theory: the programs together.
  \<^item> \<open>Lease_Heap\<close>: the lease list in memory, with its dummy node, \<open>malloc\<close> and \<open>free\<close>, and the
    simulation between it and \<open>Lease_Table\<close>.
  \<^item> \<open>Simple_Client\<close> and \<open>Simple_Properties\<close>: the simple client, its checksum and its frame;
    \<open>Checksum_Reference\<close>: the checksum of RFC 1071, which the code's equals; \<open>Simple_Trace\<close>: what
    the simple client prints and reads for it, over the conversions of \<open>Formats\<close>, and its
    hardware address.
  \<^item> \<open>Posix_Files\<close> and \<open>File_Properties\<close>: files and descriptors, and the exercises \<open>src/l3-lseek1.c\<close>,
    \<open>src/l3-readwrite1.c\<close>, \<open>src/l4-1.c\<close> and \<open>src/l4-2.c\<close> over them.
  \<^item> \<open>Posix_Processes\<close> and \<open>Process_Properties\<close>: processes with buffered output in any schedule, and
    the exercises \<open>src/l3-fork1.c\<close>, \<open>src/l3-fork2.c\<close>, \<open>src/l3-exec1.c\<close> and \<open>src/l3-signal1.c\<close>.
  \<^item> \<open>Net_Exercises\<close> and \<open>Net_Properties\<close>: the echo (\<open>src/l6-EchoClient.c\<close>, \<open>src/l6-EchoServer.c\<close>)
    and the file transfer (\<open>src/l7-Client.c\<close>, \<open>src/l7-Server.c\<close>), each client with its server.
  \<^item> \<open>Host_Lookup\<close>: the look-up of \<open>src/l5.c\<close>.
  \<^item> \<open>Samples\<close>: the concrete messages and states at which the properties are instantiated.

  \<^bold>\<open>How the state corresponds to the code.\<close> A function of C that reads and writes globals is a function
  from the state record to a result with the new state. Reads and writes out of the bounds of an
  array, a read of a variable that was not set, a loop without end and a call of \<open>exit\<close> are the
  faults \<open>OutOfBounds\<close>, \<open>Uninitialised\<close>, \<open>Diverges\<close> and \<open>Exited\<close>; after a fault nothing is said.
  A pointer into the option area is an index; in the client it carries the bytes of its area,
  since it outlives its look-up. \<open>sendto\<close> appends to the list of datagrams, \<open>recvfrom\<close> takes the
  next element of a list of arrivals (\<open>None\<close> a time-out or an error). The values of \<open>time\<close> and
  \<open>rand\<close>, the answers of the kernel and the contents of uninitialised buffers are arguments of a
  run (\<open>env\<close>, \<open>cl_env\<close>). Words keep their width: lengths are 16 bits, timers and addresses 32. The
  counters of type \<open>int\<close> that the input can drive past its range, \<open>num_of_lease\<close> and \<open>transferSize\<close>,
  are 32 bits read with a sign (\<open>i32\<close>, \<open>sint\<close>): C leaves their overflow undefined, the model takes the
  wrap-around that the machine makes of it, and the theorems say below which count the number is exact.
  \<open>strcpy\<close> of a device name of 16 characters or more into \<open>ifr_name\<close> is \<open>OutOfBounds\<close> in all three
  DHCP programs (\<open>copy_ifr_name\<close>).

  \<^bold>\<open>Loops.\<close> The scan for an option is a \<open>function\<close> whose measure is the rest of the area. The loop
  that draws addresses at random is \<open>partial_function (option)\<close>, since nothing in the code bounds
  it; C20 shows that it ends when an address is free and the random numbers reach the whole pool
  (\<open>covers_pool\<close>), and that only an overflow of the counter makes it search a full pool for ever. The receive loops and the main loop recurse over the arrivals, so no fuel is
  used. The client's socket has a time-out, so the end of the arrivals is one; the simple client
  has none, and waits for ever. The walk along the list in memory and the copying loops of the
  exercises are \<open>partial_function (option)\<close> as well, and the theorems say when they end. The schedules of
  the processes are explored to a depth (five, eight and ten calls) that is shown to be enough.

  \<^bold>\<open>What the theorems show.\<close> The option scan computes the look-up of the parser (C10) and finds what was
  written (C21). The lease table refines a map (C2), the
  list in memory implements the table (C9), and allocation ends (C20). The server answers from
  every reachable state (C3), keeps its invariant whatever arrives (C4), offers, acknowledges,
  renews and releases as it should (C6, C7, C14, C15), keeps to its pool (C12), loses no lease (C11)
  and sends nothing but replies that every client decodes (C17). The client's messages and the
  server's replies arrive as meant (C18, C19), the client's waiting and its timers do their work
  (C13, C16, C26), the two together configure an address that the server has leased (C1), of two
  clients that want the same address one gets it (C8), and no client of the network ever has an
  address outside the pool (C5). The checksum is the one of RFC 1071 (C23), the frame of the simple
  client is a DISCOVER (C24), and it finds the offer (C25). The file that the transfer server
  reads is what its client stores (C34), the words sent are what the echo server prints (C37),
  both as long as no array overflows. The others (C22, C27 to C33, C35, C36, C38 to C40) fix behaviour
  that a user would not expect, each next to the code that causes it; further theorems of this kind
  stand beside them in the theories of their component.

  \<^bold>\<open>Not modelled.\<close> Text output other than \<open>dhcp_dump\<close>, the trace of the simple client and the output of
  the exercises; \<open>dhcp_close\<close> and \<open>usage\<close>; a failing \<open>socket\<close> (it is only reported) and a failing
  \<open>sendto\<close>; a failing \<open>malloc\<close> (the code does not test for it); a signal in the midst of an operation
  of the client; the capture library of the simple client, whose frames are arguments;
  the resolver of the C library and \<open>inet_addr\<close>, which are arguments. A host with little-endian
  words is assumed, as on the machines the reports show.
\<close>

section \<open>The discovery exchange\<close>

text \<open>
  C1: The client and the server agree. Take any state of the server that satisfies its invariants,
  with room in the pool or a lease of this client, and a client without an address. The client's
  DISCOVER is answered by an offer, its REQUEST by an acknowledgement, and when the two answers
  reach the client it configures an address of the pool with the timers 16, 28 and 32, which is
  the address that the server has leased at the time of the acknowledgement; if the address had no
  entry in the table, the lease records the client's MAC. The server's clock must not go back.
\<close>

theorem discovery_configures_client:
  assumes "wf_dhcp (dhcp_recv s)" "lease_inv (table s)" "\<forall>a \<in> dom (lease_map (table s)). in_pool a"
    and "covers_pool (rnd e1)" "t_check e1 \<le> t_check e2"
    and "mac_known (table s) hw \<or> length (leases (table s)) < IP_ADDRESS_POOL_AMOUNT"
    and "hw_addr ce = Some hw" "6 \<le> length hw" "get_ip_address ce c = 0" "\<forall>r. kernel_accepts ce r"
    and "\<forall>n. wf_dhcp (offer_stack ce n)" "\<forall>n. wf_dhcp (ack_stack ce n)"
  shows "\<exists>g1 g2 s1 s2 p1 p2 a m.
    server_step e1 (Some g1) s = Inr s1 \<and> sent s1 = sent s @ [p1] \<and>
    server_step e2 (Some g2) s1 = Inr s2 \<and> sent s2 = sent s1 @ [p2] \<and>
    in_pool a \<and> lease_map (table s2) a = Some (m, t_lease e2) \<and>
    (a \<notin> dom (lease_map (table s)) \<longrightarrow> m = take 6 hw) \<and>
    (\<forall>rest. \<exists>c'. discover ce (c\<lparr>inbox := Some (payload p1) # Some (payload p2) # rest\<rparr>) = Inr c' \<and>
       map payload (cl_sent c') = map payload (cl_sent c) @ [g1, g2] \<and> inbox c' = rest \<and>
       if_addr c' = htonl a \<and> dhcp_server_identifier c' = htonl DHCP_SERVER_IP_ADDRESS \<and>
       lease_time c' = 32 \<and> t1_time c' = 16 \<and> t2_time c' = 28 \<and> alarm_left c' = 16)"
proof -
  let ?g1 = "discover_dgram ce hw c" and ?g2 = "\<lambda>y. request_dgram ce hw c (htonl DHCP_SERVER_IP_ADDRESS) y"
  obtain s1 s2 p1 p2 d1 d2 w y m where s: "server_step e1 (Some ?g1) s = Inr s1" "sent s1 = sent s @ [p1]"
    "payload p1 = reply_dgram DHCPOFFER w y d1"
    "server_step e2 (Some (?g2 y)) s1 = Inr s2" "sent s2 = sent s1 @ [p2]" "payload p2 = reply_dgram DHCPACK True y d2"
    and d: "wf_dhcp d1" "xid d1 = htonl (rand_of ce (calls c))" "wf_dhcp d2" "xid d2 = htonl (rand_of ce (calls c))"
    and lease: "in_pool (ntohl y)" "lease_map (table s2) (ntohl y) = Some (m, t_lease e2)"
      "ntohl y \<notin> dom (lease_map (table s)) \<longrightarrow> m = take 6 hw"
    by (rule server_exchange [OF assms(1-6,8,9)])
  have client: "\<exists>c'. discover ce (c\<lparr>inbox := Some (payload p1) # Some (payload p2) # rest\<rparr>) = Inr c' \<and>
       map payload (cl_sent c') = map payload (cl_sent c) @ [?g1, ?g2 y] \<and> inbox c' = rest \<and>
       if_addr c' = htonl (ntohl y) \<and> dhcp_server_identifier c' = htonl DHCP_SERVER_IP_ADDRESS \<and>
       lease_time c' = 32 \<and> t1_time c' = 16 \<and> t2_time c' = 28 \<and> alarm_left c' = 16" for rest
    using discover_configures [OF assms(7,8), of "c\<lparr>inbox := Some (payload p1) # Some (payload p2) # rest\<rparr>" d1 d2 w y y rest]
      assms(9-12) d s(3,6) by auto
  show ?thesis
    by (intro exI [of _ ?g1] exI [of _ "?g2 y"] exI [of _ s1] exI [of _ s2] exI [of _ p1] exI [of _ p2]
        exI [of _ "ntohl y"] exI [of _ m] conjI s(1,2,4,5) lease allI client)
qed

theorem discovery_configures_client_witness:
  "\<exists>g1 g2 s1 s2 p1 p2 a c'.
    server_step (sample_env 100) (Some g1) (sample_server zero_msg empty_table) = Inr s1 \<and> sent s1 = [p1] \<and>
    server_step (sample_env 101) (Some g2) s1 = Inr s2 \<and> sent s2 = [p1, p2] \<and>
    discover sample_cl_env ((sample_client 0 0 0 0)\<lparr>inbox := [Some (payload p1), Some (payload p2)]\<rparr>) = Inr c' \<and>
    in_pool a \<and> if_addr c' = htonl a \<and> lease_map (table s2) a = Some (sample_mac, 101)"
proof -
  let ?s = "sample_server zero_msg empty_table" and ?c = "sample_client 0 0 0 0"
  have p: "wf_dhcp (dhcp_recv ?s)" "lease_inv (table ?s)" "\<forall>a \<in> dom (lease_map (table ?s)). in_pool a"
    "covers_pool (rnd (sample_env 100))" "t_check (sample_env 100) \<le> t_check (sample_env 101)"
    "mac_known (table ?s) sample_mac \<or> length (leases (table ?s)) < IP_ADDRESS_POOL_AMOUNT"
    "hw_addr sample_cl_env = Some sample_mac" "6 \<le> length sample_mac"
    "get_ip_address sample_cl_env ?c = 0" "\<forall>r. kernel_accepts sample_cl_env r"
    "\<forall>n. wf_dhcp (offer_stack sample_cl_env n)" "\<forall>n. wf_dhcp (ack_stack sample_cl_env n)"
    by (simp_all add: wf_zero_msg lease_inv_empty get_ip_address_def sample_client_def)
  obtain g1 g2 s1 s2 p1 p2 a m where e:
    "server_step (sample_env 100) (Some g1) ?s = Inr s1" "sent s1 = sent ?s @ [p1]"
    "server_step (sample_env 101) (Some g2) s1 = Inr s2" "sent s2 = sent s1 @ [p2]" "in_pool a"
    "lease_map (table s2) a = Some (m, t_lease (sample_env 101))"
    "a \<notin> dom (lease_map (table ?s)) \<longrightarrow> m = take 6 sample_mac"
    and c: "\<forall>rest. \<exists>c'. discover sample_cl_env (?c\<lparr>inbox := Some (payload p1) # Some (payload p2) # rest\<rparr>) = Inr c' \<and>
       if_addr c' = htonl a"
    using discovery_configures_client [OF p] by metis
  obtain c' where "discover sample_cl_env (?c\<lparr>inbox := [Some (payload p1), Some (payload p2)]\<rparr>) = Inr c'"
    "if_addr c' = htonl a" using c by blast
  moreover have "sent s1 = [p1]" "sent s2 = [p1, p2]" "lease_map (table s2) a = Some (sample_mac, 101)"
    using e by simp_all
  ultimately show ?thesis using e(1,3,5) by blast
qed

section \<open>Two servers\<close>

text \<open>
  C28: The client takes any reply of the exchange that is no refusal for the acknowledgement: when
  two servers answer the DISCOVER, the second OFFER, which arrives where the acknowledgement is
  awaited, configures the interface, with an address that nobody has leased to the client.
\<close>

theorem second_offer_taken_as_ack:
  assumes "hw_addr e = Some hw" "6 \<le> length hw" "get_ip_address e c = 0" "\<forall>r. kernel_accepts e r"
    and "inbox c = Some g # Some g' # rest"
    and "d = recv_dhcp (offer_stack e (Suc (calls c))) g" "for_us (rand_of e (calls c)) d"
    and "addr_option d OPTION_DHCP_SERVER_IDENTIFIER sid"
    and "d' = recv_dhcp (ack_stack e (Suc (calls c))) g'" "for_us (rand_of e (calls c)) d'"
    and "type_option d' DHCPOFFER" "addr_option d' OPTION_DHCP_SERVER_IDENTIFIER sid'"
    and "addr_option d' OPTION_SUBNET_MASK nm" "addr_option d' OPTION_ROUTER gw"
    and "addr_option d' OPTION_IP_ADDRESS_LEASE_TIME lt" "addr_option d' OPTION_IP_T1_RENEWAL_TIME t1"
    and "addr_option d' OPTION_IP_T2_REBIND_TIME t2"
  shows "\<exists>c'. discover e c = Inr c' \<and> if_addr c' = yiaddr d' \<and> dhcp_server_identifier c' = sid' \<and>
     alarm_left c' = ntohl t1 \<and>
     map payload (cl_sent c') = map payload (cl_sent c) @ [discover_dgram e hw c, request_dgram e hw c sid (yiaddr d)]"
proof -
  obtain c1 where c1: "dhcp_discover e c = Inr (0, d', c1)" "dhcp_server_identifier c1 = sid'"
    "map payload (cl_sent c1) = map payload (cl_sent c) @ [discover_dgram e hw c, request_dgram e hw c sid (yiaddr d)]"
    using dhcp_discover_answered [OF assms(1,2), of c "[]" g "[]" g' rest d sid d' DHCPOFFER sid'] assms(5-12)
    by simp
  then show ?thesis
    by (simp add: discover_def assms(3) setup_interface_complete [OF assms(4,13,14)]
        set_alarm_complete [OF assms(15-17)])
qed

text \<open>Two servers that run this program and offer different addresses to the same client.\<close>

theorem second_offer_taken_as_ack_witness:
  "\<exists>c'. discover sample_cl_env ((sample_client 0 0 0 0)\<lparr>inbox :=
      [Some (reply_dgram DHCPOFFER True (htonl 0xC0A80005) (zero_msg\<lparr>xid := htonl 0x12345678\<rparr>)),
       Some (reply_dgram DHCPOFFER True (htonl 0xC0A80006) (zero_msg\<lparr>xid := htonl 0x12345678\<rparr>))]\<rparr>) = Inr c' \<and>
     if_addr c' = htonl 0xC0A80006"
proof -
  let ?d = "zero_msg\<lparr>xid := htonl 0x12345678\<rparr>"
  have wf: "wf_dhcp ?d" using wf_zero_msg by (simp add: wf_dhcp_def)
  have x: "xid ?d = htonl 0x12345678" by simp
  note r = reply_for_client [OF wf_zero_msg wf x refl, of DHCPOFFER True]
  note a = recv_reply_addr [OF wf_zero_msg wf, of DHCPOFFER True]
  show ?thesis
    by (rule exE [OF second_offer_taken_as_ack [of sample_cl_env sample_mac
          "(sample_client 0 0 0 0)\<lparr>inbox := [Some (reply_dgram DHCPOFFER True (htonl 0xC0A80005) ?d),
             Some (reply_dgram DHCPOFFER True (htonl 0xC0A80006) ?d)]\<rparr>"
          "reply_dgram DHCPOFFER True (htonl 0xC0A80005) ?d" "reply_dgram DHCPOFFER True (htonl 0xC0A80006) ?d" "[]"
          "recv_dhcp zero_msg (reply_dgram DHCPOFFER True (htonl 0xC0A80005) ?d)" "htonl DHCP_SERVER_IP_ADDRESS"
          "recv_dhcp zero_msg (reply_dgram DHCPOFFER True (htonl 0xC0A80006) ?d)" "htonl DHCP_SERVER_IP_ADDRESS" "htonl SUBNET_MASK" "htonl ROUTER_IP_ADDRESS"
          "htonl IP_ADDRESS_LEASE_TIME" "htonl T1_RENEWAL_TIME" "htonl T2_REBIND_TIME"]])
      (simp_all add: r a map_of_reply_options get_ip_address_def sample_client_def del: T1_T2_values)
qed

section \<open>Two clients\<close>

text \<open>
  C27: Two clients can hold the same address at the same time. When the lease of the first has run
  out, a second client requests its address and is acknowledged; then the first requests it again,
  before the lease of the second has run out, and is acknowledged as well. The cause is that the
  table never recorded the second client.
\<close>

theorem address_acked_twice:
  assumes "wf_dhcp (dhcp_recv s)" "lease_inv (table s)" "in_pool a" "lease_map (table s) a = Some (old, ts)"
    and "ts + uint IP_ADDRESS_LEASE_TIME \<le> t_check e1" "t_check e2 < t_lease e1 + uint IP_ADDRESS_LEASE_TIME"
    and "6 \<le> length hw1" "get_ip_address ce1 c1 = 0" "\<not> same_mac hw1 old"
    and "6 \<le> length hw2" "get_ip_address ce2 c2 = 0" "same_mac hw2 old"
  shows "\<exists>s1 s2 p1 p2 d1 d2.
    server_step e1 (Some (request_dgram ce1 hw1 c1 (htonl DHCP_SERVER_IP_ADDRESS) (htonl a))) s = Inr s1 \<and>
    sent s1 = sent s @ [p1] \<and> payload p1 = reply_dgram DHCPACK True (htonl a) d1 \<and>
    take 6 (chaddr d1) = take 6 hw1 \<and>
    server_step e2 (Some (request_dgram ce2 hw2 c2 (htonl DHCP_SERVER_IP_ADDRESS) (htonl a))) s1 = Inr s2 \<and>
    sent s2 = sent s1 @ [p2] \<and> payload p2 = reply_dgram DHCPACK True (htonl a) d2 \<and>
    take 6 (chaddr d2) = take 6 hw2 \<and>
    (\<forall>mac. same_mac mac hw1 \<longrightarrow> check_ipaddr (table s1) (t_check e2) (htonl a) mac \<le> 0)"
proof -
  have 1: "may_use (lease_map (table s)) (t_check e1) (ntohl (htonl a)) hw1"
    using assms(3-5) by (simp add: may_use_def)
  obtain s1 p1 d1 where s1: "server_step e1 (Some (request_dgram ce1 hw1 c1 (htonl DHCP_SERVER_IP_ADDRESS) (htonl a))) s = Inr s1"
    "sent s1 = sent s @ [p1]" "payload p1 = reply_dgram DHCPACK True (htonl a) d1"
    "chaddr d1 = take 6 hw1 @ replicate 10 0"
    "lease_map (table s1) = grant_map (lease_map (table s)) (t_lease e1) (ntohl (htonl a)) hw1"
    "wf_dhcp (dhcp_recv s1)" "lease_inv (table s1)"
    by (rule request_step [OF assms(1,2,7,8) 1])
  have held: "lease_map (table s1) a = Some (old, t_lease e1)"
    using s1(5) assms(4) by (simp add: grant_map_def)
  then have 2: "may_use (lease_map (table s1)) (t_check e2) (ntohl (htonl a)) hw2"
    using assms(3,12) by (simp add: may_use_def same_mac_sym)
  obtain s2 p2 d2 where s2: "server_step e2 (Some (request_dgram ce2 hw2 c2 (htonl DHCP_SERVER_IP_ADDRESS) (htonl a))) s1 = Inr s2"
    "sent s2 = sent s1 @ [p2]" "payload p2 = reply_dgram DHCPACK True (htonl a) d2"
    "chaddr d2 = take 6 hw2 @ replicate 10 0"
    by (rule request_step [OF s1(6,7) assms(10,11) 2])
  have refused: "check_ipaddr (table s1) (t_check e2) (htonl a) mac \<le> 0" if "same_mac mac hw1" for mac
  proof -
    have "\<not> same_mac old mac" using that assms(9) same_mac_trans same_mac_sym by blast
    then show ?thesis using held assms(6) by (simp add: check_ipaddr_spec may_use_def flip: not_less)
  qed
  show ?thesis
    by (intro exI [of _ s1] exI [of _ s2] exI [of _ p1] exI [of _ p2] exI [of _ d1] exI [of _ d2] conjI)
      (use s1(1-4) s2 refused assms(7,10) in \<open>simp_all add: min_absorb2\<close>)
qed

theorem address_acked_twice_witness:
  "\<exists>s1 s2 p1 p2 d1 d2 g1 g2.
    server_step (sample_env 40) (Some g1) (sample_server zero_msg (leased_table 0xC0A80009 sample_mac 4)) = Inr s1 \<and>
    server_step (sample_env 50) (Some g2) s1 = Inr s2 \<and> sent s2 = [p1, p2] \<and>
    payload p1 = reply_dgram DHCPACK True (htonl 0xC0A80009) d1 \<and> take 6 (chaddr d1) = other_mac \<and>
    payload p2 = reply_dgram DHCPACK True (htonl 0xC0A80009) d2 \<and> take 6 (chaddr d2) = sample_mac"
proof -
  let ?s = "sample_server zero_msg (leased_table 0xC0A80009 sample_mac 4)" and ?c = "sample_client 0 0 0 0"
  let ?g = "\<lambda>hw. request_dgram sample_cl_env hw ?c (htonl DHCP_SERVER_IP_ADDRESS) (htonl 0xC0A80009)"
  have s: "wf_dhcp (dhcp_recv ?s)" "lease_inv (table ?s)" "in_pool 0xC0A80009"
    "lease_map (table ?s) 0xC0A80009 = Some (sample_mac, 4)"
    by (simp_all add: wf_zero_msg leased_table_facts in_pool_def)
  have t: "4 + uint IP_ADDRESS_LEASE_TIME \<le> t_check (sample_env 40)"
    "t_check (sample_env 50) < t_lease (sample_env 40) + uint IP_ADDRESS_LEASE_TIME" by simp_all
  have c: "6 \<le> length other_mac" "6 \<le> length sample_mac" "get_ip_address sample_cl_env ?c = 0"
    "\<not> same_mac other_mac sample_mac" "same_mac sample_mac sample_mac"
    by (simp_all add: get_ip_address_def sample_client_def same_mac_def)
  from address_acked_twice [OF s t c(1,3,4,2,3,5)]
  obtain s1 s2 p1 p2 d1 d2 where o: "server_step (sample_env 40) (Some (?g other_mac)) ?s = Inr s1"
    "sent s1 = sent ?s @ [p1]" "payload p1 = reply_dgram DHCPACK True (htonl 0xC0A80009) d1"
    "take 6 (chaddr d1) = take 6 other_mac"
    "server_step (sample_env 50) (Some (?g sample_mac)) s1 = Inr s2" "sent s2 = sent s1 @ [p2]"
    "payload p2 = reply_dgram DHCPACK True (htonl 0xC0A80009) d2" "take 6 (chaddr d2) = take 6 sample_mac"
    by (elim exE conjE) (rule that)
  show ?thesis
    by (intro exI [of _ s1] exI [of _ s2] exI [of _ p1] exI [of _ p2] exI [of _ d1] exI [of _ d2]
        exI [of _ "?g other_mac"] exI [of _ "?g sample_mac"] conjI o(1,3,5,7))
      (use o in simp_all)
qed

end
